(* ===== verification/Prelude.thy ===== *)
theory Prelude
  imports Main "HOL-Library.Word"
begin

text \<open>
  What every component of the development shares: the machine integer types, the result type of
  C code that may run into undefined behaviour together with its sequencing operators, heap
  objects reached through pointers, and byte blocks inside byte arrays.

  A C function that changes state is a HOL function from the state to \<open>fault + state\<close> (or
  \<open>fault + (result \<times> state)\<close>). \<open>Inl f\<close> is undefined behaviour of kind \<open>f\<close>: the C standard says
  nothing about what the process does from there on, so the model stops. An error the code itself
  reports (a negative return code) is an ordinary value inside \<open>Inr\<close>.
\<close>

unbundle bit_operations_syntax

named_theorems hw_defs \<open>the constants of the hardware description headers\<close>
named_theorems res_simps \<open>sequencing of computations that may fault\<close>

section \<open>Machine types\<close>

type_synonym u8 = "8 word"
type_synonym u16 = "16 word"
type_synonym u32 = "32 word"
type_synonym u64 = "64 word"

text \<open>A pointer is an opaque address; \<open>NULL\<close> is 0.\<close>

type_synonym ptr = nat

abbreviation (input) NULL :: ptr where
  "NULL \<equiv> 0"

section \<open>Faults and results\<close>

datatype fault =
    NullDeref        \<comment> \<open>access through a null pointer\<close>
  | BadPointer       \<comment> \<open>access through a dangling or wild pointer\<close>
  | OutOfBounds      \<comment> \<open>access past the end of an array\<close>
  | NoReturnValue    \<comment> \<open>the value of a function that fell off its end is used\<close>
  | Uninitialised    \<comment> \<open>a lock is used before it is initialised\<close>
  | Deadlock         \<comment> \<open>the caller waits for an event that never comes\<close>
  | NestedTooDeep    \<comment> \<open>calls nested deeper than a bound of the model\<close>

type_synonym 'a res = "fault + 'a"

fun bindE :: "'e + 'a \<Rightarrow> ('a \<Rightarrow> 'e + 'b) \<Rightarrow> 'e + 'b" where
  "bindE (Inl e) f = Inl e"
| "bindE (Inr x) f = f x"

text \<open>A counted loop whose body may fault: the body runs once per element, in order.\<close>

fun foldE :: "('a \<Rightarrow> 's \<Rightarrow> 'e + 's) \<Rightarrow> 'a list \<Rightarrow> 's \<Rightarrow> 'e + 's" where
  "foldE f [] s = Inr s"
| "foldE f (x # xs) s = bindE (f x s) (foldE f xs)"

lemma bindE_Inr_iff [res_simps]:
  "bindE m f = Inr y \<longleftrightarrow> (\<exists>x. m = Inr x \<and> f x = Inr y)"
  by (cases m) auto

lemma bindE_Inl_iff:
  "bindE m f = Inl e \<longleftrightarrow> m = Inl e \<or> (\<exists>x. m = Inr x \<and> f x = Inl e)"
  by (cases m) auto

lemma bindE_assoc: "bindE (bindE m f) g = bindE m (\<lambda>x. bindE (f x) g)"
  by (cases m) auto

lemma bindE_Inr_right [simp]: "bindE m Inr = m"
  by (cases m) auto

lemma bindE_cong [fundef_cong]:
  "m = m' \<Longrightarrow> (\<And>x. m' = Inr x \<Longrightarrow> f x = f' x) \<Longrightarrow> bindE m f = bindE m' f'"
  by (cases m') auto

lemma foldE_Nil_fun [simp]: "foldE f [] = Inr"
  by (rule ext) simp

lemma foldE_append:
  "foldE f (xs @ ys) s = bindE (foldE f xs s) (foldE f ys)"
  by (induction xs arbitrary: s) (auto simp: bindE_assoc cong: bindE_cong)

text \<open>Loop rule: a body that never faults under the invariant gives a loop that never does.\<close>

lemma foldE_total:
  assumes body: "\<And>x s. x \<in> set xs \<Longrightarrow> I s \<Longrightarrow> \<exists>s'. f x s = Inr s' \<and> I s'"
    and init: "I s"
  shows "\<exists>s'. foldE f xs s = Inr s' \<and> I s'"
  using assms
proof (induction xs arbitrary: s)
  case Nil
  then show ?case by simp
next
  case (Cons x xs)
  from Cons.prems obtain s1 where s1: "f x s = Inr s1" "I s1"
    by (metis list.set_intros(1))
  from Cons.prems(1) have "\<exists>s'. foldE f xs s1 = Inr s' \<and> I s'"
    by (intro Cons.IH[OF _ s1(2)]) simp
  with s1 show ?case by simp
qed

section \<open>Heap objects behind pointers\<close>

text \<open>
  Objects of one struct type are a partial map from addresses. Reading through a null pointer and
  through an address that holds no live object are different faults.
\<close>

definition deref :: "(ptr \<rightharpoonup> 'a) \<Rightarrow> ptr \<Rightarrow> 'a res" where
  "deref h p = (if p = NULL then Inl NullDeref
                else case h p of None \<Rightarrow> Inl BadPointer | Some x \<Rightarrow> Inr x)"

lemma deref_Inr_iff [res_simps]: "deref h p = Inr x \<longleftrightarrow> p \<noteq> NULL \<and> h p = Some x"
  by (auto simp: deref_def split: option.splits)

lemma deref_Some [simp]: "p \<noteq> NULL \<Longrightarrow> h p = Some x \<Longrightarrow> deref h p = Inr x"
  by (simp add: deref_def)

lemma deref_NULL [simp]: "deref h 0 = Inl NullDeref"
  by (simp add: deref_def)

section \<open>Blocks inside arrays\<close>

text \<open>\<open>slice\<close> is the block of \<open>n\<close> elements at \<open>off\<close>; \<open>blit\<close> overwrites the block at \<open>off\<close>.\<close>

definition slice :: "nat \<Rightarrow> nat \<Rightarrow> 'a list \<Rightarrow> 'a list" where
  "slice off n xs = take n (drop off xs)"

definition blit :: "nat \<Rightarrow> 'a list \<Rightarrow> 'a list \<Rightarrow> 'a list" where
  "blit off ys xs = take off xs @ ys @ drop (off + length ys) xs"

lemma length_slice [simp]: "off + n \<le> length xs \<Longrightarrow> length (slice off n xs) = n"
  by (simp add: slice_def)

lemma length_blit [simp]: "off + length ys \<le> length xs \<Longrightarrow> length (blit off ys xs) = length xs"
  by (simp add: blit_def)

lemma slice_blit_same [simp]:
  "off + length ys \<le> length xs \<Longrightarrow> n = length ys \<Longrightarrow> slice off n (blit off ys xs) = ys"
  by (simp add: slice_def blit_def)

lemma nth_blit:
  assumes "off + length ys \<le> length xs" and "i < length xs"
  shows "blit off ys xs ! i = (if off \<le> i \<and> i < off + length ys then ys ! (i - off) else xs ! i)"
proof -
  have "i - length ys + length ys = i" if "off + length ys \<le> i"
    using that by simp
  with assms show ?thesis
    by (auto simp: blit_def nth_append min_def)
qed

lemma nth_slice: "i < n \<Longrightarrow> off + n \<le> length xs \<Longrightarrow> slice off n xs ! i = xs ! (off + i)"
  by (simp add: slice_def)

lemma blit_Nil [simp]: "blit off [] xs = xs"
  by (simp add: blit_def)

section \<open>Words\<close>

lemma unat_minus_ge:
  fixes a b :: "'n::len word"
  assumes "b \<le> a"
  shows "unat (a - b) = unat a - unat b"
  using assms by (simp add: unat_sub)

lemma word_numeral_le_iff:
  fixes a b :: "'n::len word"
  shows "a \<le> b \<longleftrightarrow> unat a \<le> unat b"
  by (rule word_le_nat_alt)


lemma and_low32:
  fixes x :: u64
  assumes "unat x < 2 ^ 32"
  shows "x AND 0xFFFFFFFF = x"
proof -
  have "(0xFFFFFFFF :: u64) = mask 32" by (simp add: mask_eq_exp_minus_1)
  moreover have "x AND mask 32 = x"
    by (rule less_mask_eq) (use assms in \<open>simp add: word_less_nat_alt\<close>)
  ultimately show ?thesis by (simp only:)
qed

lemma unat_of_nat64: "n < 2 ^ 64 \<Longrightarrow> unat (of_nat n :: u64) = n"
  by (simp add: unat_of_nat)

section \<open>Byte memories\<close>

text \<open>Reading and writing a run of bytes of an address space, addresses wrapping at the top.\<close>

definition mem_load :: "(u64 \<Rightarrow> u8) \<Rightarrow> u64 \<Rightarrow> nat \<Rightarrow> u8 list" where
  "mem_load r bus n = map (\<lambda>i. r (bus + of_nat i)) [0..<n]"

definition mem_store :: "u64 \<Rightarrow> u8 list \<Rightarrow> (u64 \<Rightarrow> u8) \<Rightarrow> u64 \<Rightarrow> u8" where
  "mem_store bus bs r = (\<lambda>x. if unat (x - bus) < length bs then bs ! unat (x - bus) else r x)"

lemma length_mem_load [simp]: "length (mem_load r bus n) = n"
  by (simp add: mem_load_def)

lemma mem_load_store:
  assumes "length bs < 2 ^ 64" and "n = length bs"
  shows "mem_load (mem_store bus bs r) bus n = bs"
proof (rule nth_equalityI)
  fix i assume "i < length (mem_load (mem_store bus bs r) bus n)"
  with assms show "mem_load (mem_store bus bs r) bus n ! i = bs ! i"
    by (simp add: mem_load_def mem_store_def unat_of_nat64)
qed (simp add: assms)

lemma mem_load_store_apart:
  assumes "\<And>i j. i < n \<Longrightarrow> j < length bs \<Longrightarrow> a + of_nat i \<noteq> b + of_nat j"
  shows "mem_load (mem_store b bs r) a n = mem_load r a n"
proof -
  have "\<not> unat (a + of_nat i - b) < length bs" if "i < n" for i
  proof
    assume "unat (a + of_nat i - b) < length bs"
    with assms[OF that this] show False by simp
  qed
  then show ?thesis by (simp add: mem_load_def mem_store_def)
qed

end
