(* ===== verification/Aurora_HW.thy ===== *)
theory Aurora_HW
  imports Prelude
begin

text \<open>
  The hardware description: every macro of \<open>src/pciemu/aurora_backend/aurora_hw.h\<close> and of
  \<open>src/pciemu/glue/pciemu_hw.h\<close> (with \<open>AURORA_HW\<close> defined, the only configuration of the source),
  one definition each. Register offsets, sizes and DMA values are 64-bit words, as the expressions
  that use them are; BAR numbers, flags and counters, which only index and count, are \<open>nat\<close>.
  The lemmas at the end say that the layout is consistent.
\<close>

section \<open>aurora\_hw.h: the simulated board\<close>

definition AURORA_HW_VENDOR_ID :: u16 where
  [hw_defs]: "AURORA_HW_VENDOR_ID = 0x1b36"

definition AURORA_HW_DEVICE_ID :: u16 where
  [hw_defs]: "AURORA_HW_DEVICE_ID = 0x1100"

definition AURORA_HW_REVISION :: u8 where
  [hw_defs]: "AURORA_HW_REVISION = 0x01"

text \<open>BAR\<close>

definition AURORA_HW_MEM_BAR :: nat where
  [hw_defs]: "AURORA_HW_MEM_BAR = 0"

definition AURORA_HW_MEM_BAR_SIZE :: u64 where
  [hw_defs]: "AURORA_HW_MEM_BAR_SIZE = 0x800000000"

definition AURORA_HW_MEM_BAR_PREFETCHABLE :: nat where
  [hw_defs]: "AURORA_HW_MEM_BAR_PREFETCHABLE = 0x1"

definition AURORA_HW_MEM_BAR_WIDE :: nat where
  [hw_defs]: "AURORA_HW_MEM_BAR_WIDE = 64"

definition AURORA_HW_INT_BAR :: nat where
  [hw_defs]: "AURORA_HW_INT_BAR = 2"

definition AURORA_HW_INT_BAR_SIZE :: u64 where
  [hw_defs]: "AURORA_HW_INT_BAR_SIZE = 0x200000"

definition AURORA_HW_INT_BAR_PREFETCHABLE :: nat where
  [hw_defs]: "AURORA_HW_INT_BAR_PREFETCHABLE = 0x0"

definition AURORA_HW_INT_BAR_WIDE :: nat where
  [hw_defs]: "AURORA_HW_INT_BAR_WIDE = 32"

definition AURORA_HW_REG_BAR :: nat where
  [hw_defs]: "AURORA_HW_REG_BAR = 3"

definition AURORA_HW_REG_BAR_SIZE :: u64 where
  [hw_defs]: "AURORA_HW_REG_BAR_SIZE = 0x8000000"

definition AURORA_HW_REG_BAR_PREFETCHABLE :: nat where
  [hw_defs]: "AURORA_HW_REG_BAR_PREFETCHABLE = 0x0"

definition AURORA_HW_REG_BAR_WIDE :: nat where
  [hw_defs]: "AURORA_HW_REG_BAR_WIDE = 32"

definition AURORA_HW_BAR_CNT :: nat where
  [hw_defs]: "AURORA_HW_BAR_CNT = 3"

text \<open>BAR0 -- HARDWARE REGISTERS\<close>

definition AURORA_HW_REGBAR_REG_CNT :: nat where
  [hw_defs]: "AURORA_HW_REGBAR_REG_CNT = 4"

definition AURORA_HW_REG_0 :: u64 where
  [hw_defs]: "AURORA_HW_REG_0 = 0x00"

definition AURORA_HW_REG_1 :: u64 where
  [hw_defs]: "AURORA_HW_REG_1 = 0x08"

definition AURORA_HW_REG_2 :: u64 where
  [hw_defs]: "AURORA_HW_REG_2 = 0x10"

definition AURORA_HW_REG_3 :: u64 where
  [hw_defs]: "AURORA_HW_REG_3 = 0x18"

text \<open>BAR0 -- IRQ\<close>

definition AURORA_HW_REG_IRQ_0_RAISE :: u64 where
  [hw_defs]: "AURORA_HW_REG_IRQ_0_RAISE = 0x20"

definition AURORA_HW_REG_IRQ_0_LOWER :: u64 where
  [hw_defs]: "AURORA_HW_REG_IRQ_0_LOWER = 0x28"

text \<open>BAR0 -- DMA configuration\<close>

definition AURORA_HW_REG_DMA_CFG_TXDESC_SRC :: u64 where
  [hw_defs]: "AURORA_HW_REG_DMA_CFG_TXDESC_SRC = 0x30"

definition AURORA_HW_REG_DMA_CFG_TXDESC_DST :: u64 where
  [hw_defs]: "AURORA_HW_REG_DMA_CFG_TXDESC_DST = 0x38"

definition AURORA_HW_REG_DMA_CFG_TXDESC_LEN :: u64 where
  [hw_defs]: "AURORA_HW_REG_DMA_CFG_TXDESC_LEN = 0x40"

definition AURORA_HW_REG_DMA_CFG_CMD :: u64 where
  [hw_defs]: "AURORA_HW_REG_DMA_CFG_CMD = 0x48"

definition AURORA_HW_REG_DMA_DOORBELL_RING :: u64 where
  [hw_defs]: "AURORA_HW_REG_DMA_DOORBELL_RING = 0x50"

text \<open>BAR0 -- MSIX range\<close>

definition AURORA_HW_MSIX_TABLE_OFFSET :: u64 where
  [hw_defs]: "AURORA_HW_MSIX_TABLE_OFFSET = 0x1000"

definition AURORA_HW_MSIX_PBA_OFFSET :: u64 where
  [hw_defs]: "AURORA_HW_MSIX_PBA_OFFSET = 0x3000"

text \<open>BAR0 Boundaries\<close>

definition AURORA_HW_REGBAR_START :: u64 where
  [hw_defs]: "AURORA_HW_REGBAR_START = AURORA_HW_REG_0"

definition AURORA_HW_REGBAR_END :: u64 where
  [hw_defs]: "AURORA_HW_REGBAR_END = AURORA_HW_REG_BAR_SIZE"

text \<open>DMA\<close>

definition AURORA_HW_DMA_ADDR_CAPABILITY :: nat where
  [hw_defs]: "AURORA_HW_DMA_ADDR_CAPABILITY = 32"

definition AURORA_HW_DMA_AREA_START :: u64 where
  [hw_defs]: "AURORA_HW_DMA_AREA_START = 0x10000"

definition AURORA_HW_DMA_AREA_SIZE :: u64 where
  [hw_defs]: "AURORA_HW_DMA_AREA_SIZE = 0x1000"

text \<open>DMA Commands expliciting direction of transfer\<close>

definition AURORA_HW_DMA_DIRECTION_TO_DEVICE :: u64 where
  [hw_defs]: "AURORA_HW_DMA_DIRECTION_TO_DEVICE = 0x1"

definition AURORA_HW_DMA_DIRECTION_FROM_DEVICE :: u64 where
  [hw_defs]: "AURORA_HW_DMA_DIRECTION_FROM_DEVICE = 0x2"

text \<open>MSI IRQs\<close>

definition AURORA_HW_IRQ_CNT :: nat where
  [hw_defs]: "AURORA_HW_IRQ_CNT = 1"

definition AURORA_HW_IRQ_VECTOR_START :: nat where
  [hw_defs]: "AURORA_HW_IRQ_VECTOR_START = 0"

definition AURORA_HW_IRQ_VECTOR_END :: nat where
  [hw_defs]: "AURORA_HW_IRQ_VECTOR_END = 0"

definition AURORA_HW_IRQ_INTX :: nat where
  [hw_defs]: "AURORA_HW_IRQ_INTX = 0"

text \<open>MSI--X IRQs\<close>

definition AURORA_HW_IRQ_MSIX_CNT :: nat where
  [hw_defs]: "AURORA_HW_IRQ_MSIX_CNT = 128"

definition AURORA_HW_IRQ_MSIX_VECTOR_START :: nat where
  [hw_defs]: "AURORA_HW_IRQ_MSIX_VECTOR_START = 0"

definition AURORA_HW_IRQ_MSIX_VECTOR_END :: nat where
  [hw_defs]: "AURORA_HW_IRQ_MSIX_VECTOR_END = 127"

text \<open>IRQs for DMA\<close>

definition AURORA_HW_IRQ_DMA_ENDED_VECTOR :: u32 where
  [hw_defs]: "AURORA_HW_IRQ_DMA_ENDED_VECTOR = 0"

definition AURORA_HW_IRQ_DMA_ENDED_ADDR :: u64 where
  [hw_defs]: "AURORA_HW_IRQ_DMA_ENDED_ADDR = AURORA_HW_REG_IRQ_0_RAISE"

definition AURORA_HW_IRQ_DMA_ACK_ADDR :: u64 where
  [hw_defs]: "AURORA_HW_IRQ_DMA_ACK_ADDR = AURORA_HW_REG_IRQ_0_LOWER"

section \<open>pciemu\_hw.h: the names the front end and the drivers use\<close>

definition PCIEMU_HW_VENDOR_ID :: u16 where
  [hw_defs]: "PCIEMU_HW_VENDOR_ID = AURORA_HW_VENDOR_ID"

definition PCIEMU_HW_DEVICE_ID :: u16 where
  [hw_defs]: "PCIEMU_HW_DEVICE_ID = AURORA_HW_DEVICE_ID"

definition PCIEMU_HW_REVISION :: u8 where
  [hw_defs]: "PCIEMU_HW_REVISION = AURORA_HW_REVISION"

text \<open>BAR\<close>

definition PCIEMU_HW_MEM_BAR :: nat where
  [hw_defs]: "PCIEMU_HW_MEM_BAR = AURORA_HW_MEM_BAR"

definition PCIEMU_HW_MEM_BAR_SIZE :: u64 where
  [hw_defs]: "PCIEMU_HW_MEM_BAR_SIZE = AURORA_HW_MEM_BAR_SIZE"

definition PCIEMU_HW_MEM_BAR_PREFETCHABLE :: nat where
  [hw_defs]: "PCIEMU_HW_MEM_BAR_PREFETCHABLE = AURORA_HW_MEM_BAR_PREFETCHABLE"

definition PCIEMU_HW_MEM_BAR_WIDE :: nat where
  [hw_defs]: "PCIEMU_HW_MEM_BAR_WIDE = AURORA_HW_MEM_BAR_WIDE"

definition PCIEMU_HW_INT_BAR :: nat where
  [hw_defs]: "PCIEMU_HW_INT_BAR = AURORA_HW_INT_BAR"

definition PCIEMU_HW_INT_BAR_SIZE :: u64 where
  [hw_defs]: "PCIEMU_HW_INT_BAR_SIZE = AURORA_HW_INT_BAR_SIZE"

definition PCIEMU_HW_INT_BAR_PREFETCHABLE :: nat where
  [hw_defs]: "PCIEMU_HW_INT_BAR_PREFETCHABLE = AURORA_HW_INT_BAR_PREFETCHABLE"

definition PCIEMU_HW_INT_BAR_WIDE :: nat where
  [hw_defs]: "PCIEMU_HW_INT_BAR_WIDE = AURORA_HW_INT_BAR_WIDE"

definition PCIEMU_HW_REG_BAR :: nat where
  [hw_defs]: "PCIEMU_HW_REG_BAR = AURORA_HW_REG_BAR"

definition PCIEMU_HW_REG_BAR_SIZE :: u64 where
  [hw_defs]: "PCIEMU_HW_REG_BAR_SIZE = AURORA_HW_REG_BAR_SIZE"

definition PCIEMU_HW_REG_BAR_PREFETCHABLE :: nat where
  [hw_defs]: "PCIEMU_HW_REG_BAR_PREFETCHABLE = AURORA_HW_REG_BAR_PREFETCHABLE"

definition PCIEMU_HW_REG_BAR_WIDE :: nat where
  [hw_defs]: "PCIEMU_HW_REG_BAR_WIDE = AURORA_HW_REG_BAR_WIDE"

definition PCIEMU_HW_BAR_CNT :: nat where
  [hw_defs]: "PCIEMU_HW_BAR_CNT = AURORA_HW_BAR_CNT"

text \<open>BAR0 -- HARDWARE REGISTERS\<close>

definition PCIEMU_HW_REGBAR_REG_CNT :: nat where
  [hw_defs]: "PCIEMU_HW_REGBAR_REG_CNT = AURORA_HW_REGBAR_REG_CNT"

definition PCIEMU_HW_BAR0_REG_0 :: u64 where
  [hw_defs]: "PCIEMU_HW_BAR0_REG_0 = AURORA_HW_REG_0"

definition PCIEMU_HW_BAR0_REG_1 :: u64 where
  [hw_defs]: "PCIEMU_HW_BAR0_REG_1 = AURORA_HW_REG_1"

definition PCIEMU_HW_BAR0_REG_2 :: u64 where
  [hw_defs]: "PCIEMU_HW_BAR0_REG_2 = AURORA_HW_REG_2"

definition PCIEMU_HW_BAR0_REG_3 :: u64 where
  [hw_defs]: "PCIEMU_HW_BAR0_REG_3 = AURORA_HW_REG_3"

text \<open>BAR0 -- IRQ\<close>

definition PCIEMU_HW_BAR0_IRQ_0_RAISE :: u64 where
  [hw_defs]: "PCIEMU_HW_BAR0_IRQ_0_RAISE = AURORA_HW_REG_IRQ_0_RAISE"

definition PCIEMU_HW_BAR0_IRQ_0_LOWER :: u64 where
  [hw_defs]: "PCIEMU_HW_BAR0_IRQ_0_LOWER = AURORA_HW_REG_IRQ_0_LOWER"

text \<open>BAR0 -- DMA configuration\<close>

definition PCIEMU_HW_REG_DMA_CFG_TXDESC_SRC :: u64 where
  [hw_defs]: "PCIEMU_HW_REG_DMA_CFG_TXDESC_SRC = AURORA_HW_REG_DMA_CFG_TXDESC_SRC"

definition PCIEMU_HW_REG_DMA_CFG_TXDESC_DST :: u64 where
  [hw_defs]: "PCIEMU_HW_REG_DMA_CFG_TXDESC_DST = AURORA_HW_REG_DMA_CFG_TXDESC_DST"

definition PCIEMU_HW_REG_DMA_CFG_TXDESC_LEN :: u64 where
  [hw_defs]: "PCIEMU_HW_REG_DMA_CFG_TXDESC_LEN = AURORA_HW_REG_DMA_CFG_TXDESC_LEN"

definition PCIEMU_HW_REG_DMA_CFG_CMD :: u64 where
  [hw_defs]: "PCIEMU_HW_REG_DMA_CFG_CMD = AURORA_HW_REG_DMA_CFG_CMD"

definition PCIEMU_HW_REG_DMA_DOORBELL_RING :: u64 where
  [hw_defs]: "PCIEMU_HW_REG_DMA_DOORBELL_RING = AURORA_HW_REG_DMA_DOORBELL_RING"

text \<open>BAR0 -- MSIX range\<close>

definition PCIEMU_HW_MSIX_TABLE_OFFSET :: u64 where
  [hw_defs]: "PCIEMU_HW_MSIX_TABLE_OFFSET = AURORA_HW_MSIX_TABLE_OFFSET"

definition PCIEMU_HW_MSIX_PBA_OFFSET :: u64 where
  [hw_defs]: "PCIEMU_HW_MSIX_PBA_OFFSET = AURORA_HW_MSIX_PBA_OFFSET"

text \<open>BAR0 Boundaries\<close>

definition PCIEMU_HW_REGBAR_START :: u64 where
  [hw_defs]: "PCIEMU_HW_REGBAR_START = AURORA_HW_REGBAR_START"

definition PCIEMU_HW_REGBAR_END :: u64 where
  [hw_defs]: "PCIEMU_HW_REGBAR_END = AURORA_HW_REGBAR_END"

text \<open>DMA\<close>

definition PCIEMU_HW_DMA_ADDR_CAPABILITY :: nat where
  [hw_defs]: "PCIEMU_HW_DMA_ADDR_CAPABILITY = AURORA_HW_DMA_ADDR_CAPABILITY"

definition PCIEMU_HW_DMA_AREA_START :: u64 where
  [hw_defs]: "PCIEMU_HW_DMA_AREA_START = AURORA_HW_DMA_AREA_START"

definition PCIEMU_HW_DMA_AREA_SIZE :: u64 where
  [hw_defs]: "PCIEMU_HW_DMA_AREA_SIZE = AURORA_HW_DMA_AREA_SIZE"

text \<open>DMA Commands expliciting direction of transfer\<close>

definition PCIEMU_HW_DMA_DIRECTION_TO_DEVICE :: u64 where
  [hw_defs]: "PCIEMU_HW_DMA_DIRECTION_TO_DEVICE = AURORA_HW_DMA_DIRECTION_TO_DEVICE"

definition PCIEMU_HW_DMA_DIRECTION_FROM_DEVICE :: u64 where
  [hw_defs]: "PCIEMU_HW_DMA_DIRECTION_FROM_DEVICE = AURORA_HW_DMA_DIRECTION_FROM_DEVICE"

text \<open>MSI IRQs\<close>

definition PCIEMU_HW_IRQ_CNT :: nat where
  [hw_defs]: "PCIEMU_HW_IRQ_CNT = AURORA_HW_IRQ_CNT"

definition PCIEMU_HW_IRQ_VECTOR_START :: nat where
  [hw_defs]: "PCIEMU_HW_IRQ_VECTOR_START = AURORA_HW_IRQ_VECTOR_START"

definition PCIEMU_HW_IRQ_VECTOR_END :: nat where
  [hw_defs]: "PCIEMU_HW_IRQ_VECTOR_END = AURORA_HW_IRQ_VECTOR_END"

definition PCIEMU_HW_IRQ_INTX :: nat where
  [hw_defs]: "PCIEMU_HW_IRQ_INTX = AURORA_HW_IRQ_INTX"

text \<open>MSI--X IRQs\<close>

definition PCIEMU_HW_IRQ_MSIX_CNT :: nat where
  [hw_defs]: "PCIEMU_HW_IRQ_MSIX_CNT = AURORA_HW_IRQ_MSIX_CNT"

definition PCIEMU_HW_IRQ_MSIX_VECTOR_START :: nat where
  [hw_defs]: "PCIEMU_HW_IRQ_MSIX_VECTOR_START = AURORA_HW_IRQ_MSIX_VECTOR_START"

definition PCIEMU_HW_IRQ_MSIX_VECTOR_END :: nat where
  [hw_defs]: "PCIEMU_HW_IRQ_MSIX_VECTOR_END = AURORA_HW_IRQ_MSIX_VECTOR_END"

text \<open>IRQs for DMA\<close>

definition PCIEMU_HW_IRQ_DMA_ENDED_VECTOR :: u32 where
  [hw_defs]: "PCIEMU_HW_IRQ_DMA_ENDED_VECTOR = AURORA_HW_IRQ_DMA_ENDED_VECTOR"

definition PCIEMU_HW_IRQ_DMA_ENDED_ADDR :: u64 where
  [hw_defs]: "PCIEMU_HW_IRQ_DMA_ENDED_ADDR = AURORA_HW_IRQ_DMA_ENDED_ADDR"

definition PCIEMU_HW_IRQ_DMA_ACK_ADDR :: u64 where
  [hw_defs]: "PCIEMU_HW_IRQ_DMA_ACK_ADDR = AURORA_HW_IRQ_DMA_ACK_ADDR"

section \<open>Consistency of the layout\<close>

text \<open>The offsets of the register BAR that the device decodes, in the order of the header.\<close>

definition register_offsets :: "u64 list" where
  "register_offsets =
     [AURORA_HW_REG_0, AURORA_HW_REG_1, AURORA_HW_REG_2, AURORA_HW_REG_3,
      AURORA_HW_REG_IRQ_0_RAISE, AURORA_HW_REG_IRQ_0_LOWER,
      AURORA_HW_REG_DMA_CFG_TXDESC_SRC, AURORA_HW_REG_DMA_CFG_TXDESC_DST,
      AURORA_HW_REG_DMA_CFG_TXDESC_LEN, AURORA_HW_REG_DMA_CFG_CMD,
      AURORA_HW_REG_DMA_DOORBELL_RING]"

text \<open>
  The layout of the header is consistent: the decoded register offsets are pairwise distinct,
  multiples of 8 and inside the register BAR; the three BARs use different slots and the 64-bit
  one leaves the slot after it free; the MSI-X table (16 bytes per vector) ends before the
  pending-bit array, which ends inside the internal BAR, and both lie behind every decoded register;
  the interrupt used for the end of a DMA is one of the vectors the device has in either mode.
\<close>

lemma layout_consistent:
  "distinct register_offsets \<and> list_all (\<lambda>a. unat a mod 8 = 0) register_offsets \<and>
   list_all (\<lambda>a. AURORA_HW_REGBAR_START \<le> a \<and> a + 8 \<le> AURORA_HW_REG_BAR_SIZE) register_offsets \<and>
   distinct [AURORA_HW_MEM_BAR, Suc AURORA_HW_MEM_BAR, AURORA_HW_INT_BAR, AURORA_HW_REG_BAR] \<and>
   list_all (\<lambda>a. a + 8 \<le> AURORA_HW_MSIX_TABLE_OFFSET) register_offsets \<and>
   unat AURORA_HW_MSIX_TABLE_OFFSET + 16 * AURORA_HW_IRQ_MSIX_CNT \<le> unat AURORA_HW_MSIX_PBA_OFFSET \<and>
   unat AURORA_HW_MSIX_PBA_OFFSET + AURORA_HW_IRQ_MSIX_CNT div 8 \<le> unat AURORA_HW_INT_BAR_SIZE \<and>
   unat AURORA_HW_IRQ_DMA_ENDED_VECTOR < min AURORA_HW_IRQ_CNT AURORA_HW_IRQ_MSIX_CNT \<and>
   Suc AURORA_HW_IRQ_MSIX_VECTOR_END - AURORA_HW_IRQ_MSIX_VECTOR_START = AURORA_HW_IRQ_MSIX_CNT"
  by (simp add: register_offsets_def hw_defs)

end
