(* ===== verification/Qemu_Env.thy ===== *)
theory Qemu_Env
  imports Aurora_HW
begin

text \<open>
  The emulator around the device. QEMU is not part of the repository, so its functions are
  parameters: a record \<open>'m qemu\<close> of operations on an opaque machine state \<open>'m\<close> (guest memory,
  configuration spaces, interrupt lines, memory regions, the objects behind an \<open>Error **\<close>).
  A \<open>PCIDevice *\<close> is the pointer of the device that embeds it; a \<open>MemoryRegion *\<close> of the device
  is named by a \<open>region\<close>. What the device code relies on is stated where it is needed, as named
  predicates on this record.

  The state the repository's own code works on is \<open>'m qworld\<close>; the back end extends it with its
  own objects.
\<close>

datatype region = Reg_region | Dmem_region | Internal_region

text \<open>One constructor per \<open>MemoryRegionOps\<close> table of the front end.\<close>

datatype region_ops = Regbar_ops | Membar_ops | Internal_bar_ops

text \<open>The diagnostics the code hands to \<open>qemu_log_mask\<close>, with the values they print.\<close>

datatype log_event =
    Msix_init_failed
  | Msi_init_error
  | Masked_address u64 u64
  | Dst_out_of_bounds
  | Src_out_of_bounds
  | Pci_dma_read_err int
  | Pci_dma_write_err int
  | Alloc_aurora_failed
  | Create_socket_failed
  | Connect_server_failed
  | Send_failed
  | Recv_failed

text \<open>
  The operations of QEMU the device calls. \<open>pci_dma_read\<close> takes the bytes its destination holds
  before the call and gives the byte it leaves at each index: on an error the transfer may have
  been carried out in part.
\<close>

record 'm qemu =
  msix_enabled :: "ptr \<Rightarrow> 'm \<Rightarrow> bool"
  msix_notify :: "ptr \<Rightarrow> u32 \<Rightarrow> 'm \<Rightarrow> 'm"
  msix_init :: "ptr \<Rightarrow> nat \<Rightarrow> region \<Rightarrow> nat \<Rightarrow> u64 \<Rightarrow> region \<Rightarrow> nat \<Rightarrow> u64 \<Rightarrow> u8 \<Rightarrow> ptr \<Rightarrow> 'm \<Rightarrow> int \<times> 'm"
  msix_vector_use :: "ptr \<Rightarrow> u32 \<Rightarrow> 'm \<Rightarrow> 'm"
  msix_uninit :: "ptr \<Rightarrow> region \<Rightarrow> region \<Rightarrow> 'm \<Rightarrow> 'm"
  msi_enabled :: "ptr \<Rightarrow> 'm \<Rightarrow> bool"
  msi_notify :: "ptr \<Rightarrow> u32 \<Rightarrow> 'm \<Rightarrow> 'm"
  msi_init :: "ptr \<Rightarrow> u8 \<Rightarrow> nat \<Rightarrow> bool \<Rightarrow> bool \<Rightarrow> ptr \<Rightarrow> 'm \<Rightarrow> int \<times> 'm"
  msi_uninit :: "ptr \<Rightarrow> 'm \<Rightarrow> 'm"
  pci_set_irq :: "ptr \<Rightarrow> int \<Rightarrow> 'm \<Rightarrow> 'm"
  pci_config_set_interrupt_pin :: "ptr \<Rightarrow> u8 \<Rightarrow> 'm \<Rightarrow> 'm"
  pci_dma_read :: "ptr \<Rightarrow> u64 \<Rightarrow> u8 list \<Rightarrow> 'm \<Rightarrow> int \<times> (nat \<Rightarrow> u8) \<times> 'm"
  pci_dma_write :: "ptr \<Rightarrow> u64 \<Rightarrow> u8 list \<Rightarrow> 'm \<Rightarrow> int \<times> 'm"
  memory_region_init_io :: "ptr \<Rightarrow> region \<Rightarrow> region_ops \<Rightarrow> string \<Rightarrow> u64 \<Rightarrow> 'm \<Rightarrow> 'm"
  pci_register_bar :: "ptr \<Rightarrow> nat \<Rightarrow> u8 \<Rightarrow> region \<Rightarrow> 'm \<Rightarrow> 'm"
  pci_space_memory :: u8
  pci_mem_type_32 :: u8
  pci_mem_type_64 :: u8
  pci_mem_prefetch :: u8


section \<open>A concrete machine\<close>

text \<open>
  An executable instance of the parameters, used to show that hypotheses about QEMU can hold:
  byte-addressed memory, the guest's choice of interrupt mode, a record of the notifications sent
  and of the interrupt line, and the list of registered BARs.
\<close>

record sample =
  s_ram :: "u64 \<Rightarrow> u8"
  s_msix :: bool
  s_msi :: bool
  s_sent :: "(bool \<times> u32) list"
  s_line :: int
  s_bars :: "(nat \<times> u8) list"
  s_stream :: "u8 list"

definition sample_qemu :: "sample qemu" where
  "sample_qemu =
     \<lparr>msix_enabled = (\<lambda>dev m. s_msix m),
      msix_notify = (\<lambda>dev v m. m\<lparr>s_sent := (True, v) # s_sent m\<rparr>),
      msix_init = (\<lambda>dev n tr tb toff pr pb poff cap errp m. (0, m)),
      msix_vector_use = (\<lambda>dev v m. m),
      msix_uninit = (\<lambda>dev t p m. m\<lparr>s_msix := False\<rparr>),
      msi_enabled = (\<lambda>dev m. s_msi m),
      msi_notify = (\<lambda>dev v m. m\<lparr>s_sent := (False, v) # s_sent m\<rparr>),
      msi_init = (\<lambda>dev off n b64 pv errp m. (0, m)),
      msi_uninit = (\<lambda>dev m. m\<lparr>s_msi := False\<rparr>),
      pci_set_irq = (\<lambda>dev l m. m\<lparr>s_line := l\<rparr>),
      pci_config_set_interrupt_pin = (\<lambda>dev p m. m),
      pci_dma_read = (\<lambda>dev bus old m. (0, \<lambda>i. s_ram m (bus + of_nat i), m)),
      pci_dma_write = (\<lambda>dev bus bs m. (0, m\<lparr>s_ram := mem_store bus bs (s_ram m)\<rparr>)),
      memory_region_init_io = (\<lambda>dev r ops name sz m. m),
      pci_register_bar = (\<lambda>dev n t r m. m\<lparr>s_bars := (n, t) # s_bars m\<rparr>),
      pci_space_memory = 0, pci_mem_type_32 = 0, pci_mem_type_64 = 4, pci_mem_prefetch = 8\<rparr>"

definition sample_machine :: sample where
  "sample_machine = \<lparr>s_ram = (\<lambda>a. ucast a), s_msix = True, s_msi = False, s_sent = [], s_line = 0,
     s_bars = [], s_stream = []\<rparr>"

lemma sample_qemu_simps [simp]:
  "msix_enabled sample_qemu dev m = s_msix m"
  "msi_enabled sample_qemu dev m = s_msi m"
  "msix_notify sample_qemu dev v m = m\<lparr>s_sent := (True, v) # s_sent m\<rparr>"
  "msi_notify sample_qemu dev v m = m\<lparr>s_sent := (False, v) # s_sent m\<rparr>"
  "pci_set_irq sample_qemu dev l m = m\<lparr>s_line := l\<rparr>"
  "pci_dma_read sample_qemu dev bus old m = (0, \<lambda>i. s_ram m (bus + of_nat i), m)"
  "pci_dma_write sample_qemu dev bus bs m = (0, m\<lparr>s_ram := mem_store bus bs (s_ram m)\<rparr>)"
  by (simp_all add: sample_qemu_def)

lemma sample_machine_simps [simp]:
  "s_msix sample_machine = True" "s_msi sample_machine = False" "s_sent sample_machine = []"
  "s_ram sample_machine = (\<lambda>a. ucast a)" "s_stream sample_machine = []"
  by (simp_all add: sample_machine_def)

end
