(* ===== verification/Irq.thy ===== *)
theory Irq
  imports Qemu_Env
begin

text \<open>
  Interrupts of the device: \<open>src/pciemu/front_end/irq.h\<close> and \<open>irq.c\<close>, with the device object of
  \<open>pciemu.h\<close> they work on. The abstract view is the set of pending vectors; every operation
  refines an operation on that set, chosen by the interrupt mode the guest has enabled.
\<close>

section \<open>Data\<close>

definition PCIEMU_IRQ_MAX_VECTORS_MSI :: u32 where
  [hw_defs]: "PCIEMU_IRQ_MAX_VECTORS_MSI = 32"

definition PCIEMU_IRQ_MAX_VECTORS_MSIX :: u32 where
  [hw_defs]: "PCIEMU_IRQ_MAX_VECTORS_MSIX = 2048"

record MSIVector =
  vec_dev :: u64
  raised :: bool

text \<open>
  \<open>IRQStatus.status\<close> is a union. Its largest member is the array of 2048 MSI-X vectors; the 32 MSI
  vectors are the first 32 elements of the same storage, and the flag of the pin is the lowest
  byte of element 0, which is the lowest byte of that element's \<open>dev\<close> pointer (little endian).
  The model keeps the storage once, as the array of the largest member.
\<close>

record IRQStatus =
  status_vectors :: "MSIVector list"

definition set_msix_raised :: "nat \<Rightarrow> bool \<Rightarrow> IRQStatus \<Rightarrow> IRQStatus" where
  "set_msix_raised v b s =
     s\<lparr>status_vectors := (status_vectors s)[v := (status_vectors s ! v)\<lparr>raised := b\<rparr>]\<rparr>"

definition set_msi_raised :: "nat \<Rightarrow> bool \<Rightarrow> IRQStatus \<Rightarrow> IRQStatus" where
  "set_msi_raised v b s =
     s\<lparr>status_vectors := (status_vectors s)[v := (status_vectors s ! v)\<lparr>raised := b\<rparr>]\<rparr>"

definition set_pin_raised :: "bool \<Rightarrow> IRQStatus \<Rightarrow> IRQStatus" where
  "set_pin_raised b s =
     s\<lparr>status_vectors := (status_vectors s)[0 := (status_vectors s ! 0)
         \<lparr>vec_dev := (vec_dev (status_vectors s ! 0) AND NOT 0xFF) OR (if b then 1 else 0)\<rparr>]\<rparr>"

text \<open>
  \<open>PCIEMUDevice\<close>: the embedded \<open>PCIDevice\<close> and the three \<open>MemoryRegion\<close>s belong to QEMU and live
  in its machine state.
\<close>

record PCIEMUDevice =
  irq :: IRQStatus
  backend :: ptr

text \<open>A new instance is filled with zeros by QEMU's object model.\<close>

definition zero_device :: PCIEMUDevice where
  "zero_device = \<lparr>irq = \<lparr>status_vectors = replicate 2048 \<lparr>vec_dev = 0, raised = False\<rparr>\<rparr>, backend = NULL\<rparr>"

record 'm qworld =
  machine :: 'm
  qlog :: "log_event list"
  pdevs :: "ptr \<rightharpoonup> PCIEMUDevice"

definition qemu_log_mask :: "log_event \<Rightarrow> ('m, 'z) qworld_scheme \<Rightarrow> ('m, 'z) qworld_scheme" where
  "qemu_log_mask e w = w\<lparr>qlog := qlog w @ [e]\<rparr>"

definition upd_pdev :: "ptr \<Rightarrow> (PCIEMUDevice \<Rightarrow> PCIEMUDevice) \<Rightarrow> ('m, 'z) qworld_scheme
    \<Rightarrow> ('m, 'z) qworld_scheme res" where
  "upd_pdev p f w = bindE (deref (pdevs w) p) (\<lambda>d. Inr (w\<lparr>pdevs := (pdevs w)(p \<mapsto> f d)\<rparr>))"

definition on_machine :: "('m \<Rightarrow> 'm) \<Rightarrow> ('m, 'z) qworld_scheme \<Rightarrow> ('m, 'z) qworld_scheme" where
  "on_machine f w = w\<lparr>machine := f (machine w)\<rparr>"

section \<open>Initialisation\<close>

definition pciemu_irq_init_msix :: "'m qemu \<Rightarrow> ptr \<Rightarrow> ptr \<Rightarrow> ('m, 'z) qworld_scheme
    \<Rightarrow> ('m, 'z) qworld_scheme" where
  "pciemu_irq_init_msix q dev errp w =
     (let (rc, m) = msix_init q dev PCIEMU_HW_IRQ_MSIX_CNT Internal_region PCIEMU_HW_INT_BAR
                      PCIEMU_HW_MSIX_TABLE_OFFSET Internal_region PCIEMU_HW_INT_BAR
                      PCIEMU_HW_MSIX_PBA_OFFSET 0 errp (machine w);
          w = w\<lparr>machine := m\<rparr>
      in if rc < 0 then qemu_log_mask Msix_init_failed w
         else fold (\<lambda>i. on_machine (msix_vector_use q dev (of_nat i)))
                [0..<PCIEMU_HW_IRQ_MSIX_CNT] w)"

definition pciemu_irq_init_msi :: "'m qemu \<Rightarrow> ptr \<Rightarrow> ptr \<Rightarrow> ('m, 'z) qworld_scheme
    \<Rightarrow> ('m, 'z) qworld_scheme" where
  "pciemu_irq_init_msi q dev errp w =
     (let (rc, m) = msi_init q dev 0 PCIEMU_HW_IRQ_CNT True False errp (machine w);
          w = w\<lparr>machine := m\<rparr>
      in if rc \<noteq> 0 then qemu_log_mask Msi_init_error w else w)"

definition pciemu_irq_init_intx :: "'m qemu \<Rightarrow> ptr \<Rightarrow> ptr \<Rightarrow> ('m, 'z) qworld_scheme
    \<Rightarrow> ('m, 'z) qworld_scheme" where
  "pciemu_irq_init_intx q dev errp =
     on_machine (pci_config_set_interrupt_pin q dev (of_nat (PCIEMU_HW_IRQ_INTX + 1)))"

section \<open>Raising and lowering\<close>

definition pciemu_irq_raise_intx :: "'m qemu \<Rightarrow> ptr \<Rightarrow> ('m, 'z) qworld_scheme
    \<Rightarrow> ('m, 'z) qworld_scheme res" where
  "pciemu_irq_raise_intx q dev w =
     bindE (upd_pdev dev (\<lambda>d. d\<lparr>irq := set_pin_raised True (irq d)\<rparr>) w)
       (\<lambda>w. Inr (on_machine (pci_set_irq q dev 1) w))"

definition pciemu_irq_raise_msi :: "'m qemu \<Rightarrow> ptr \<Rightarrow> u32 \<Rightarrow> ('m, 'z) qworld_scheme
    \<Rightarrow> ('m, 'z) qworld_scheme res" where
  "pciemu_irq_raise_msi q dev vector w =
     (if PCIEMU_IRQ_MAX_VECTORS_MSI \<le> vector then Inr w
      else bindE (upd_pdev dev (\<lambda>d. d\<lparr>irq := set_msi_raised (unat vector) True (irq d)\<rparr>) w)
             (\<lambda>w. Inr (on_machine (msi_notify q dev vector) w)))"

definition pciemu_irq_raise_msix :: "'m qemu \<Rightarrow> ptr \<Rightarrow> u32 \<Rightarrow> ('m, 'z) qworld_scheme
    \<Rightarrow> ('m, 'z) qworld_scheme res" where
  "pciemu_irq_raise_msix q dev vector w =
     (if PCIEMU_IRQ_MAX_VECTORS_MSIX \<le> vector then Inr w
      else bindE (upd_pdev dev (\<lambda>d. d\<lparr>irq := set_msix_raised (unat vector) True (irq d)\<rparr>) w)
             (\<lambda>w. Inr (on_machine (msix_notify q dev vector) w)))"

definition pciemu_irq_lower_intx :: "'m qemu \<Rightarrow> ptr \<Rightarrow> ('m, 'z) qworld_scheme
    \<Rightarrow> ('m, 'z) qworld_scheme res" where
  "pciemu_irq_lower_intx q dev w =
     bindE (upd_pdev dev (\<lambda>d. d\<lparr>irq := set_pin_raised False (irq d)\<rparr>) w)
       (\<lambda>w. Inr (on_machine (pci_set_irq q dev 0) w))"

definition pciemu_irq_lower_msi :: "ptr \<Rightarrow> u32 \<Rightarrow> ('m, 'z) qworld_scheme
    \<Rightarrow> ('m, 'z) qworld_scheme res" where
  "pciemu_irq_lower_msi dev vector w =
     (if PCIEMU_IRQ_MAX_VECTORS_MSI \<le> vector then Inr w
      else bindE (deref (pdevs w) dev) (\<lambda>d.
             if \<not> raised (status_vectors (irq d) ! unat vector) then Inr w
             else upd_pdev dev (\<lambda>d. d\<lparr>irq := set_msi_raised (unat vector) False (irq d)\<rparr>) w))"

definition pciemu_irq_lower_msix :: "ptr \<Rightarrow> u32 \<Rightarrow> ('m, 'z) qworld_scheme
    \<Rightarrow> ('m, 'z) qworld_scheme res" where
  "pciemu_irq_lower_msix dev vector w =
     (if PCIEMU_IRQ_MAX_VECTORS_MSIX \<le> vector then Inr w
      else bindE (deref (pdevs w) dev) (\<lambda>d.
             if \<not> raised (status_vectors (irq d) ! unat vector) then Inr w
             else upd_pdev dev (\<lambda>d. d\<lparr>irq := set_msix_raised (unat vector) False (irq d)\<rparr>) w))"

section \<open>Public operations\<close>

text \<open>
  Each public operation passes \<open>&dev->pci_dev\<close> to QEMU, which reads the device object through it:
  the model checks that the pointer is alive first.
\<close>

definition pciemu_irq_raise :: "'m qemu \<Rightarrow> ptr \<Rightarrow> u32 \<Rightarrow> ('m, 'z) qworld_scheme
    \<Rightarrow> ('m, 'z) qworld_scheme res" where
  "pciemu_irq_raise q dev vector w =
     bindE (deref (pdevs w) dev) (\<lambda>_.
       if msix_enabled q dev (machine w) then pciemu_irq_raise_msix q dev vector w
       else if msi_enabled q dev (machine w) then pciemu_irq_raise_msi q dev vector w
       else pciemu_irq_raise_intx q dev w)"

definition pciemu_irq_lower :: "'m qemu \<Rightarrow> ptr \<Rightarrow> u32 \<Rightarrow> ('m, 'z) qworld_scheme
    \<Rightarrow> ('m, 'z) qworld_scheme res" where
  "pciemu_irq_lower q dev vector w =
     bindE (deref (pdevs w) dev) (\<lambda>_.
       if msix_enabled q dev (machine w) then pciemu_irq_lower_msix dev vector w
       else if msi_enabled q dev (machine w) then pciemu_irq_lower_msi dev vector w
       else pciemu_irq_lower_intx q dev w)"

definition pciemu_irq_reset :: "'m qemu \<Rightarrow> ptr \<Rightarrow> ('m, 'z) qworld_scheme
    \<Rightarrow> ('m, 'z) qworld_scheme res" where
  "pciemu_irq_reset q dev w =
     bindE (deref (pdevs w) dev) (\<lambda>_.
       if msix_enabled q dev (machine w) then
         foldE (\<lambda>i. pciemu_irq_lower_msix dev (of_nat i))
           [PCIEMU_HW_IRQ_MSIX_VECTOR_START..<Suc PCIEMU_HW_IRQ_MSIX_VECTOR_END] w
       else if msi_enabled q dev (machine w) then
         foldE (\<lambda>i. pciemu_irq_lower_msi dev (of_nat i))
           [PCIEMU_HW_IRQ_VECTOR_START..<Suc PCIEMU_HW_IRQ_VECTOR_END] w
       else pciemu_irq_lower_intx q dev w)"

definition pciemu_irq_init :: "'m qemu \<Rightarrow> ptr \<Rightarrow> ptr \<Rightarrow> ('m, 'z) qworld_scheme
    \<Rightarrow> ('m, 'z) qworld_scheme res" where
  "pciemu_irq_init q dev errp w =
     bindE (deref (pdevs w) dev) (\<lambda>_.
       Inr (pciemu_irq_init_msix q dev errp
             (pciemu_irq_init_msi q dev errp
               (pciemu_irq_init_intx q dev errp w))))"

definition pciemu_irq_fini :: "'m qemu \<Rightarrow> ptr \<Rightarrow> ('m, 'z) qworld_scheme
    \<Rightarrow> ('m, 'z) qworld_scheme res" where
  "pciemu_irq_fini q dev w =
     bindE (pciemu_irq_reset q dev w) (\<lambda>w.
       Inr (on_machine (msix_uninit q dev Reg_region Reg_region)
             (on_machine (msi_uninit q dev) w)))"


section \<open>Abstract interrupt state\<close>

text \<open>The pending vectors, and what the operations promise about them in each interrupt mode.\<close>

definition wf_irq :: "IRQStatus \<Rightarrow> bool" where
  "wf_irq i \<longleftrightarrow> length (status_vectors i) = 2048"

definition pending :: "IRQStatus \<Rightarrow> nat set" where
  "pending i = {v. v < 2048 \<and> raised (status_vectors i ! v)}"

datatype irq_mode = Mode_MSIX | Mode_MSI | Mode_INTX

definition irq_mode_of :: "'m qemu \<Rightarrow> ptr \<Rightarrow> 'm \<Rightarrow> irq_mode" where
  "irq_mode_of q dev m =
     (if msix_enabled q dev m then Mode_MSIX
      else if msi_enabled q dev m then Mode_MSI else Mode_INTX)"

fun spec_raise :: "u32 \<Rightarrow> irq_mode \<Rightarrow> nat set \<Rightarrow> nat set" where
  "spec_raise v Mode_MSIX S = (if unat v < 2048 then insert (unat v) S else S)"
| "spec_raise v Mode_MSI S = (if unat v < 32 then insert (unat v) S else S)"
| "spec_raise v Mode_INTX S = S"

fun spec_lower :: "u32 \<Rightarrow> irq_mode \<Rightarrow> nat set \<Rightarrow> nat set" where
  "spec_lower v Mode_MSIX S = S - {unat v}"
| "spec_lower v Mode_MSI S = (if unat v < 32 then S - {unat v} else S)"
| "spec_lower v Mode_INTX S = S"

fun spec_reset :: "irq_mode \<Rightarrow> nat set \<Rightarrow> nat set" where
  "spec_reset Mode_MSIX S = S - {0..<128}"
| "spec_reset Mode_MSI S = S - {0}"
| "spec_reset Mode_INTX S = S"

text \<open>The calls into QEMU that go with raising and lowering.\<close>

definition raise_machine :: "'m qemu \<Rightarrow> u32 \<Rightarrow> ptr \<Rightarrow> 'm \<Rightarrow> 'm" where
  "raise_machine q v dev m =
     (case irq_mode_of q dev m of
        Mode_MSIX \<Rightarrow> (if unat v < 2048 then msix_notify q dev v m else m)
      | Mode_MSI \<Rightarrow> (if unat v < 32 then msi_notify q dev v m else m)
      | Mode_INTX \<Rightarrow> pci_set_irq q dev 1 m)"

definition lower_machine :: "'m qemu \<Rightarrow> ptr \<Rightarrow> 'm \<Rightarrow> 'm" where
  "lower_machine q dev m =
     (if irq_mode_of q dev m = Mode_INTX then pci_set_irq q dev 0 m else m)"

definition irq_ready :: "ptr \<Rightarrow> ('m, 'z) qworld_scheme \<Rightarrow> bool" where
  "irq_ready dev w \<longleftrightarrow> dev \<noteq> NULL \<and> (\<exists>d. pdevs w dev = Some d \<and> wf_irq (irq d))"

definition set_irq :: "ptr \<Rightarrow> IRQStatus \<Rightarrow> ('m, 'z) qworld_scheme \<Rightarrow> ('m, 'z) qworld_scheme" where
  "set_irq dev i w = w\<lparr>pdevs := (pdevs w)(dev := map_option (\<lambda>d. d\<lparr>irq := i\<rparr>) (pdevs w dev))\<rparr>"

section \<open>The storage of the union\<close>

lemma wf_set_raised [simp]:
  "wf_irq (set_msix_raised v b i) = wf_irq i"
  "wf_irq (set_msi_raised v b i) = wf_irq i"
  "wf_irq (set_pin_raised b i) = wf_irq i"
  by (simp_all add: wf_irq_def set_msix_raised_def set_msi_raised_def set_pin_raised_def)

lemma pending_set_raised:
  assumes "wf_irq i" and "v < 2048"
  shows "pending (set_msix_raised v b i) = (if b then insert v (pending i) else pending i - {v})"
    and "pending (set_msi_raised v b i) = (if b then insert v (pending i) else pending i - {v})"
  using assms
  by (auto simp: pending_def wf_irq_def set_msix_raised_def set_msi_raised_def nth_list_update)

lemma pending_set_pin [simp]: "wf_irq i \<Longrightarrow> pending (set_pin_raised b i) = pending i"
  by (auto simp: pending_def wf_irq_def set_pin_raised_def nth_list_update)

lemma pending_raised_iff: "v < 2048 \<Longrightarrow> raised (status_vectors i ! v) \<longleftrightarrow> v \<in> pending i"
  by (simp add: pending_def)

section \<open>Elementary facts about the world\<close>

lemma qworld_frame [simp]:
  "pdevs (qemu_log_mask e w) = pdevs w"
  "machine (qemu_log_mask e w) = machine w"
  "pdevs (on_machine f w) = pdevs w"
  "machine (on_machine f w) = f (machine w)"
  "qlog (on_machine f w) = qlog w"
  "machine (set_irq dev i w) = machine w"
  "qlog (set_irq dev i w) = qlog w"
  by (simp_all add: qemu_log_mask_def on_machine_def set_irq_def)

lemma pdevs_set_irq:
  "pdevs (set_irq dev i w) p =
     (if p = dev then map_option (\<lambda>d. d\<lparr>irq := i\<rparr>) (pdevs w dev) else pdevs w p)"
  by (simp add: set_irq_def)

lemma set_irq_same: "pdevs w dev = Some d \<Longrightarrow> set_irq dev (irq d) w = w"
  by (simp add: set_irq_def fun_upd_idem)

lemma set_irq_set_irq [simp]: "set_irq dev i (set_irq dev j w) = set_irq dev i w"
  by (auto simp: set_irq_def fun_eq_iff option.map_comp comp_def)

lemma on_machine_id [simp]: "on_machine (\<lambda>m. m) w = w"
  by (simp add: on_machine_def)

lemma on_machine_cong: "f (machine w) = g (machine w) \<Longrightarrow> on_machine f w = on_machine g w"
  by (simp add: on_machine_def)

lemma upd_pdev_irq:
  assumes "irq_ready dev w" and "pdevs w dev = Some d"
  shows "upd_pdev dev (\<lambda>d. d\<lparr>irq := f (irq d)\<rparr>) w = Inr (set_irq dev (f (irq d)) w)"
  using assms by (simp add: upd_pdev_def set_irq_def irq_ready_def)

lemma irq_readyE:
  assumes "irq_ready dev w"
  obtains d where "dev \<noteq> NULL" and "pdevs w dev = Some d" and "wf_irq (irq d)"
  using assms by (auto simp: irq_ready_def)

lemma irq_ready_set_irq [simp]: "irq_ready dev w \<Longrightarrow> wf_irq i \<Longrightarrow> irq_ready dev (set_irq dev i w)"
  by (auto simp: irq_ready_def pdevs_set_irq)

lemma irq_ready_on_machine [simp]: "irq_ready dev (on_machine f w) = irq_ready dev w"
  by (simp add: irq_ready_def)

section \<open>The interface the back end relies on\<close>

text \<open>
  An interrupt operation acts on one device: it never faults on a live device, changes the pending
  set as its specification says, performs one effect on the machine, and leaves every other part
  of the state alone, whatever the world is extended with.
\<close>

locale irq_operation =
  fixes op :: "ptr \<Rightarrow> ('m, 'z) qworld_scheme \<Rightarrow> ('m, 'z) qworld_scheme res"
    and spec :: "ptr \<Rightarrow> 'm \<Rightarrow> nat set \<Rightarrow> nat set"
    and meff :: "ptr \<Rightarrow> 'm \<Rightarrow> 'm"
  assumes effect: "irq_ready dev w \<Longrightarrow> pdevs w dev = Some d \<Longrightarrow>
    \<exists>i. wf_irq i \<and> pending i = spec dev (machine w) (pending (irq d)) \<and>
        op dev w = Inr (on_machine (meff dev) (set_irq dev i w))"
begin

lemma total:
  assumes "irq_ready dev w"
  shows "\<exists>w'. op dev w = Inr w' \<and> irq_ready dev w'"
proof -
  from assms obtain d where "pdevs w dev = Some d" by (rule irq_readyE)
  with effect[OF assms] assms show ?thesis by fastforce
qed

lemma result:
  assumes "irq_ready dev w" and "op dev w = Inr w'"
  obtains i where "wf_irq i" and "w' = on_machine (meff dev) (set_irq dev i w)"
    and "\<And>d. pdevs w dev = Some d \<Longrightarrow> pending i = spec dev (machine w) (pending (irq d))"
proof -
  from assms(1) obtain d where d: "pdevs w dev = Some d" by (rule irq_readyE)
  from effect[OF assms(1) d] assms(2) d show thesis
    by (auto intro: that)
qed

lemma pending_after:
  assumes "irq_ready dev w" and "pdevs w dev = Some d" and "op dev w = Inr w'"
    and "pdevs w' dev = Some d'"
  shows "pending (irq d') = spec dev (machine w) (pending (irq d))"
proof -
  from assms(1,3) obtain i where w': "w' = on_machine (meff dev) (set_irq dev i w)"
    and i: "pending i = spec dev (machine w) (pending (irq d))"
    by (rule result) (use assms(2) in blast)
  from w' assms(2,4) have "d' = d\<lparr>irq := i\<rparr>" by (simp add: pdevs_set_irq)
  with i show ?thesis by simp
qed

lemma machine_after:
  "irq_ready dev w \<Longrightarrow> op dev w = Inr w' \<Longrightarrow> machine w' = meff dev (machine w)"
  by (erule (1) result) simp

lemma backend_after:
  "irq_ready dev w \<Longrightarrow> op dev w = Inr w' \<Longrightarrow>
    map_option backend (pdevs w' p) = map_option backend (pdevs w p)"
  by (erule (1) result) (auto simp: pdevs_set_irq option.map_comp comp_def)

lemma other_devices:
  "irq_ready dev w \<Longrightarrow> op dev w = Inr w' \<Longrightarrow> p \<noteq> dev \<Longrightarrow> pdevs w' p = pdevs w p"
  by (erule (1) result) (simp add: pdevs_set_irq)

lemma rest_after:
  "irq_ready dev w \<Longrightarrow> op dev w = Inr w' \<Longrightarrow> qlog w' = qlog w \<and> qworld.more w' = qworld.more w"
  by (erule (1) result) (simp add: set_irq_def on_machine_def)

text \<open>The laws together, as the statement of a functional refinement.\<close>

lemma refines:
  assumes ready: "irq_ready dev w" and d: "pdevs w dev = Some d"
  shows "\<exists>w' d'. op dev w = Inr w' \<and> pdevs w' dev = Some d' \<and>
    pending (irq d') = spec dev (machine w) (pending (irq d)) \<and> backend d' = backend d \<and>
    machine w' = meff dev (machine w) \<and> (\<forall>p. p \<noteq> dev \<longrightarrow> pdevs w' p = pdevs w p)"
proof -
  obtain w' where w': "op dev w = Inr w'" and "irq_ready dev w'"
    using total[OF ready] by blast
  then obtain d' where d': "pdevs w' dev = Some d'" by (auto simp: irq_ready_def)
  with backend_after[OF ready w', of dev] d have "backend d' = backend d" by simp
  with w' d' show ?thesis
    using pending_after[OF ready d w' d'] machine_after[OF ready w'] other_devices[OF ready w']
    by blast
qed

end

lemma irq_effectI:
  "wf_irq i \<Longrightarrow> pending i = S \<Longrightarrow> r = Inr (on_machine f (set_irq dev i w)) \<Longrightarrow>
    \<exists>i. wf_irq i \<and> pending i = S \<and> r = Inr (on_machine f (set_irq dev i w))"
  by blast


lemmas irq_op_defs =
  pciemu_irq_raise_msix_def pciemu_irq_raise_msi_def pciemu_irq_raise_intx_def
  pciemu_irq_lower_msix_def pciemu_irq_lower_msi_def pciemu_irq_lower_intx_def

lemma max_vectors_le:
  "PCIEMU_IRQ_MAX_VECTORS_MSI \<le> v \<longleftrightarrow> \<not> unat v < 32"
  "PCIEMU_IRQ_MAX_VECTORS_MSIX \<le> v \<longleftrightarrow> \<not> unat v < 2048"
  by (simp_all add: hw_defs word_le_nat_alt not_less)

lemma raise_effect:
  assumes ready: "irq_ready dev w" and d: "pdevs w dev = Some d"
  shows "\<exists>i. wf_irq i \<and> pending i = spec_raise v (irq_mode_of q dev (machine w)) (pending (irq d)) \<and>
    pciemu_irq_raise q dev v w = Inr (on_machine (raise_machine q v dev) (set_irq dev i w))"
proof -
  from ready d have wf: "wf_irq (irq d)" and nn: "dev \<noteq> NULL"
    by (auto simp: irq_ready_def)
  note upd = upd_pdev_irq[OF ready d]
  show ?thesis
  proof (cases "irq_mode_of q dev (machine w)")
    case Mode_MSIX
    then have on: "msix_enabled q dev (machine w)" by (auto simp: irq_mode_of_def split: if_splits)
    let ?i = "if unat v < 2048 then set_msix_raised (unat v) True (irq d) else irq d"
    show ?thesis
      by (rule irq_effectI[of ?i])
        (use wf nn on d in \<open>auto simp: pciemu_irq_raise_def irq_op_defs max_vectors_le upd Mode_MSIX
           pending_set_raised raise_machine_def set_irq_same on_machine_def\<close>)
  next
    case Mode_MSI
    then have on: "\<not> msix_enabled q dev (machine w)" "msi_enabled q dev (machine w)"
      by (auto simp: irq_mode_of_def split: if_splits)
    let ?i = "if unat v < 32 then set_msi_raised (unat v) True (irq d) else irq d"
    show ?thesis
      by (rule irq_effectI[of ?i])
        (use wf nn on d in \<open>auto simp: pciemu_irq_raise_def irq_op_defs max_vectors_le upd Mode_MSI
           pending_set_raised raise_machine_def set_irq_same on_machine_def\<close>)
  next
    case Mode_INTX
    then have on: "\<not> msix_enabled q dev (machine w)" "\<not> msi_enabled q dev (machine w)"
      by (auto simp: irq_mode_of_def split: if_splits)
    show ?thesis
      by (rule irq_effectI[of "set_pin_raised True (irq d)"])
        (use wf nn on d in \<open>auto simp: pciemu_irq_raise_def irq_op_defs upd Mode_INTX
           raise_machine_def on_machine_def\<close>)
  qed
qed

lemma lower_vector_effect:
  assumes ready: "irq_ready dev w" and d: "pdevs w dev = Some d"
  shows "unat v < 2048 \<Longrightarrow> \<exists>i. wf_irq i \<and> pending i = pending (irq d) - {unat v} \<and>
      pciemu_irq_lower_msix dev v w = Inr (set_irq dev i w)"
    and "unat v < 32 \<Longrightarrow> \<exists>i. wf_irq i \<and> pending i = pending (irq d) - {unat v} \<and>
      pciemu_irq_lower_msi dev v w = Inr (set_irq dev i w)"
proof -
  from ready d have wf: "wf_irq (irq d)" and nn: "dev \<noteq> NULL"
    by (auto simp: irq_ready_def)
  note upd = upd_pdev_irq[OF ready d]
  let ?j = "\<lambda>set. if unat v \<in> pending (irq d) then set (unat v) False (irq d) else irq d"
  show "\<exists>i. wf_irq i \<and> pending i = pending (irq d) - {unat v} \<and>
      pciemu_irq_lower_msix dev v w = Inr (set_irq dev i w)" if "unat v < 2048"
    by (rule exI[of _ "?j set_msix_raised"])
      (use that wf nn d in \<open>auto simp: irq_op_defs max_vectors_le upd pending_set_raised
         pending_raised_iff set_irq_same\<close>)
  show "\<exists>i. wf_irq i \<and> pending i = pending (irq d) - {unat v} \<and>
      pciemu_irq_lower_msi dev v w = Inr (set_irq dev i w)" if "unat v < 32"
    by (rule exI[of _ "?j set_msi_raised"])
      (use that wf nn d in \<open>auto simp: irq_op_defs max_vectors_le upd pending_set_raised
         pending_raised_iff set_irq_same\<close>)
qed

lemma pending_lt: "v \<in> pending i \<Longrightarrow> v < 2048"
  by (simp add: pending_def)

lemma lower_intx_effect:
  assumes ready: "irq_ready dev w" and d: "pdevs w dev = Some d"
  shows "\<exists>i. wf_irq i \<and> pending i = pending (irq d) \<and>
      pciemu_irq_lower_intx q dev w = Inr (on_machine (pci_set_irq q dev 0) (set_irq dev i w))"
  by (rule irq_effectI[of "set_pin_raised False (irq d)"])
    (use assms in \<open>auto simp: irq_op_defs irq_ready_def upd_pdev_irq[OF ready d]\<close>)

lemma lower_effect:
  assumes ready: "irq_ready dev w" and d: "pdevs w dev = Some d"
  shows "\<exists>i. wf_irq i \<and> pending i = spec_lower v (irq_mode_of q dev (machine w)) (pending (irq d)) \<and>
    pciemu_irq_lower q dev v w = Inr (on_machine (lower_machine q dev) (set_irq dev i w))"
proof -
  from ready d have wf: "wf_irq (irq d)" and nn: "dev \<noteq> NULL"
    by (auto simp: irq_ready_def)
  have keep: "on_machine (lower_machine q dev) u = u"
    if "irq_mode_of q dev (machine u) \<noteq> Mode_INTX" for u :: "('a, 'b) qworld_scheme"
    using that by (simp add: on_machine_def lower_machine_def)
  consider (x) "msix_enabled q dev (machine w)"
    | (m) "\<not> msix_enabled q dev (machine w)" "msi_enabled q dev (machine w)"
    | (p) "\<not> msix_enabled q dev (machine w)" "\<not> msi_enabled q dev (machine w)"
    by blast
  then show ?thesis
  proof cases
    case x
    then have mode: "irq_mode_of q dev (machine w) = Mode_MSIX" by (simp add: irq_mode_of_def)
    show ?thesis
    proof (cases "unat v < 2048")
      case True
      from lower_vector_effect(1)[OF ready d True] x d nn show ?thesis
        by (auto simp: pciemu_irq_lower_def mode keep)
    next
      case False
      then have "unat v \<notin> pending (irq d)" using pending_lt by blast
      with False x d nn wf show ?thesis
        by (intro irq_effectI[of "irq d"])
          (auto simp: pciemu_irq_lower_def irq_op_defs max_vectors_le mode keep set_irq_same)
    qed
  next
    case m
    then have mode: "irq_mode_of q dev (machine w) = Mode_MSI" by (simp add: irq_mode_of_def)
    show ?thesis
    proof (cases "unat v < 32")
      case True
      from lower_vector_effect(2)[OF ready d True] True m d nn show ?thesis
        by (auto simp: pciemu_irq_lower_def mode keep)
    next
      case False
      with m d nn wf show ?thesis
        by (intro irq_effectI[of "irq d"])
          (auto simp: pciemu_irq_lower_def irq_op_defs max_vectors_le mode keep set_irq_same)
    qed
  next
    case p
    then have mode: "irq_mode_of q dev (machine w) = Mode_INTX" by (simp add: irq_mode_of_def)
    from lower_intx_effect[OF ready d] p d nn show ?thesis
      by (auto simp: pciemu_irq_lower_def mode lower_machine_def on_machine_def)
  qed
qed

lemma lower_loop_effect:
  assumes ready: "irq_ready dev w" and d: "pdevs w dev = Some d"
  shows "n \<le> 2048 \<Longrightarrow> \<exists>i. wf_irq i \<and> pending i = pending (irq d) - {0..<n} \<and>
      foldE (\<lambda>i. pciemu_irq_lower_msix dev (of_nat i)) [0..<n] w = Inr (set_irq dev i w)"
proof (induction n)
  case 0
  from ready d show ?case by (auto simp: irq_ready_def set_irq_same intro!: exI[of _ "irq d"])
next
  case (Suc n)
  then obtain i where i: "wf_irq i" "pending i = pending (irq d) - {0..<n}"
    and loop: "foldE (\<lambda>i. pciemu_irq_lower_msix dev (of_nat i)) [0..<n] w = Inr (set_irq dev i w)"
    by auto
  from ready i d have r: "irq_ready dev (set_irq dev i w)"
    and di: "pdevs (set_irq dev i w) dev = Some (d\<lparr>irq := i\<rparr>)"
    by (auto simp: pdevs_set_irq)
  from Suc.prems have v: "unat (of_nat n :: u32) = n"
    by (simp add: unat_of_nat)
  from lower_vector_effect(1)[OF r di, of "of_nat n"] Suc.prems v obtain j
    where j: "wf_irq j" "pending j = pending i - {n}"
      and step: "pciemu_irq_lower_msix dev (of_nat n) (set_irq dev i w) = Inr (set_irq dev j w)"
    by auto
  have "pending j = pending (irq d) - {0..<Suc n}"
    using i(2) j(2) by (auto simp: atLeast0_lessThan_Suc)
  with j(1) loop step show ?case
    by (intro exI[of _ j]) (simp add: foldE_append)
qed


lemma reset_effect:
  assumes ready: "irq_ready dev w" and d: "pdevs w dev = Some d"
  shows "\<exists>i. wf_irq i \<and> pending i = spec_reset (irq_mode_of q dev (machine w)) (pending (irq d)) \<and>
    pciemu_irq_reset q dev w = Inr (on_machine (lower_machine q dev) (set_irq dev i w))"
proof -
  from ready d have nn: "dev \<noteq> NULL" by (auto simp: irq_ready_def)
  have keep: "on_machine (lower_machine q dev) u = u"
    if "irq_mode_of q dev (machine u) \<noteq> Mode_INTX" for u :: "('a, 'b) qworld_scheme"
    using that by (simp add: on_machine_def lower_machine_def)
  show ?thesis
  proof (cases "irq_mode_of q dev (machine w)")
    case Mode_MSIX
    then have "msix_enabled q dev (machine w)" by (auto simp: irq_mode_of_def split: if_splits)
    with lower_loop_effect[OF ready d, of 128] d nn show ?thesis
      by (simp add: pciemu_irq_reset_def hw_defs Mode_MSIX keep)
  next
    case Mode_MSI
    then have "\<not> msix_enabled q dev (machine w)" "msi_enabled q dev (machine w)"
      by (auto simp: irq_mode_of_def split: if_splits)
    with lower_vector_effect(2)[OF ready d, of 0] d nn show ?thesis
      by (simp add: pciemu_irq_reset_def hw_defs Mode_MSI keep)
  next
    case Mode_INTX
    then have "\<not> msix_enabled q dev (machine w)" "\<not> msi_enabled q dev (machine w)"
      by (auto simp: irq_mode_of_def split: if_splits)
    with lower_intx_effect[OF ready d] d nn show ?thesis
      by (auto simp: pciemu_irq_reset_def Mode_INTX lower_machine_def on_machine_def)
  qed
qed

interpretation irq_raise: irq_operation
  "\<lambda>dev. pciemu_irq_raise q dev v"
  "\<lambda>dev m. spec_raise v (irq_mode_of q dev m)"
  "raise_machine q v"
  for q v
  by unfold_locales (rule raise_effect)

interpretation irq_lower: irq_operation
  "\<lambda>dev. pciemu_irq_lower q dev v"
  "\<lambda>dev m. spec_lower v (irq_mode_of q dev m)"
  "lower_machine q"
  for q v
  by unfold_locales (rule lower_effect)

interpretation irq_reset: irq_operation
  "\<lambda>dev. pciemu_irq_reset q dev"
  "\<lambda>dev m. spec_reset (irq_mode_of q dev m)"
  "lower_machine q"
  for q
  by unfold_locales (rule reset_effect)


section \<open>Properties of the interrupt operations\<close>

text \<open>A world with one new device, in the mode the guest of the sample machine has enabled.\<close>

definition sample_qworld :: "sample qworld" where
  "sample_qworld = \<lparr>machine = sample_machine, qlog = [], pdevs = [16 \<mapsto> zero_device]\<rparr>"

lemma pending_zero_device [simp]: "pending (irq zero_device) = {}"
  by (auto simp: pending_def zero_device_def)

lemma sample_qworld_ready:
  "irq_ready 16 sample_qworld" "pdevs sample_qworld 16 = Some zero_device"
  "irq_mode_of sample_qemu 16 (machine sample_qworld) = Mode_MSIX"
  "machine sample_qworld = sample_machine"
  by (simp_all add: irq_ready_def sample_qworld_def zero_device_def wf_irq_def irq_mode_of_def)

text \<open>Two raised vectors, one on each side of the range a reset clears.\<close>

definition sample_irq :: IRQStatus where
  "sample_irq = set_msix_raised 200 True (set_msix_raised 5 True (irq zero_device))"

lemma sample_irq_state: "wf_irq sample_irq" "pending sample_irq = {200, 5}"
proof -
  have wf: "wf_irq (irq zero_device)" by (simp add: wf_irq_def zero_device_def)
  then show "wf_irq sample_irq" by (simp add: sample_irq_def)
  show "pending sample_irq = {200, 5}"
    using wf by (simp add: sample_irq_def pending_set_raised)
qed

text \<open>
  C18. Raising an interrupt on a live device always succeeds and refines the abstract operation: the
  pending set gains exactly the vector that the current mode allows (MSI-X below 2048, MSI below 32,
  none for the pin), QEMU is notified once for it, the link to the back end and every other device
  are unchanged.
\<close>

theorem irq_raise_refines:
  assumes "irq_ready dev w" and "pdevs w dev = Some d"
  shows "\<exists>w' d'. pciemu_irq_raise q dev v w = Inr w' \<and> pdevs w' dev = Some d' \<and>
    pending (irq d') = spec_raise v (irq_mode_of q dev (machine w)) (pending (irq d)) \<and>
    backend d' = backend d \<and> machine w' = raise_machine q v dev (machine w) \<and>
    (\<forall>p. p \<noteq> dev \<longrightarrow> pdevs w' p = pdevs w p)"
  by (rule irq_raise.refines[OF assms])

theorem irq_raise_refines_witness:
  "\<exists>w' d'. pciemu_irq_raise sample_qemu 16 5 sample_qworld = Inr w' \<and> pdevs w' 16 = Some d' \<and>
    pending (irq d') = {5} \<and> s_sent (machine w') = [(True, 5)]"
  using irq_raise_refines[OF sample_qworld_ready(1,2), of sample_qemu 5]
  by (auto simp: sample_qworld_ready raise_machine_def irq_mode_of_def)

text \<open>
  C19. Acknowledging a vector undoes raising it: when notifying the guest does not change the interrupt
  mode, raising a vector and lowering it again succeeds and leaves the pending set without that
  vector (unchanged for a vector the mode does not have, and for the pin), and the link to the back
  end as it was.
\<close>

theorem irq_raise_lower:
  assumes ready: "irq_ready dev w" and d: "pdevs w dev = Some d"
    and mode: "irq_mode_of q dev (raise_machine q v dev (machine w)) = irq_mode_of q dev (machine w)"
  shows "\<exists>w' d'. bindE (pciemu_irq_raise q dev v w) (pciemu_irq_lower q dev v) = Inr w' \<and>
    pdevs w' dev = Some d' \<and>
    pending (irq d') = spec_lower v (irq_mode_of q dev (machine w)) (pending (irq d)) \<and>
    backend d' = backend d"
proof -
  obtain w1 d1 where w1: "pciemu_irq_raise q dev v w = Inr w1" "pdevs w1 dev = Some d1"
    "pending (irq d1) = spec_raise v (irq_mode_of q dev (machine w)) (pending (irq d))"
    "backend d1 = backend d" "machine w1 = raise_machine q v dev (machine w)"
    using irq_raise.refines[OF ready d, of q v] by blast
  have "irq_ready dev w1" using irq_raise.total[OF ready, of q v] w1(1) by simp
  from irq_lower.refines[OF this w1(2), of q v] obtain w2 d2
    where "pciemu_irq_lower q dev v w1 = Inr w2" "pdevs w2 dev = Some d2" "backend d2 = backend d"
      "pending (irq d2) = spec_lower v (irq_mode_of q dev (machine w)) (pending (irq d1))"
    using w1(4,5) mode by auto
  with w1 show ?thesis
    by (cases "irq_mode_of q dev (machine w)") auto
qed

theorem irq_raise_lower_witness:
  "\<exists>w' d'. bindE (pciemu_irq_raise sample_qemu 16 5 sample_qworld) (pciemu_irq_lower sample_qemu 16 5)
      = Inr w' \<and> pdevs w' 16 = Some d' \<and> pending (irq d') = {}"
  using irq_raise_lower[OF sample_qworld_ready(1,2), of sample_qemu 5]
  by (auto simp: sample_qworld_ready raise_machine_def irq_mode_of_def)

text \<open>
  C20. Resetting the interrupts of a live device always succeeds. In MSI-X mode it clears the vectors
  0 to 127 the device advertises (a vector from 128 to 2047 that was raised stays pending), in MSI
  mode the single vector 0, in pin mode the line is driven low; nothing else of any device changes.
\<close>

theorem irq_reset_refines:
  assumes "irq_ready dev w" and "pdevs w dev = Some d"
  shows "\<exists>w' d'. pciemu_irq_reset q dev w = Inr w' \<and> pdevs w' dev = Some d' \<and>
    pending (irq d') = spec_reset (irq_mode_of q dev (machine w)) (pending (irq d)) \<and>
    backend d' = backend d \<and> machine w' = lower_machine q dev (machine w) \<and>
    (\<forall>p. p \<noteq> dev \<longrightarrow> pdevs w' p = pdevs w p)"
  by (rule irq_reset.refines[OF assms])

theorem irq_reset_refines_witness:
  "\<exists>w' d'. pciemu_irq_reset sample_qemu 16 (set_irq 16 sample_irq sample_qworld) = Inr w' \<and>
    pdevs w' 16 = Some d' \<and> pending (irq d') = {200}"
proof -
  have "irq_ready 16 (set_irq 16 sample_irq sample_qworld)"
    and "pdevs (set_irq 16 sample_irq sample_qworld) 16 = Some (zero_device\<lparr>irq := sample_irq\<rparr>)"
    by (simp_all only: irq_ready_set_irq sample_qworld_ready sample_irq_state pdevs_set_irq
        if_True refl option.map)
  from irq_reset_refines[OF this, of sample_qemu] obtain w' d'
    where w': "pciemu_irq_reset sample_qemu 16 (set_irq 16 sample_irq sample_qworld) = Inr w'"
      "pdevs w' 16 = Some d'"
    and p: "pending (irq d') = spec_reset Mode_MSIX (pending sample_irq)"
    by (auto simp: sample_qworld_ready simp flip: sample_qworld_ready(3))
  have "pending (irq d') = {200}" unfolding p sample_irq_state by auto
  with w' show ?thesis by blast
qed

end
