(* ===== verification/Dma.thy ===== *)
theory Dma
  imports Irq
begin

text \<open>
  The DMA engine of the back end: \<open>src/pciemu/aurora_backend/dma/dma.h\<close> and \<open>dma.c\<close>, with the
  device object of \<open>aurora.h\<close> the engine is part of.
\<close>

section \<open>Data\<close>

definition DMA_BIT_MASK :: "nat \<Rightarrow> u64" where
  "DMA_BIT_MASK n = (if n = 64 then NOT 0 else push_bit n 1 - 1)"

record DMATransferDesc =
  src :: u64
  dst :: u64
  len :: u64

record DMAConfig =
  txdesc :: DMATransferDesc
  cmd :: u64
  mask :: u64

datatype DMAStatus = DMA_STATUS_IDLE | DMA_STATUS_EXECUTING | DMA_STATUS_OFF

record DMAEngine =
  config :: DMAConfig
  status :: DMAStatus
  buff :: "u8 list"

record AURORADevice =
  parent :: ptr
  dma :: DMAEngine
  regs :: "u64 list"

text \<open>The world of the front end, with the back-end objects on the heap.\<close>

record 'm aworld = "'m qworld" +
  adevs :: "ptr \<rightharpoonup> AURORADevice"

definition upd_adev :: "ptr \<Rightarrow> (AURORADevice \<Rightarrow> AURORADevice) \<Rightarrow> ('m, 'z) aworld_scheme
    \<Rightarrow> ('m, 'z) aworld_scheme res" where
  "upd_adev p f w = bindE (deref (adevs w) p) (\<lambda>a. Inr (w\<lparr>adevs := (adevs w)(p \<mapsto> f a)\<rparr>))"

text \<open>Assignments to the fields of an engine behind \<open>adev->dma\<close>.\<close>

abbreviation dma_upd :: "(DMAEngine \<Rightarrow> DMAEngine) \<Rightarrow> AURORADevice \<Rightarrow> AURORADevice" where
  "dma_upd f a \<equiv> a\<lparr>dma := f (dma a)\<rparr>"

abbreviation config_upd :: "(DMAConfig \<Rightarrow> DMAConfig) \<Rightarrow> DMAEngine \<Rightarrow> DMAEngine" where
  "config_upd f e \<equiv> e\<lparr>config := f (config e)\<rparr>"

abbreviation txdesc_upd :: "(DMATransferDesc \<Rightarrow> DMATransferDesc) \<Rightarrow> DMAConfig \<Rightarrow> DMAConfig" where
  "txdesc_upd f c \<equiv> c\<lparr>txdesc := f (txdesc c)\<rparr>"

text \<open>\<open>get_pciemu_dev\<close> of \<open>aurora.h\<close>.\<close>

definition get_pciemu_dev :: "ptr \<Rightarrow> ('m, 'z) aworld_scheme \<Rightarrow> ptr res" where
  "get_pciemu_dev adev w =
     (if adev = NULL then Inr NULL
      else bindE (deref (adevs w) adev) (\<lambda>a. Inr (parent a)))"

section \<open>Private operations\<close>

definition aurora_dma_valid_access :: "u64 \<Rightarrow> bool" where
  "aurora_dma_valid_access addr \<longleftrightarrow>
     AURORA_HW_REG_DMA_CFG_TXDESC_SRC \<le> addr \<and> addr \<le> AURORA_HW_REG_DMA_DOORBELL_RING"

definition aurora_dma_addr_mask :: "ptr \<Rightarrow> u64 \<Rightarrow> ('m, 'z) aworld_scheme
    \<Rightarrow> (u64 \<times> ('m, 'z) aworld_scheme) res" where
  "aurora_dma_addr_mask adev addr w =
     bindE (deref (adevs w) adev) (\<lambda>a.
       let masked = addr AND mask (config (dma a))
       in Inr (masked, if masked \<noteq> addr then qemu_log_mask (Masked_address masked addr) w else w))"

definition aurora_dma_inside_device_boundaries :: "u64 \<Rightarrow> bool" where
  "aurora_dma_inside_device_boundaries addr \<longleftrightarrow>
     AURORA_HW_DMA_AREA_START \<le> addr \<and> addr \<le> AURORA_HW_DMA_AREA_START + AURORA_HW_DMA_AREA_SIZE"

text \<open>
  The two calls of \<open>aurora_dma_execute\<close> that move data. QEMU stores (fetches) \<open>len\<close> bytes at
  \<open>dma->buff + off\<close>; the array has \<open>AURORA_HW_DMA_AREA_SIZE\<close> elements, so a block that does not
  fit is an out-of-bounds access. \<open>&(get_pciemu_dev(adev)->pci_dev)\<close> needs a live parent.
\<close>

definition dma_read_call :: "'m qemu \<Rightarrow> ptr \<Rightarrow> u64 \<Rightarrow> u64 \<Rightarrow> u64 \<Rightarrow> ('m, 'z) aworld_scheme
    \<Rightarrow> (int \<times> ('m, 'z) aworld_scheme) res" where
  "dma_read_call q adev bus off n w =
     bindE (get_pciemu_dev adev w) (\<lambda>dev.
     bindE (deref (pdevs w) dev) (\<lambda>_.
     bindE (deref (adevs w) adev) (\<lambda>a.
       if length (buff (dma a)) < unat off + unat n then Inl OutOfBounds
       else let (err, f, m) =
                  pci_dma_read q dev bus (slice (unat off) (unat n) (buff (dma a))) (machine w)
            in bindE (upd_adev adev (dma_upd (\<lambda>e. e\<lparr>buff :=
                         blit (unat off) (map f [0..<unat n]) (buff e)\<rparr>)) (w\<lparr>machine := m\<rparr>))
                 (\<lambda>w. Inr (err, w)))))"

definition dma_write_call :: "'m qemu \<Rightarrow> ptr \<Rightarrow> u64 \<Rightarrow> u64 \<Rightarrow> u64 \<Rightarrow> ('m, 'z) aworld_scheme
    \<Rightarrow> (int \<times> ('m, 'z) aworld_scheme) res" where
  "dma_write_call q adev bus off n w =
     bindE (get_pciemu_dev adev w) (\<lambda>dev.
     bindE (deref (pdevs w) dev) (\<lambda>_.
     bindE (deref (adevs w) adev) (\<lambda>a.
       if length (buff (dma a)) < unat off + unat n then Inl OutOfBounds
       else let (err, m) =
                  pci_dma_write q dev bus (slice (unat off) (unat n) (buff (dma a))) (machine w)
            in Inr (err, w\<lparr>machine := m\<rparr>))))"

definition aurora_dma_execute :: "'m qemu \<Rightarrow> ptr \<Rightarrow> ('m, 'z) aworld_scheme
    \<Rightarrow> ('m, 'z) aworld_scheme res" where
  "aurora_dma_execute q adev w =
     bindE (deref (adevs w) adev) (\<lambda>a.
       let c = config (dma a);
           raise = (\<lambda>w. bindE (get_pciemu_dev adev w)
                      (\<lambda>dev. pciemu_irq_raise q dev AURORA_HW_IRQ_DMA_ENDED_VECTOR w))
       in if cmd c \<noteq> AURORA_HW_DMA_DIRECTION_TO_DEVICE \<and>
             cmd c \<noteq> AURORA_HW_DMA_DIRECTION_FROM_DEVICE then Inr w
          else if cmd c = AURORA_HW_DMA_DIRECTION_TO_DEVICE then
            (if \<not> aurora_dma_inside_device_boundaries (dst (txdesc c))
             then Inr (qemu_log_mask Dst_out_of_bounds w)
             else bindE (aurora_dma_addr_mask adev (src (txdesc c)) w) (\<lambda>(s, w).
                  bindE (dma_read_call q adev s (dst (txdesc c) - AURORA_HW_DMA_AREA_START)
                           (len (txdesc c)) w) (\<lambda>(err, w).
                  raise (if err \<noteq> 0 then qemu_log_mask (Pci_dma_read_err err) w else w))))
          else
            (if \<not> aurora_dma_inside_device_boundaries (src (txdesc c))
             then Inr (qemu_log_mask Src_out_of_bounds w)
             else bindE (aurora_dma_addr_mask adev (dst (txdesc c)) w) (\<lambda>(d, w).
                  bindE (dma_write_call q adev d (src (txdesc c) - AURORA_HW_DMA_AREA_START)
                           (len (txdesc c)) w) (\<lambda>(err, w).
                  raise (if err \<noteq> 0 then qemu_log_mask (Pci_dma_write_err err) w else w)))))"

text \<open>The four configuration registers accept a value only while the engine is idle.\<close>

definition aurora_dma_config_txdesc_src :: "ptr \<Rightarrow> u64 \<Rightarrow> ('m, 'z) aworld_scheme
    \<Rightarrow> ('m, 'z) aworld_scheme res" where
  "aurora_dma_config_txdesc_src adev v w =
     bindE (deref (adevs w) adev) (\<lambda>a.
       if status (dma a) = DMA_STATUS_IDLE
       then upd_adev adev (dma_upd (config_upd (txdesc_upd (\<lambda>t. t\<lparr>src := v\<rparr>)))) w else Inr w)"

definition aurora_dma_config_txdesc_dst :: "ptr \<Rightarrow> u64 \<Rightarrow> ('m, 'z) aworld_scheme
    \<Rightarrow> ('m, 'z) aworld_scheme res" where
  "aurora_dma_config_txdesc_dst adev v w =
     bindE (deref (adevs w) adev) (\<lambda>a.
       if status (dma a) = DMA_STATUS_IDLE
       then upd_adev adev (dma_upd (config_upd (txdesc_upd (\<lambda>t. t\<lparr>dst := v\<rparr>)))) w else Inr w)"

definition aurora_dma_config_txdesc_len :: "ptr \<Rightarrow> u64 \<Rightarrow> ('m, 'z) aworld_scheme
    \<Rightarrow> ('m, 'z) aworld_scheme res" where
  "aurora_dma_config_txdesc_len adev v w =
     bindE (deref (adevs w) adev) (\<lambda>a.
       if status (dma a) = DMA_STATUS_IDLE
       then upd_adev adev (dma_upd (config_upd (txdesc_upd (\<lambda>t. t\<lparr>len := v\<rparr>)))) w else Inr w)"

definition aurora_dma_config_cmd :: "ptr \<Rightarrow> u64 \<Rightarrow> ('m, 'z) aworld_scheme
    \<Rightarrow> ('m, 'z) aworld_scheme res" where
  "aurora_dma_config_cmd adev v w =
     bindE (deref (adevs w) adev) (\<lambda>a.
       if status (dma a) = DMA_STATUS_IDLE
       then upd_adev adev (dma_upd (config_upd (\<lambda>c. c\<lparr>cmd := v\<rparr>))) w else Inr w)"

text \<open>\<open>qatomic_cmpxchg\<close>: the old status, which is replaced when it equals the expected one.\<close>

definition status_cmpxchg :: "DMAStatus \<Rightarrow> DMAStatus \<Rightarrow> ptr \<Rightarrow> ('m, 'z) aworld_scheme
    \<Rightarrow> (DMAStatus \<times> ('m, 'z) aworld_scheme) res" where
  "status_cmpxchg expected new adev w =
     bindE (deref (adevs w) adev) (\<lambda>a.
     bindE (if status (dma a) = expected
            then upd_adev adev (dma_upd (\<lambda>e. e\<lparr>status := new\<rparr>)) w else Inr w) (\<lambda>w.
       Inr (status (dma a), w)))"

definition aurora_dma_doorbell_ring :: "'m qemu \<Rightarrow> ptr \<Rightarrow> ('m, 'z) aworld_scheme
    \<Rightarrow> ('m, 'z) aworld_scheme res" where
  "aurora_dma_doorbell_ring q adev w =
     bindE (status_cmpxchg DMA_STATUS_IDLE DMA_STATUS_EXECUTING adev w) (\<lambda>(st, w).
       if st = DMA_STATUS_EXECUTING then Inr w
       else bindE (aurora_dma_execute q adev w)
              (upd_adev adev (dma_upd (\<lambda>e. e\<lparr>status := DMA_STATUS_IDLE\<rparr>))))"

section \<open>Public operations\<close>

definition aurora_dma_reg_write :: "'m qemu \<Rightarrow> ptr \<Rightarrow> u64 \<Rightarrow> u64 \<Rightarrow> ('m, 'z) aworld_scheme
    \<Rightarrow> (int \<times> ('m, 'z) aworld_scheme) res" where
  "aurora_dma_reg_write q adev addr v w =
     (if \<not> aurora_dma_valid_access addr then Inr (-1, w)
      else bindE
        (if addr = AURORA_HW_REG_DMA_CFG_TXDESC_SRC then aurora_dma_config_txdesc_src adev v w
         else if addr = AURORA_HW_REG_DMA_CFG_TXDESC_DST then aurora_dma_config_txdesc_dst adev v w
         else if addr = AURORA_HW_REG_DMA_CFG_TXDESC_LEN then aurora_dma_config_txdesc_len adev v w
         else if addr = AURORA_HW_REG_DMA_CFG_CMD then aurora_dma_config_cmd adev v w
         else if addr = AURORA_HW_REG_DMA_DOORBELL_RING then aurora_dma_doorbell_ring q adev w
         else Inr w)
        (\<lambda>w. Inr (0, w)))"

text \<open>\<open>memset(dma->buff, 0, AURORA_HW_DMA_AREA_SIZE)\<close> clears the whole array.\<close>

definition dma_engine_reset :: "DMAEngine \<Rightarrow> DMAEngine" where
  "dma_engine_reset e =
     e\<lparr>status := DMA_STATUS_IDLE,
       config := (config e)\<lparr>txdesc := (txdesc (config e))\<lparr>src := 0, dst := 0, len := 0\<rparr>, cmd := 0\<rparr>,
       buff := blit 0 (replicate (unat AURORA_HW_DMA_AREA_SIZE) 0) (buff e)\<rparr>"

definition aurora_dma_reset :: "ptr \<Rightarrow> ('m, 'z) aworld_scheme \<Rightarrow> ('m, 'z) aworld_scheme res" where
  "aurora_dma_reset adev w = upd_adev adev (dma_upd dma_engine_reset) w"

definition aurora_dma_init :: "ptr \<Rightarrow> ('m, 'z) aworld_scheme \<Rightarrow> ('m, 'z) aworld_scheme res" where
  "aurora_dma_init adev w =
     bindE (aurora_dma_reset adev w)
       (upd_adev adev (dma_upd (config_upd
          (\<lambda>c. c\<lparr>mask := DMA_BIT_MASK AURORA_HW_DMA_ADDR_CAPABILITY\<rparr>))))"

definition aurora_dma_fini :: "ptr \<Rightarrow> ('m, 'z) aworld_scheme \<Rightarrow> ('m, 'z) aworld_scheme res" where
  "aurora_dma_fini adev w =
     bindE (aurora_dma_reset adev w)
       (upd_adev adev (dma_upd (\<lambda>e. e\<lparr>status := DMA_STATUS_OFF\<rparr>)))"


section \<open>Abstract transfer\<close>

text \<open>What a configured transfer is, before any pointer is followed.\<close>

datatype dma_class =
    Dma_ignored
  | Dma_rejected log_event
  | Dma_overflow
  | Dma_to_device nat
  | Dma_from_device nat

definition dma_fits :: "nat \<Rightarrow> nat \<Rightarrow> bool" where
  "dma_fits off n \<longleftrightarrow> off + n \<le> unat AURORA_HW_DMA_AREA_SIZE"

definition area_offset :: "u64 \<Rightarrow> nat" where
  "area_offset addr = unat (addr - AURORA_HW_DMA_AREA_START)"

definition dma_classify :: "DMAConfig \<Rightarrow> dma_class" where
  "dma_classify c =
     (let n = unat (len (txdesc c)) in
      if cmd c = AURORA_HW_DMA_DIRECTION_TO_DEVICE then
        if \<not> aurora_dma_inside_device_boundaries (dst (txdesc c)) then Dma_rejected Dst_out_of_bounds
        else if dma_fits (area_offset (dst (txdesc c))) n
        then Dma_to_device (area_offset (dst (txdesc c))) else Dma_overflow
      else if cmd c = AURORA_HW_DMA_DIRECTION_FROM_DEVICE then
        if \<not> aurora_dma_inside_device_boundaries (src (txdesc c)) then Dma_rejected Src_out_of_bounds
        else if dma_fits (area_offset (src (txdesc c))) n
        then Dma_from_device (area_offset (src (txdesc c))) else Dma_overflow
      else Dma_ignored)"

definition mask_log :: "u64 \<Rightarrow> u64 \<Rightarrow> log_event list" where
  "mask_log masked addr = (if masked \<noteq> addr then [Masked_address masked addr] else [])"

text \<open>
  The effect of a transfer as a function of the engine and the machine: the new engine, the new
  machine, the diagnostics, and whether the completion interrupt is raised. \<open>None\<close> is a transfer
  that runs past the buffer.
\<close>

definition dma_spec :: "'m qemu \<Rightarrow> ptr \<Rightarrow> DMAEngine \<Rightarrow> 'm
    \<Rightarrow> (DMAEngine \<times> 'm \<times> log_event list \<times> bool) option" where
  "dma_spec q dev e m =
     (let c = config e; n = unat (len (txdesc c)) in
      case dma_classify c of
        Dma_ignored \<Rightarrow> Some (e, m, [], False)
      | Dma_rejected ev \<Rightarrow> Some (e, m, [ev], False)
      | Dma_overflow \<Rightarrow> None
      | Dma_to_device off \<Rightarrow>
          (let bus = src (txdesc c) AND mask c;
               (err, f, m') = pci_dma_read q dev bus (slice off n (buff e)) m
           in Some (e\<lparr>buff := blit off (map f [0..<n]) (buff e)\<rparr>, m',
                    mask_log bus (src (txdesc c)) @ (if err \<noteq> 0 then [Pci_dma_read_err err] else []),
                    True))
      | Dma_from_device off \<Rightarrow>
          (let bus = dst (txdesc c) AND mask c;
               (err, m') = pci_dma_write q dev bus (slice off n (buff e)) m
           in Some (e, m',
                    mask_log bus (dst (txdesc c)) @ (if err \<noteq> 0 then [Pci_dma_write_err err] else []),
                    True)))"

definition wf_dma :: "DMAEngine \<Rightarrow> bool" where
  "wf_dma e \<longleftrightarrow> length (buff e) = unat AURORA_HW_DMA_AREA_SIZE \<and>
     mask (config e) = DMA_BIT_MASK AURORA_HW_DMA_ADDR_CAPABILITY"

text \<open>
  A front-end device and its back end refer to each other and both are well formed. This is the
  invariant of the device between two accesses of the guest.
\<close>

definition linked :: "ptr \<Rightarrow> ptr \<Rightarrow> ('m, 'z) aworld_scheme \<Rightarrow> bool" where
  "linked dev adev w \<longleftrightarrow> dev \<noteq> NULL \<and> adev \<noteq> NULL \<and>
     (\<exists>d a. pdevs w dev = Some d \<and> adevs w adev = Some a \<and> backend d = adev \<and> parent a = dev \<and>
        wf_irq (irq d) \<and> wf_dma (dma a) \<and> length (regs a) = AURORA_HW_REGBAR_REG_CNT)"

lemma linkedE:
  assumes "linked dev adev w"
  obtains d a where "dev \<noteq> NULL" "adev \<noteq> NULL" "pdevs w dev = Some d" "adevs w adev = Some a"
    "backend d = adev" "parent a = dev" "wf_irq (irq d)" "wf_dma (dma a)"
    "length (regs a) = AURORA_HW_REGBAR_REG_CNT"
  using assms by (auto simp: linked_def)

lemma linked_irq_ready: "linked dev adev w \<Longrightarrow> irq_ready dev w"
  by (auto simp: linked_def irq_ready_def)

lemma aworld_frame [simp]:
  "adevs (qemu_log_mask e w) = adevs w"
  "adevs (on_machine f w) = adevs w"
  "adevs (set_irq dev i w) = adevs w"
  by (simp_all add: qemu_log_mask_def on_machine_def set_irq_def)

lemma linked_frame [simp]:
  "linked dev adev (qemu_log_mask e w) = linked dev adev w"
  "linked dev adev (on_machine f w) = linked dev adev w"
  "linked dev adev (w\<lparr>machine := m\<rparr>) = linked dev adev w"
  "linked dev adev (w\<lparr>qlog := l\<rparr>) = linked dev adev w"
  by (simp_all add: linked_def)

lemma linked_set_irq: "linked dev adev w \<Longrightarrow> wf_irq i \<Longrightarrow> linked dev adev (set_irq dev i w)"
  by (auto simp: linked_def pdevs_set_irq)

lemma linked_upd_adev:
  "linked dev adev w \<Longrightarrow> parent a = dev \<Longrightarrow> wf_dma (dma a) \<Longrightarrow>
     length (regs a) = AURORA_HW_REGBAR_REG_CNT \<Longrightarrow> linked dev adev (w\<lparr>adevs := (adevs w)(adev \<mapsto> a)\<rparr>)"
  by (auto simp: linked_def)

lemma mask_32: "DMA_BIT_MASK AURORA_HW_DMA_ADDR_CAPABILITY = 0xFFFFFFFF"
  by (simp add: DMA_BIT_MASK_def hw_defs push_bit_eq_mult)

lemma inside_boundaries_iff:
  "aurora_dma_inside_device_boundaries addr \<longleftrightarrow> 0x10000 \<le> unat addr \<and> unat addr \<le> 0x11000"
  by (simp add: aurora_dma_inside_device_boundaries_def hw_defs word_le_nat_alt)

lemma area_offset_eq:
  "aurora_dma_inside_device_boundaries addr \<Longrightarrow> area_offset addr = unat addr - 0x10000"
  by (simp add: area_offset_def aurora_dma_inside_device_boundaries_def hw_defs unat_minus_ge)

section \<open>The engine refines the abstract transfer\<close>

text \<open>Applying an abstract transfer to the world, without the interrupt.\<close>

definition apply_dma :: "ptr \<Rightarrow> DMAEngine \<Rightarrow> 'm \<Rightarrow> log_event list \<Rightarrow> ('m, 'z) aworld_scheme
    \<Rightarrow> ('m, 'z) aworld_scheme" where
  "apply_dma adev e m l w =
     w\<lparr>machine := m, qlog := qlog w @ l,
       adevs := (adevs w)(adev := map_option (\<lambda>a. a\<lparr>dma := e\<rparr>) (adevs w adev))\<rparr>"

lemma apply_dma_same:
  "adevs w adev = Some a \<Longrightarrow> apply_dma adev (dma a) (machine w) [] w = w"
  "adevs w adev = Some a \<Longrightarrow> apply_dma adev (dma a) (machine w) [ev] w = qemu_log_mask ev w"
  by (simp_all add: apply_dma_def fun_upd_idem qemu_log_mask_def)

lemma get_pciemu_dev_linked: "linked dev adev w \<Longrightarrow> get_pciemu_dev adev w = Inr dev"
  by (auto simp: linked_def get_pciemu_dev_def)

lemma linked_apply_dma:
  "linked dev adev w \<Longrightarrow> wf_dma e \<Longrightarrow> linked dev adev (apply_dma adev e m l w)"
  by (auto simp: linked_def apply_dma_def)

lemma addr_mask_linked:
  assumes "linked dev adev w" and "adevs w adev = Some a"
  shows "aurora_dma_addr_mask adev addr w =
    (let bus = addr AND mask (config (dma a))
     in Inr (bus, w\<lparr>qlog := qlog w @ mask_log bus addr\<rparr>))"
  using assms
  by (auto simp: aurora_dma_addr_mask_def linked_def mask_log_def qemu_log_mask_def Let_def)

lemma read_call_linked:
  assumes "linked dev adev w" and "adevs w adev = Some a"
  shows "dma_read_call q adev bus off n w =
    (if dma_fits (unat off) (unat n) then
       let (err, f, m) = pci_dma_read q dev bus (slice (unat off) (unat n) (buff (dma a))) (machine w)
       in Inr (err, apply_dma adev ((dma a)\<lparr>buff := blit (unat off) (map f [0..<unat n]) (buff (dma a))\<rparr>) m [] w)
     else Inl OutOfBounds)"
  using assms
  by (auto simp: dma_read_call_def linked_def get_pciemu_dev_def wf_dma_def dma_fits_def upd_adev_def
      apply_dma_def Let_def split: prod.splits)

lemma write_call_linked:
  assumes "linked dev adev w" and "adevs w adev = Some a"
  shows "dma_write_call q adev bus off n w =
    (if dma_fits (unat off) (unat n) then
       let (err, m) = pci_dma_write q dev bus (slice (unat off) (unat n) (buff (dma a))) (machine w)
       in Inr (err, apply_dma adev (dma a) m [] w)
     else Inl OutOfBounds)"
  using assms
  by (auto simp: dma_write_call_def linked_def get_pciemu_dev_def wf_dma_def dma_fits_def
      apply_dma_def Let_def fun_upd_idem split: prod.splits)

lemma apply_dma_frame:
  "machine (apply_dma adev e m l w) = m"
  "pdevs (apply_dma adev e m l w) = pdevs w"
  "qlog (apply_dma adev e m l w) = qlog w @ l"
  "adevs (apply_dma adev e m l w) p =
     (if p = adev then map_option (\<lambda>a. a\<lparr>dma := e\<rparr>) (adevs w adev) else adevs w p)"
  by (simp_all add: apply_dma_def)

lemma apply_dma_log:
  "qemu_log_mask ev (apply_dma adev e m l w) = apply_dma adev e m (l @ [ev]) w"
  "apply_dma adev e m l' (w\<lparr>qlog := qlog w @ l\<rparr>) = apply_dma adev e m (l @ l') w"
  by (simp_all add: apply_dma_def qemu_log_mask_def)

lemma get_pciemu_dev_apply [simp]:
  "linked dev adev w \<Longrightarrow> get_pciemu_dev adev (apply_dma adev e m l w) = Inr dev"
  by (auto simp: linked_def get_pciemu_dev_def apply_dma_def)

lemma execute_refines_spec:
  assumes l: "linked dev adev w" and a: "adevs w adev = Some a"
  shows "aurora_dma_execute q adev w =
    (case dma_spec q dev (dma a) (machine w) of
       None \<Rightarrow> Inl OutOfBounds
     | Some (e, m, logs, raise) \<Rightarrow>
         (if raise then pciemu_irq_raise q dev AURORA_HW_IRQ_DMA_ENDED_VECTOR (apply_dma adev e m logs w)
          else Inr (apply_dma adev e m logs w)))"
proof -
  from l have nn: "adev \<noteq> NULL" by (auto simp: linked_def)
  have l': "linked dev adev (w\<lparr>qlog := ls\<rparr>)" "adevs (w\<lparr>qlog := ls\<rparr>) adev = Some a" for ls
    using l a by simp_all
  have ne: "AURORA_HW_DMA_DIRECTION_FROM_DEVICE \<noteq> AURORA_HW_DMA_DIRECTION_TO_DEVICE"
    by (simp add: hw_defs)
  note calls = addr_mask_linked[OF l a] read_call_linked[OF l'] write_call_linked[OF l']
  let ?c = "config (dma a)"
  consider (to_dev) "cmd ?c = AURORA_HW_DMA_DIRECTION_TO_DEVICE"
    | (from_dev) "cmd ?c = AURORA_HW_DMA_DIRECTION_FROM_DEVICE"
    | (none) "cmd ?c \<noteq> AURORA_HW_DMA_DIRECTION_TO_DEVICE"
        "cmd ?c \<noteq> AURORA_HW_DMA_DIRECTION_FROM_DEVICE"
    by blast
  then show ?thesis
  proof cases
    case to_dev
    with l nn a show ?thesis
      by (simp add: aurora_dma_execute_def dma_spec_def dma_classify_def Let_def calls area_offset_def
          apply_dma_log apply_dma_same split: prod.splits)
  next
    case from_dev
    with ne l nn a show ?thesis
      by (simp add: aurora_dma_execute_def dma_spec_def dma_classify_def Let_def calls area_offset_def
          apply_dma_log apply_dma_same split: prod.splits)
  next
    case none
    with nn a show ?thesis
      by (simp add: aurora_dma_execute_def dma_spec_def dma_classify_def Let_def apply_dma_same)
  qed
qed


section \<open>Consequences for one transfer\<close>

lemma dma_spec_None_iff: "dma_spec q dev e m = None \<longleftrightarrow> dma_classify (config e) = Dma_overflow"
  by (auto simp: dma_spec_def Let_def split: dma_class.splits prod.splits)

lemma classify_fits:
  "dma_classify c = Dma_to_device off \<Longrightarrow> dma_fits off (unat (len (txdesc c)))"
  "dma_classify c = Dma_from_device off \<Longrightarrow> dma_fits off (unat (len (txdesc c)))"
  by (auto simp: dma_classify_def Let_def split: if_splits)

lemma dma_spec_keeps:
  assumes "dma_spec q dev e m = Some (e', m', logs, r)"
  shows "config e' = config e" and "status e' = status e" and "wf_dma e \<Longrightarrow> wf_dma e'"
  using assms classify_fits
  by (auto simp: dma_spec_def Let_def wf_dma_def dma_fits_def split: dma_class.splits prod.splits)

lemma dma_spec_status:
  "dma_spec q dev (e\<lparr>status := s\<rparr>) m =
     map_option (\<lambda>(e, m, l, r). (e\<lparr>status := s\<rparr>, m, l, r)) (dma_spec q dev e m)"
  by (simp add: dma_spec_def Let_def split: dma_class.splits prod.splits)

lemma irq_raise_adevs:
  "pciemu_irq_raise q dev v (w\<lparr>adevs := X\<rparr>) =
     bindE (pciemu_irq_raise q dev v w) (\<lambda>w. Inr (w\<lparr>adevs := X\<rparr>))"
  by (cases "deref (pdevs w) dev")
    (auto simp: pciemu_irq_raise_def irq_op_defs upd_pdev_def on_machine_def)

lemma upd_adev_over:
  "X adev = Some a \<Longrightarrow> adev \<noteq> NULL \<Longrightarrow>
     upd_adev adev f (w\<lparr>adevs := X\<rparr>) = Inr (w\<lparr>adevs := X(adev \<mapsto> f a)\<rparr>)"
  by (simp add: upd_adev_def)

text \<open>
  The doorbell: while a transfer runs it does nothing; otherwise it runs the configured transfer
  and leaves the engine idle.
\<close>

lemma doorbell_effect:
  assumes l: "linked dev adev w" and a: "adevs w adev = Some a"
  shows "aurora_dma_doorbell_ring q adev w =
    (if status (dma a) = DMA_STATUS_EXECUTING then Inr w
     else case dma_spec q dev (dma a) (machine w) of
       None \<Rightarrow> Inl OutOfBounds
     | Some (e, m, logs, raise) \<Rightarrow>
         (let w' = apply_dma adev (e\<lparr>status := DMA_STATUS_IDLE\<rparr>) m logs w
          in if raise then pciemu_irq_raise q dev AURORA_HW_IRQ_DMA_ENDED_VECTOR w' else Inr w'))"
proof -
  from l a have nn: "adev \<noteq> NULL" and p: "parent a = dev" "wf_dma (dma a)"
      "length (regs a) = AURORA_HW_REGBAR_REG_CNT"
    by (auto simp: linked_def)
  define s where "s = (if status (dma a) = DMA_STATUS_IDLE then DMA_STATUS_EXECUTING
    else status (dma a))"
  define w0 where "w0 = w\<lparr>adevs := (adevs w)(adev \<mapsto> a\<lparr>dma := (dma a)\<lparr>status := s\<rparr>\<rparr>)\<rparr>"
  have cas: "status_cmpxchg DMA_STATUS_IDLE DMA_STATUS_EXECUTING adev w = Inr (status (dma a), w0)"
    using nn a by (simp add: status_cmpxchg_def upd_adev_def w0_def s_def fun_upd_idem)
  have l0: "linked dev adev w0"
    unfolding w0_def using l p by (intro linked_upd_adev) (auto simp: wf_dma_def)
  have a0: "adevs w0 adev = Some (a\<lparr>dma := (dma a)\<lparr>status := s\<rparr>\<rparr>)" and m0: "machine w0 = machine w"
    by (simp_all add: w0_def)
  have app: "apply_dma adev e m ls w0 = (w\<lparr>machine := m, qlog := qlog w @ ls\<rparr>)
      \<lparr>adevs := (adevs w)(adev \<mapsto> a\<lparr>dma := e\<rparr>)\<rparr>"
    and app': "apply_dma adev e m ls w = (w\<lparr>machine := m, qlog := qlog w @ ls\<rparr>)
      \<lparr>adevs := (adevs w)(adev \<mapsto> a\<lparr>dma := e\<rparr>)\<rparr>" for e m ls
    using a by (simp_all add: apply_dma_def w0_def)
  have same: "w0 = w" if "status (dma a) = DMA_STATUS_EXECUTING"
    using that a by (simp add: w0_def s_def fun_upd_idem flip: that)
  show ?thesis
    by (simp add: aurora_dma_doorbell_ring_def cas same execute_refines_spec[OF l0 a0] m0 dma_spec_status
        app app' irq_raise_adevs bindE_assoc upd_adev_over nn Let_def
        split: option.splits prod.splits)
qed


section \<open>Configuration registers\<close>

text \<open>The descriptor field a configuration register stands for.\<close>

definition cfg_write :: "u64 \<Rightarrow> u64 \<Rightarrow> DMAConfig \<Rightarrow> DMAConfig" where
  "cfg_write addr v c =
     (if addr = AURORA_HW_REG_DMA_CFG_TXDESC_SRC then txdesc_upd (\<lambda>t. t\<lparr>src := v\<rparr>) c
      else if addr = AURORA_HW_REG_DMA_CFG_TXDESC_DST then txdesc_upd (\<lambda>t. t\<lparr>dst := v\<rparr>) c
      else if addr = AURORA_HW_REG_DMA_CFG_TXDESC_LEN then txdesc_upd (\<lambda>t. t\<lparr>len := v\<rparr>) c
      else if addr = AURORA_HW_REG_DMA_CFG_CMD then c\<lparr>cmd := v\<rparr>
      else c)"

lemma dma_reg_write_cfg:
  assumes "linked dev adev w" and "adevs w adev = Some a"
    and "aurora_dma_valid_access addr" and "addr \<noteq> AURORA_HW_REG_DMA_DOORBELL_RING"
  shows "aurora_dma_reg_write q adev addr v w =
    Inr (0, if status (dma a) = DMA_STATUS_IDLE
            then w\<lparr>adevs := (adevs w)(adev \<mapsto> dma_upd (config_upd (cfg_write addr v)) a)\<rparr> else w)"
proof -
  from assms(1,2) have nn: "adev \<noteq> NULL" by (auto simp: linked_def)
  show ?thesis
    using assms(2-4) nn
    by (simp add: aurora_dma_reg_write_def aurora_dma_config_txdesc_src_def
        aurora_dma_config_txdesc_dst_def aurora_dma_config_txdesc_len_def aurora_dma_config_cmd_def
        upd_adev_def cfg_write_def fun_upd_idem)
qed

lemma dma_reg_write_doorbell:
  "aurora_dma_reg_write q adev AURORA_HW_REG_DMA_DOORBELL_RING v w =
     bindE (aurora_dma_doorbell_ring q adev w) (\<lambda>w. Inr (0, w))"
  by (simp add: aurora_dma_reg_write_def aurora_dma_valid_access_def hw_defs)

lemma wf_dma_cfg_write [simp]: "wf_dma (config_upd (cfg_write addr v) e) = wf_dma e"
  by (simp add: wf_dma_def cfg_write_def)

lemma wf_dma_status [simp]: "wf_dma (e\<lparr>status := s\<rparr>) = wf_dma e"
  by (simp add: wf_dma_def)

section \<open>Reset\<close>

lemma desc_update: "t\<lparr>src := s, dst := d, len := n\<rparr> = \<lparr>src = s, dst = d, len = n\<rparr>"
  by (cases t) simp

lemma wf_dma_reset [simp]: "wf_dma e \<Longrightarrow> wf_dma (dma_engine_reset e)"
  by (simp add: wf_dma_def dma_engine_reset_def)

lemma dma_engine_reset_state:
  assumes "length (buff e) = unat AURORA_HW_DMA_AREA_SIZE"
  shows "status (dma_engine_reset e) = DMA_STATUS_IDLE"
    and "txdesc (config (dma_engine_reset e)) = \<lparr>src = 0, dst = 0, len = 0\<rparr>"
    and "cmd (config (dma_engine_reset e)) = 0"
    and "mask (config (dma_engine_reset e)) = mask (config e)"
    and "buff (dma_engine_reset e) = replicate (unat AURORA_HW_DMA_AREA_SIZE) 0"
  using assms by (simp_all add: dma_engine_reset_def blit_def)

text \<open>A freshly reset engine ignores the doorbell: its command is neither direction.\<close>

lemma dma_classify_reset: "dma_classify (config (dma_engine_reset e)) = Dma_ignored"
  by (simp add: dma_classify_def dma_engine_reset_def hw_defs Let_def)

section \<open>Properties of the engine\<close>

text \<open>A device whose engine is about to copy three bytes of guest memory to offset 4 of its area.\<close>

definition sample_engine :: DMAEngine where
  "sample_engine = \<lparr>config = \<lparr>txdesc = \<lparr>src = 0x1000, dst = 0x10004, len = 3\<rparr>,
       cmd = AURORA_HW_DMA_DIRECTION_TO_DEVICE, mask = DMA_BIT_MASK AURORA_HW_DMA_ADDR_CAPABILITY\<rparr>,
     status = DMA_STATUS_IDLE, buff = replicate (unat AURORA_HW_DMA_AREA_SIZE) 0\<rparr>"

definition sample_adev :: AURORADevice where
  "sample_adev = \<lparr>parent = 16, dma = sample_engine, regs = [1, 2, 3, 4]\<rparr>"

definition sample_aworld :: "AURORADevice \<Rightarrow> sample aworld" where
  "sample_aworld a = \<lparr>machine = sample_machine, qlog = [], pdevs = [16 \<mapsto> zero_device\<lparr>backend := 32\<rparr>],
     adevs = [32 \<mapsto> a]\<rparr>"

lemma sample_aworld_simps [simp]:
  "machine (sample_aworld a) = sample_machine" "adevs (sample_aworld a) 32 = Some a"
  "pdevs (sample_aworld a) 16 = Some (zero_device\<lparr>backend := 32\<rparr>)" "qlog (sample_aworld a) = []"
  by (simp_all add: sample_aworld_def)

lemma sample_adev_simps [simp]:
  "dma sample_adev = sample_engine" "parent sample_adev = 16" "regs sample_adev = [1, 2, 3, 4]"
  by (simp_all add: sample_adev_def)

lemma wf_sample_engine [simp]: "wf_dma sample_engine"
  by (simp add: wf_dma_def sample_engine_def)

lemma sample_linked:
  "parent a = 16 \<Longrightarrow> wf_dma (dma a) \<Longrightarrow> length (regs a) = 4 \<Longrightarrow> linked 16 32 (sample_aworld a)"
  by (simp add: linked_def sample_aworld_def zero_device_def wf_irq_def hw_defs)

lemma sample_adev_linked: "linked 16 32 (sample_aworld sample_adev)"
  by (rule sample_linked) simp_all

lemma sample_engine_class: "dma_classify (config sample_engine) = Dma_to_device 4"
  by (simp add: dma_classify_def sample_engine_def inside_boundaries_iff area_offset_def dma_fits_def
      hw_defs)

text \<open>Raising the completion interrupt after a transfer has been applied.\<close>

lemma raise_after_transfer:
  assumes l: "linked dev adev w" and d: "pdevs w dev = Some d" and wf: "wf_dma e"
  shows "\<exists>w' d'. pciemu_irq_raise q dev v (apply_dma adev e m logs w) = Inr w' \<and>
    adevs w' = adevs (apply_dma adev e m logs w) \<and> machine w' = raise_machine q v dev m \<and>
    qlog w' = qlog w @ logs \<and> pdevs w' dev = Some d' \<and>
    pending (irq d') = spec_raise v (irq_mode_of q dev m) (pending (irq d))"
proof -
  let ?u = "apply_dma adev e m logs w"
  have ready: "irq_ready dev ?u"
    by (rule linked_irq_ready[OF linked_apply_dma[OF l wf]])
  obtain w' d' where w': "pciemu_irq_raise q dev v ?u = Inr w'" "pdevs w' dev = Some d'"
    "pending (irq d') = spec_raise v (irq_mode_of q dev m) (pending (irq d))"
    "machine w' = raise_machine q v dev m"
    using irq_raise.refines[OF ready, of d q v] d by (auto simp: apply_dma_frame)
  have "qlog w' = qlog ?u" and more: "qworld.more w' = qworld.more ?u"
    using irq_raise.rest_after[OF ready w'(1)] by simp_all
  moreover from more have "adevs w' = adevs ?u"
    by (cases w'; cases ?u) simp
  ultimately show ?thesis using w' by (auto simp: apply_dma_frame)
qed

lemma doorbell_returns_iff:
  assumes l: "linked dev adev w" and a: "adevs w adev = Some a"
    and st: "status (dma a) \<noteq> DMA_STATUS_EXECUTING"
  shows "(\<exists>f. aurora_dma_doorbell_ring q adev w = Inl f) \<longleftrightarrow>
    dma_classify (config (dma a)) = Dma_overflow"
proof -
  have "(\<exists>f. aurora_dma_doorbell_ring q adev w = Inl f) \<longleftrightarrow>
      dma_spec q dev (dma a) (machine w) = None"
  proof (cases "dma_spec q dev (dma a) (machine w)")
    case (Some r)
    obtain e m logs b where r: "r = (e, m, logs, b)" by (cases r)
    from l a obtain d where d: "pdevs w dev = Some d" and wf: "wf_dma (dma a)"
      by (auto simp: linked_def)
    from wf dma_spec_keeps(3)[OF Some[unfolded r]] have "wf_dma (e\<lparr>status := DMA_STATUS_IDLE\<rparr>)" by simp
    from raise_after_transfer[OF l d this, of q AURORA_HW_IRQ_DMA_ENDED_VECTOR m logs] show ?thesis
      by (auto simp: doorbell_effect[OF l a] st Some r Let_def)
  qed (simp add: doorbell_effect[OF l a] st)
  then show ?thesis by (simp add: dma_spec_None_iff)
qed

text \<open>
  C14. A doorbell with the command to-device and a destination block inside the DMA area copies the
  block: whatever bytes QEMU's DMA read delivers for the source address, masked to 32 bits, replace
  exactly the addressed block of the engine's buffer, the engine is idle afterwards with its
  configuration unchanged, the completion vector becomes pending, and a masked address or a DMA error is
  logged.
\<close>

theorem doorbell_to_device:
  assumes l: "linked dev adev w" and a: "adevs w adev = Some a" and d: "pdevs w dev = Some d"
    and st: "status (dma a) \<noteq> DMA_STATUS_EXECUTING"
    and c: "dma_classify (config (dma a)) = Dma_to_device off"
    and rd: "pci_dma_read q dev (src (txdesc (config (dma a))) AND 0xFFFFFFFF)
        (slice off (unat (len (txdesc (config (dma a))))) (buff (dma a))) (machine w) = (err, f, m)"
  shows "\<exists>w' d'. aurora_dma_doorbell_ring q adev w = Inr w' \<and>
    adevs w' adev = Some (a\<lparr>dma := (dma a)\<lparr>status := DMA_STATUS_IDLE,
      buff := blit off (map f [0..<unat (len (txdesc (config (dma a))))]) (buff (dma a))\<rparr>\<rparr>) \<and>
    machine w' = raise_machine q AURORA_HW_IRQ_DMA_ENDED_VECTOR dev m \<and>
    pdevs w' dev = Some d' \<and>
    pending (irq d') = spec_raise AURORA_HW_IRQ_DMA_ENDED_VECTOR (irq_mode_of q dev m) (pending (irq d)) \<and>
    qlog w' = qlog w @ mask_log (src (txdesc (config (dma a))) AND 0xFFFFFFFF) (src (txdesc (config (dma a))))
      @ (if err \<noteq> 0 then [Pci_dma_read_err err] else [])"
proof -
  from l a have wf: "wf_dma (dma a)" by (auto simp: linked_def)
  let ?n = "unat (len (txdesc (config (dma a))))" and ?s = "src (txdesc (config (dma a)))"
  let ?e = "(dma a)\<lparr>buff := blit off (map f [0..<?n]) (buff (dma a))\<rparr>"
  let ?logs = "mask_log (?s AND 0xFFFFFFFF) ?s @ (if err \<noteq> 0 then [Pci_dma_read_err err] else [])"
  have sp: "dma_spec q dev (dma a) (machine w) = Some (?e, m, ?logs, True)"
    using wf rd c by (simp add: dma_spec_def wf_dma_def mask_32 Let_def)
  with wf have "wf_dma (?e\<lparr>status := DMA_STATUS_IDLE\<rparr>)"
    by (simp only: wf_dma_status dma_spec_keeps(3)[OF sp])
  from raise_after_transfer[OF l d this, of q AURORA_HW_IRQ_DMA_ENDED_VECTOR m ?logs] a show ?thesis
    by (auto simp: doorbell_effect[OF l a] st sp Let_def apply_dma_frame)
qed

theorem doorbell_to_device_witness:
  "\<exists>w' d' a'. aurora_dma_doorbell_ring sample_qemu 32 (sample_aworld sample_adev) = Inr w' \<and>
     adevs w' 32 = Some a' \<and> slice 4 3 (buff (dma a')) = [0, 1, 2] \<and>
     pdevs w' 16 = Some d' \<and> pending (irq d') = {0}"
proof -
  have n: "unat (len (txdesc (config sample_engine))) = 3"
    "src (txdesc (config sample_engine)) AND 0xFFFFFFFF = 0x1000"
    "status sample_engine \<noteq> DMA_STATUS_EXECUTING"
    "buff sample_engine = replicate 4096 0"
    by (simp_all add: sample_engine_def hw_defs)
  have "pci_dma_read sample_qemu 16 (src (txdesc (config (dma sample_adev))) AND 0xFFFFFFFF)
      (slice 4 (unat (len (txdesc (config (dma sample_adev))))) (buff (dma sample_adev)))
      (machine (sample_aworld sample_adev)) = (0, \<lambda>i. ucast (0x1000 + of_nat i :: u64), sample_machine)"
    by (simp add: n)
  from doorbell_to_device[OF sample_adev_linked _ _ _ _ this] n sample_engine_class
  obtain w' d' where "aurora_dma_doorbell_ring sample_qemu 32 (sample_aworld sample_adev) = Inr w'"
    "adevs w' 32 = Some (sample_adev\<lparr>dma := sample_engine\<lparr>status := DMA_STATUS_IDLE,
       buff := blit 4 (map (\<lambda>i. ucast (0x1000 + of_nat i :: u64)) [0..<3]) (replicate 4096 0)\<rparr>\<rparr>)"
    "pdevs w' 16 = Some d'"
    "pending (irq d') = spec_raise AURORA_HW_IRQ_DMA_ENDED_VECTOR Mode_MSIX {}"
    by (auto simp: irq_mode_of_def)
  moreover have "map (\<lambda>i. ucast (0x1000 + of_nat i :: u64)) [0..<3] = [0, 1, 2 :: u8]"
    by (simp add: upt_rec unsigned_ucast_eq)
  ultimately show ?thesis by (simp add: hw_defs)
qed

text \<open>
  C15. A doorbell with the command from-device and a source block inside the DMA area hands exactly the
  addressed block of the engine's buffer to QEMU's DMA write, at the destination address masked to
  32 bits; the buffer and the configuration stay as they are, the engine is idle afterwards and the
  completion vector becomes pending, also when the write reports an error.
\<close>

theorem doorbell_from_device:
  assumes l: "linked dev adev w" and a: "adevs w adev = Some a" and d: "pdevs w dev = Some d"
    and st: "status (dma a) \<noteq> DMA_STATUS_EXECUTING"
    and c: "dma_classify (config (dma a)) = Dma_from_device off"
    and wr: "pci_dma_write q dev (dst (txdesc (config (dma a))) AND 0xFFFFFFFF)
        (slice off (unat (len (txdesc (config (dma a))))) (buff (dma a))) (machine w) = (err, m)"
  shows "\<exists>w' d'. aurora_dma_doorbell_ring q adev w = Inr w' \<and>
    adevs w' adev = Some (a\<lparr>dma := (dma a)\<lparr>status := DMA_STATUS_IDLE\<rparr>\<rparr>) \<and>
    machine w' = raise_machine q AURORA_HW_IRQ_DMA_ENDED_VECTOR dev m \<and>
    pdevs w' dev = Some d' \<and>
    pending (irq d') = spec_raise AURORA_HW_IRQ_DMA_ENDED_VECTOR (irq_mode_of q dev m) (pending (irq d)) \<and>
    qlog w' = qlog w @ mask_log (dst (txdesc (config (dma a))) AND 0xFFFFFFFF) (dst (txdesc (config (dma a))))
      @ (if err \<noteq> 0 then [Pci_dma_write_err err] else [])"
proof -
  from l a have wf: "wf_dma (dma a)" by (auto simp: linked_def)
  let ?t = "dst (txdesc (config (dma a)))"
  let ?logs = "mask_log (?t AND 0xFFFFFFFF) ?t @ (if err \<noteq> 0 then [Pci_dma_write_err err] else [])"
  have sp: "dma_spec q dev (dma a) (machine w) = Some (dma a, m, ?logs, True)"
    using wf wr c by (simp add: dma_spec_def wf_dma_def mask_32 Let_def)
  from wf have "wf_dma ((dma a)\<lparr>status := DMA_STATUS_IDLE\<rparr>)" by simp
  from raise_after_transfer[OF l d this, of q AURORA_HW_IRQ_DMA_ENDED_VECTOR m ?logs] a show ?thesis
    by (auto simp: doorbell_effect[OF l a] st sp Let_def apply_dma_frame)
qed

text \<open>The same engine programmed the other way round, with an address above 4 GiB.\<close>

definition sample_out :: AURORADevice where
  "sample_out = sample_adev\<lparr>dma := config_upd (\<lambda>c. c\<lparr>txdesc := \<lparr>src = 0x10004, dst = 0x100002000, len = 3\<rparr>,
     cmd := AURORA_HW_DMA_DIRECTION_FROM_DEVICE\<rparr>) sample_engine\<rparr>"

lemma sample_out_facts:
  "linked 16 32 (sample_aworld sample_out)" "status (dma sample_out) \<noteq> DMA_STATUS_EXECUTING"
  "dma_classify (config (dma sample_out)) = Dma_from_device 4"
  "dst (txdesc (config (dma sample_out))) = 0x100002000"
  "len (txdesc (config (dma sample_out))) = 3"
  by (rule sample_linked)
    (simp_all add: sample_out_def wf_dma_def sample_engine_def dma_classify_def area_offset_def
      inside_boundaries_iff dma_fits_def hw_defs)

theorem doorbell_from_device_witness:
  "\<exists>w'. aurora_dma_doorbell_ring sample_qemu 32 (sample_aworld sample_out) = Inr w' \<and>
     qlog w' = [Masked_address 0x2000 0x100002000]"
  using doorbell_from_device[OF sample_out_facts(1) _ _ sample_out_facts(2,3), of _ sample_qemu 0
      "sample_machine\<lparr>s_ram := mem_store 0x2000 (slice 4 3 (buff (dma sample_out))) (s_ram sample_machine)\<rparr>"]
  by (auto simp: sample_out_facts mask_log_def)

text \<open>
  C13. The bounds check of the engine covers the first byte only. For a device that is not already
  executing a transfer the doorbell reads or writes past the end of the DMA buffer exactly when
  the device-side address of a valid command lies in the DMA area (its end included) and the
  length is larger than what is left of the area; the length register is never compared with
  anything. In every other case the doorbell returns.
\<close>

theorem doorbell_fault_iff:
  assumes l: "linked dev adev w" and a: "adevs w adev = Some a"
    and st: "status (dma a) \<noteq> DMA_STATUS_EXECUTING"
  shows "(\<exists>f. aurora_dma_doorbell_ring q adev w = Inl f) \<longleftrightarrow>
    (let c = config (dma a);
         side = (if cmd c = AURORA_HW_DMA_DIRECTION_TO_DEVICE then dst (txdesc c) else src (txdesc c))
     in (cmd c = AURORA_HW_DMA_DIRECTION_TO_DEVICE \<or> cmd c = AURORA_HW_DMA_DIRECTION_FROM_DEVICE) \<and>
        0x10000 \<le> unat side \<and> unat side \<le> 0x11000 \<and> 0x11000 < unat side + unat (len (txdesc c)))"
proof -
  have "(\<exists>f. aurora_dma_doorbell_ring q adev w = Inl f) \<longleftrightarrow>
      dma_classify (config (dma a)) = Dma_overflow"
    by (rule doorbell_returns_iff[OF l a st])
  then show ?thesis
    by (auto simp: dma_classify_def Let_def dma_fits_def area_offset_eq inside_boundaries_iff hw_defs)
qed

theorem doorbell_fault_iff_witness:
  "\<exists>f. aurora_dma_doorbell_ring sample_qemu 32 (sample_aworld (sample_adev\<lparr>dma :=
      config_upd (txdesc_upd (\<lambda>t. t\<lparr>dst := 0x11000, len := 1\<rparr>)) sample_engine\<rparr>)) = Inl f"
proof -
  let ?a = "sample_adev\<lparr>dma := config_upd (txdesc_upd (\<lambda>t. t\<lparr>dst := 0x11000, len := 1\<rparr>)) sample_engine\<rparr>"
  have "linked 16 32 (sample_aworld ?a)"
    by (rule sample_linked) (simp_all add: wf_dma_def sample_engine_def)
  from doorbell_fault_iff[OF this, of ?a sample_qemu] show ?thesis
    by (simp add: sample_engine_def hw_defs)
qed

lemma masked_address_bound: "wf_dma e \<Longrightarrow> unat (x AND mask (config e)) < 2 ^ 32"
proof -
  have "unat (x AND 0xFFFFFFFF) \<le> unat (0xFFFFFFFF :: u64)"
    using word_and_le1[of x "0xFFFFFFFF"] by (simp add: word_le_nat_alt and.commute)
  then show "wf_dma e \<Longrightarrow> unat (x AND mask (config e)) < 2 ^ 32"
    by (simp add: wf_dma_def mask_32)
qed

lemma dma_spec_32bit:
  assumes "wf_dma e"
    and "\<And>bus old m. unat bus < 2 ^ 32 \<Longrightarrow> pci_dma_read q dev bus old m = rd dev bus old m"
    and "\<And>bus bs m. unat bus < 2 ^ 32 \<Longrightarrow> pci_dma_write q dev bus bs m = wr dev bus bs m"
  shows "dma_spec (q\<lparr>pci_dma_read := rd, pci_dma_write := wr\<rparr>) dev e m = dma_spec q dev e m"
  using assms(2,3)[OF masked_address_bound[OF assms(1)]]
  by (simp add: dma_spec_def Let_def split: dma_class.splits)

lemma irq_raise_other_fields:
  "pciemu_irq_raise (q\<lparr>pci_dma_read := rd, pci_dma_write := wr\<rparr>) = pciemu_irq_raise q"
  by (intro ext) (simp add: pciemu_irq_raise_def irq_op_defs)



text \<open>
  While a transfer executes, the engine is closed: no write to any of its registers, the doorbell
  included, changes anything, and the write still reports success for every offset in the engine's
  range and failure outside it.
\<close>

lemma busy_engine_ignores_writes:
  assumes l: "linked dev adev w" and a: "adevs w adev = Some a"
    and busy: "status (dma a) = DMA_STATUS_EXECUTING"
  shows "aurora_dma_reg_write q adev addr v w =
    Inr (if AURORA_HW_REG_DMA_CFG_TXDESC_SRC \<le> addr \<and> addr \<le> AURORA_HW_REG_DMA_DOORBELL_RING
         then 0 else -1, w)"
proof (cases "addr = AURORA_HW_REG_DMA_DOORBELL_RING")
  case True
  then have "AURORA_HW_REG_DMA_CFG_TXDESC_SRC \<le> addr" by (simp add: hw_defs)
  with True show ?thesis by (simp add: dma_reg_write_doorbell doorbell_effect[OF l a] busy)
next
  case False
  then show ?thesis
    using dma_reg_write_cfg[OF l a _ False, of q v] busy
    by (auto simp: aurora_dma_valid_access_def aurora_dma_reg_write_def)
qed

end
