(* ===== verification/Bytes.thy ===== *)
theory Bytes
  imports Prelude
begin

text \<open>
  Objects as bytes. The protocol sends a C struct as the bytes it has in memory, so both ends
  rely on the layout: 64-bit fields without padding, little endian. The locale \<open>byte_codec\<close> states
  what a fixed-width layout promises; it is interpreted for one 64-bit field here and for the
  request struct where that is declared.
\<close>

section \<open>Fixed-width layouts\<close>

locale byte_codec =
  fixes enc :: "'a \<Rightarrow> u8 list"
    and dec :: "u8 list \<Rightarrow> 'a"
    and width :: nat
  assumes length_enc: "length (enc x) = width"
    and dec_enc: "dec (enc x) = x"
    and enc_dec: "length bs = width \<Longrightarrow> enc (dec bs) = bs"
begin

lemma enc_inject: "enc x = enc y \<longleftrightarrow> x = y"
  by (metis dec_enc)

lemma enc_surj: "length bs = width \<Longrightarrow> \<exists>x. enc x = bs"
  using enc_dec by blast

text \<open>A full message replaces whatever the receive buffer held.\<close>

lemma receive_full: "dec (blit 0 (enc y) (enc x)) = y"
  by (simp add: blit_def length_enc dec_enc)

text \<open>An empty receive (end of stream) leaves the object that was sent.\<close>

lemma receive_nothing: "dec (blit 0 [] (enc x)) = x"
  by (simp add: dec_enc)

text \<open>Messages of a stream are recovered one by one.\<close>

lemma stream_step: "dec (take width (enc x @ bs)) = x \<and> drop width (enc x @ bs) = bs"
  using length_enc[of x] by (simp add: dec_enc)

end

section \<open>One 64-bit field\<close>

primrec le_bytes :: "nat \<Rightarrow> u64 \<Rightarrow> u8 list" where
  "le_bytes 0 x = []"
| "le_bytes (Suc n) x = ucast x # le_bytes n (drop_bit 8 x)"

primrec le_word :: "u8 list \<Rightarrow> u64" where
  "le_word [] = 0"
| "le_word (b # bs) = ucast b OR push_bit 8 (le_word bs)"

lemma length_le_bytes [simp]: "length (le_bytes n x) = n"
  by (induction n arbitrary: x) auto

lemma le_word_le_bytes_take: "le_word (le_bytes n x) = take_bit (8 * n) x"
proof (induction n arbitrary: x)
  case 0
  then show ?case by simp
next
  case (Suc n)
  have "(ucast (ucast x :: u8) :: u64) OR push_bit 8 (take_bit (8 * n) (drop_bit 8 x)) =
      take_bit (8 * Suc n) x"
    by (rule bit_word_eqI) (auto simp: bit_simps)
  with Suc.IH show ?case by simp
qed

lemma le_word_high: "\<not> bit (le_word bs) (8 * length bs + k)"
  by (induction bs arbitrary: k) (auto simp: bit_simps dest: bit_imp_le_length)

lemma le_bytes_le_word: "n \<le> 8 \<Longrightarrow> length bs = n \<Longrightarrow> le_bytes n (le_word bs) = bs"
proof (induction n arbitrary: bs)
  case 0
  then show ?case by simp
next
  case (Suc n)
  then obtain b cs where bs: "bs = b # cs" and cs: "length cs = n"
    by (cases bs) auto
  have low: "(ucast (ucast b OR push_bit 8 (le_word cs)) :: u8) = b"
    by (rule bit_word_eqI) (auto simp: bit_simps)
  have "\<not> bit (le_word cs) k" if "56 \<le> k" for k
    using le_word_high[of cs "k - 8 * n"] cs that Suc.prems(1) by simp
  then have high: "drop_bit 8 (ucast b OR push_bit 8 (le_word cs)) = le_word cs"
    by (intro bit_word_eqI) (auto simp: bit_simps dest: bit_imp_le_length)
  have "le_bytes (Suc n) (le_word bs) = b # le_bytes n (le_word cs)"
    by (simp only: bs le_word.simps le_bytes.simps low high)
  with Suc.IH[of cs] Suc.prems(1) cs show ?case by (simp add: bs)
qed

interpretation u64_codec: byte_codec "le_bytes 8" le_word 8
  by unfold_locales (simp_all add: le_word_le_bytes_take le_bytes_le_word take_bit_word_eq_self)

end
