(* ===== verification/Protocol.thy ===== *)
theory Protocol
  imports Bytes
begin

text \<open>
  The memory protocol of \<open>src/pciemu/aurora_backend/common/protocol.h\<close>, of which
  \<open>utils/tcp_server/protocol.h\<close> is a copy: request and reply are the same struct, sent as its bytes.
\<close>

definition MEM_RW_CMD_R :: u64 where
  [hw_defs]: "MEM_RW_CMD_R = 1"

definition MEM_RW_CMD_W :: u64 where
  [hw_defs]: "MEM_RW_CMD_W = 2"

definition MEM_RW_RESP_OK :: u64 where
  [hw_defs]: "MEM_RW_RESP_OK = 1"

definition MEM_RW_RESP_ERR :: u64 where
  [hw_defs]: "MEM_RW_RESP_ERR = 2"

record mem_rw_req =
  req_cmd :: u64
  req_addr :: u64
  req_value :: u64
  req_resp :: u64

text \<open>\<open>(char *)&req\<close>: four 64-bit fields, \<open>sizeof(req)\<close> is 32.\<close>

definition req_bytes :: "mem_rw_req \<Rightarrow> u8 list" where
  "req_bytes r = le_bytes 8 (req_cmd r) @ le_bytes 8 (req_addr r) @
     le_bytes 8 (req_value r) @ le_bytes 8 (req_resp r)"

definition bytes_req :: "u8 list \<Rightarrow> mem_rw_req" where
  "bytes_req bs =
     \<lparr>req_cmd = le_word (slice 0 8 bs), req_addr = le_word (slice 8 8 bs),
      req_value = le_word (slice 16 8 bs), req_resp = le_word (slice 24 8 bs)\<rparr>"

lemma append4_slices:
  assumes "length bs = 32"
  shows "slice 0 8 bs @ slice 8 8 bs @ slice 16 8 bs @ slice 24 8 bs = bs"
  using assms append_take_drop_id[of 8 bs] append_take_drop_id[of 8 "drop 8 bs"]
    append_take_drop_id[of 8 "drop 16 bs"]
  by (simp add: slice_def)

interpretation req_codec: byte_codec req_bytes bytes_req 32
proof unfold_locales
  show "length (req_bytes r) = 32" for r
    by (simp add: req_bytes_def)
  show "bytes_req (req_bytes r) = r" for r
    by (simp add: bytes_req_def req_bytes_def slice_def u64_codec.dec_enc)
  show "req_bytes (bytes_req bs) = bs" if "length bs = 32" for bs
    using that append4_slices[OF that]
    by (simp add: bytes_req_def req_bytes_def u64_codec.enc_dec del: le_bytes.simps)
qed

text \<open>
  The wire format loses nothing in either direction: decoding the bytes of a request gives the
  request back, every request has 32 bytes, and every 32 received bytes are the encoding of the
  request they decode to.
\<close>

lemma request_roundtrip:
  "bytes_req (req_bytes r) = r \<and> length (req_bytes r) = 32 \<and>
   (length bs = 32 \<longrightarrow> req_bytes (bytes_req bs) = bs)"
  by (simp add: req_codec.dec_enc req_codec.length_enc req_codec.enc_dec)

end
