(* ===== verification/Tcp_Client.thy ===== *)
theory Tcp_Client
  imports Dma Protocol
begin

text \<open>
  The client side of the memory protocol, \<open>src/pciemu/aurora_backend/common/tcp_client.c\<close>: device
  memory lives in a separate server process, every access is one request and one reply over a
  socket. Sockets, the environment and QEMU's mutexes are outside the repository and parameters
  (\<open>'m host\<close>); \<open>sprintf\<close>, \<open>atoi\<close> and \<open>htons\<close> are modelled.
\<close>

section \<open>Environment\<close>

text \<open>
  \<open>recv\<close> gives its return value and the bytes it stores at the start of the buffer.
  \<open>connect\<close> takes the fields of the \<open>sockaddr_in\<close> the code fills in (port and address).
\<close>

record 'm host =
  getenv :: "string \<Rightarrow> 'm \<Rightarrow> string option"
  qemu_mutex_init :: "'m \<Rightarrow> 'm"
  qemu_mutex_lock :: "'m \<Rightarrow> 'm"
  qemu_mutex_unlock :: "'m \<Rightarrow> 'm"
  qemu_socket :: "'m \<Rightarrow> int \<times> 'm"
  inet_addr :: "string \<Rightarrow> u32"
  connect :: "int \<Rightarrow> u16 \<Rightarrow> u32 \<Rightarrow> 'm \<Rightarrow> int \<times> 'm"
  send :: "int \<Rightarrow> u8 list \<Rightarrow> 'm \<Rightarrow> int \<times> 'm"
  recv :: "int \<Rightarrow> nat \<Rightarrow> 'm \<Rightarrow> int \<times> (nat \<Rightarrow> u8) \<times> 'm"

text \<open>The globals of the file: the descriptor, and the flag of the mutex wrapper.\<close>

record 'm world = "'m aworld" +
  fd :: int
  t_mutex_init :: bool

section \<open>The C library functions used\<close>

text \<open>
  \<open>sprintf(buf, "%s\n", s)\<close> into an array of \<open>n\<close> characters: the text, the newline and the
  terminator have to fit, and \<open>s\<close> must not be null.
\<close>

definition sprintf_line :: "nat \<Rightarrow> string option \<Rightarrow> string res" where
  "sprintf_line n s =
     (case s of None \<Rightarrow> Inl NullDeref
      | Some t \<Rightarrow> (if n < length t + 2 then Inl OutOfBounds else Inr (t @ [CHR 0x0A])))"

definition is_digit :: "char \<Rightarrow> bool" where
  "is_digit c \<longleftrightarrow> 48 \<le> (of_char c :: nat) \<and> (of_char c :: nat) \<le> 57"

definition is_space :: "char \<Rightarrow> bool" where
  "is_space c \<longleftrightarrow> (of_char c :: nat) = 32 \<or> 9 \<le> (of_char c :: nat) \<and> (of_char c :: nat) \<le> 13"

primrec atoi_digits :: "int \<Rightarrow> string \<Rightarrow> int" where
  "atoi_digits acc [] = acc"
| "atoi_digits acc (c # cs) =
     (if is_digit c then atoi_digits (10 * acc + (of_char c - 48)) cs else acc)"

definition atoi :: "string \<Rightarrow> int" where
  "atoi s =
     (case dropWhile is_space s of
        [] \<Rightarrow> 0
      | c # cs \<Rightarrow> (if c = CHR ''-'' then - atoi_digits 0 cs
                  else if c = CHR ''+'' then atoi_digits 0 cs
                  else atoi_digits 0 (c # cs)))"

definition htons :: "u16 \<Rightarrow> u16" where
  "htons x = push_bit 8 x OR drop_bit 8 x"

section \<open>Lock\<close>

definition tcp_mutex_lock :: "'m host \<Rightarrow> ('m, 'z) world_scheme \<Rightarrow> ('m, 'z) world_scheme" where
  "tcp_mutex_lock h w =
     on_machine (qemu_mutex_lock h)
       (if \<not> t_mutex_init w then on_machine (qemu_mutex_init h) w else w)"

definition tcp_mutex_unlock :: "'m host \<Rightarrow> ('m, 'z) world_scheme \<Rightarrow> ('m, 'z) world_scheme" where
  "tcp_mutex_unlock h w =
     on_machine (qemu_mutex_unlock h)
       (if \<not> t_mutex_init w then on_machine (qemu_mutex_init h) w else w)"

section \<open>Connection\<close>

definition link_emu_server :: "'m host \<Rightarrow> ('m, 'z) world_scheme
    \<Rightarrow> (int \<times> ('m, 'z) world_scheme) res" where
  "link_emu_server h w =
     (if fd w > 0 then Inr (-1, w)
      else
        bindE (sprintf_line 32 (getenv h ''EMU_SERVER_IP'' (machine w))) (\<lambda>sever_ip.
        bindE (sprintf_line 20 (getenv h ''EMU_SERVER_PORT'' (machine w))) (\<lambda>sever_port_str.
          let sever_port = atoi sever_port_str;
              (f, m) = qemu_socket h (machine w);
              w = w\<lparr>fd := f, machine := m\<rparr>
          in if f < 0 then Inr (-1, qemu_log_mask Create_socket_failed w)
             else let (r, m) = connect h f (htons (of_int sever_port)) (inet_addr h sever_ip) (machine w);
                      w = w\<lparr>machine := m\<rparr>
                  in if r < 0 then Inr (-1, qemu_log_mask Connect_server_failed w)
                     else Inr (0, w))))"

text \<open>
  The common start of \<open>send_to_server\<close> and \<open>recv_from_server\<close>: take the lock and open the
  connection if there is none. \<open>False\<close> tells the caller to give up, the lock is released then.
\<close>

definition lock_and_link :: "'m host \<Rightarrow> ('m, 'z) world_scheme
    \<Rightarrow> (bool \<times> ('m, 'z) world_scheme) res" where
  "lock_and_link h w =
     (let w = tcp_mutex_lock h w
      in if fd w < 0 then
           bindE (link_emu_server h w) (\<lambda>(_, w).
             if fd w < 0 then Inr (False, tcp_mutex_unlock h w) else Inr (True, w))
         else Inr (True, w))"

definition send_to_server :: "'m host \<Rightarrow> u8 list option \<Rightarrow> ('m, 'z) world_scheme
    \<Rightarrow> (int \<times> ('m, 'z) world_scheme) res" where
  "send_to_server h buf w =
     (case buf of None \<Rightarrow> Inr (-1, w)
      | Some bs \<Rightarrow>
        bindE (lock_and_link h w) (\<lambda>(ok, w).
          if \<not> ok then Inr (-1, w)
          else let (r, m) = send h (fd w) bs (machine w);
                   w = w\<lparr>machine := m\<rparr>
               in if r < 0 then Inr (-1, tcp_mutex_unlock h (qemu_log_mask Send_failed w))
                  else Inr (0, tcp_mutex_unlock h w)))"

definition recv_from_server :: "'m host \<Rightarrow> u8 list option \<Rightarrow> ('m, 'z) world_scheme
    \<Rightarrow> (int \<times> u8 list option \<times> ('m, 'z) world_scheme) res" where
  "recv_from_server h buf w =
     (case buf of None \<Rightarrow> Inr (-1, None, w)
      | Some bs \<Rightarrow>
        bindE (lock_and_link h w) (\<lambda>(ok, w).
          if \<not> ok then Inr (-1, Some bs, w)
          else let (r, f, m) = recv h (fd w) (length bs) (machine w);
                   w = w\<lparr>machine := m\<rparr>
               in if r < 0 then Inr (-1, Some bs, tcp_mutex_unlock h (qemu_log_mask Recv_failed w))
                  else Inr (0, Some (blit 0 (map f [0..<min (nat r) (length bs)]) bs),
                            tcp_mutex_unlock h w)))"

section \<open>Requests\<close>

text \<open>
  \<open>req\<close> is a local variable the code only initialises in part: its contents before the first
  assignment are the argument \<open>junk\<close>. The result pointer \<open>value\<close> is an option, \<open>None\<close> for \<open>NULL\<close>;
  the new contents of the cell it points to are returned.
\<close>

definition tcp_send_mem_read_req :: "'m host \<Rightarrow> mem_rw_req \<Rightarrow> u64 \<Rightarrow> u64 option
    \<Rightarrow> ('m, 'z) world_scheme \<Rightarrow> (int \<times> u64 option \<times> ('m, 'z) world_scheme) res" where
  "tcp_send_mem_read_req h junk addr v w =
     (case v of None \<Rightarrow> Inr (-1, None, w)
      | Some old \<Rightarrow>
        let req = junk\<lparr>req_cmd := MEM_RW_CMD_R, req_addr := addr\<rparr>
        in bindE (send_to_server h (Some (req_bytes req)) w) (\<lambda>(rc, w).
             if rc \<noteq> 0 then Inr (-1, Some old, w)
             else bindE (recv_from_server h (Some (req_bytes req)) w) (\<lambda>(rc, bs, w).
               if rc \<noteq> 0 then Inr (-1, Some old, w)
               else let req = bytes_req (the bs)
                    in if req_addr req \<noteq> addr \<or> req_resp req \<noteq> MEM_RW_RESP_OK
                       then Inr (-1, Some 0xdeadbeef, w)
                       else Inr (0, Some (req_value req), w))))"

definition tcp_send_mem_write_req :: "'m host \<Rightarrow> mem_rw_req \<Rightarrow> u64 \<Rightarrow> u64
    \<Rightarrow> ('m, 'z) world_scheme \<Rightarrow> (int \<times> ('m, 'z) world_scheme) res" where
  "tcp_send_mem_write_req h junk addr v w =
     (let req = junk\<lparr>req_cmd := MEM_RW_CMD_W, req_addr := addr, req_value := v\<rparr>
      in bindE (send_to_server h (Some (req_bytes req)) w) (\<lambda>(rc, w).
           if rc \<noteq> 0 then Inr (-1, w)
           else bindE (recv_from_server h (Some (req_bytes req)) w) (\<lambda>(rc, bs, w).
             if rc \<noteq> 0 then Inr (-1, w)
             else let req = bytes_req (the bs)
                  in if req_addr req \<noteq> addr \<or> req_resp req \<noteq> MEM_RW_RESP_OK
                     then Inr (-1, w) else Inr (0, w))))"


section \<open>What the client changes, and when it can fault\<close>

text \<open>The part of the world the client never touches: the devices and the mutex flag.\<close>

definition client_frame :: "('m, 'z) world_scheme \<Rightarrow> ('m, 'z) world_scheme \<Rightarrow> bool" where
  "client_frame w w' \<longleftrightarrow> pdevs w' = pdevs w \<and> adevs w' = adevs w \<and>
     t_mutex_init w' = t_mutex_init w \<and> world.more w' = world.more w"

lemma client_frame_refl [simp]: "client_frame w w"
  by (simp add: client_frame_def)

lemma client_frame_trans: "client_frame u v \<Longrightarrow> client_frame v w \<Longrightarrow> client_frame u w"
  by (simp add: client_frame_def)

lemma tcp_world_frame [simp]:
  "fd (on_machine f w) = fd w"
  "t_mutex_init (on_machine f w) = t_mutex_init w"
  "fd (qemu_log_mask e w) = fd w"
  "t_mutex_init (qemu_log_mask e w) = t_mutex_init w"
  "fd (tcp_mutex_lock h w) = fd w"
  "fd (tcp_mutex_unlock h w) = fd w"
  by (simp_all add: on_machine_def qemu_log_mask_def tcp_mutex_lock_def tcp_mutex_unlock_def)

lemma client_frame_elementary [simp]:
  "client_frame w (on_machine f w') = client_frame w w'"
  "client_frame w (qemu_log_mask e w') = client_frame w w'"
  "client_frame w (w'\<lparr>machine := m\<rparr>) = client_frame w w'"
  "client_frame w (w'\<lparr>fd := n\<rparr>) = client_frame w w'"
  "client_frame w (tcp_mutex_lock h w') = client_frame w w'"
  "client_frame w (tcp_mutex_unlock h w') = client_frame w w'"
  "client_frame (tcp_mutex_lock h w) w' = client_frame w w'"
  by (simp_all add: client_frame_def on_machine_def qemu_log_mask_def tcp_mutex_lock_def
      tcp_mutex_unlock_def)

lemma link_frame: "link_emu_server h w = Inr (r, w') \<Longrightarrow> client_frame w w'"
  by (auto simp: link_emu_server_def res_simps Let_def case_prod_unfold split: if_splits)

lemma lock_and_link_frame: "lock_and_link h w = Inr (ok, w') \<Longrightarrow> client_frame w w'"
  by (auto simp: lock_and_link_def res_simps Let_def split: if_splits dest!: link_frame)

lemma send_frame: "send_to_server h b w = Inr (r, w') \<Longrightarrow> client_frame w w'"
  by (auto simp: send_to_server_def res_simps Let_def case_prod_unfold split: if_splits option.splits
      dest!: lock_and_link_frame)

lemma recv_frame: "recv_from_server h b w = Inr (r, b', w') \<Longrightarrow> client_frame w w'"
  by (auto simp: recv_from_server_def res_simps Let_def case_prod_unfold split: if_splits option.splits
      dest!: lock_and_link_frame)

lemma read_req_frame: "tcp_send_mem_read_req h j a v w = Inr (r, v', w') \<Longrightarrow> client_frame w w'"
  by (auto simp: tcp_send_mem_read_req_def res_simps Let_def split: if_splits option.splits
      dest!: send_frame recv_frame elim: client_frame_trans)

lemma write_req_frame: "tcp_send_mem_write_req h j a v w = Inr (r, w') \<Longrightarrow> client_frame w w'"
  by (auto simp: tcp_send_mem_write_req_def res_simps Let_def split: if_splits option.splits
      dest!: send_frame recv_frame elim: client_frame_trans)

text \<open>Once a descriptor is open, no operation of the client can fault.\<close>

lemma lock_and_link_open: "0 \<le> fd w \<Longrightarrow> lock_and_link h w = Inr (True, tcp_mutex_lock h w)"
  by (simp add: lock_and_link_def Let_def)

lemma send_open:
  "0 \<le> fd w \<Longrightarrow> \<exists>r w'. send_to_server h (Some bs) w = Inr (r, w') \<and> fd w' = fd w"
  by (auto simp: send_to_server_def lock_and_link_open Let_def split: prod.splits)

lemma recv_open:
  "0 \<le> fd w \<Longrightarrow> \<exists>r b w'. recv_from_server h (Some bs) w = Inr (r, b, w') \<and> fd w' = fd w"
  by (auto simp: recv_from_server_def lock_and_link_open Let_def split: prod.splits)

lemma read_returns:
  assumes "0 \<le> fd w"
  shows "\<exists>r v' w'. tcp_send_mem_read_req h junk addr v w = Inr (r, v', w') \<and> fd w' = fd w"
proof (cases v)
  case None
  then show ?thesis by (simp add: tcp_send_mem_read_req_def)
next
  case (Some old)
  let ?b = "req_bytes (junk\<lparr>req_cmd := MEM_RW_CMD_R, req_addr := addr\<rparr>)"
  obtain r1 w1 where 1: "send_to_server h (Some ?b) w = Inr (r1, w1)" "fd w1 = fd w"
    using send_open[OF assms] by blast
  with assms recv_open[of w1 h ?b] obtain r2 b2 w2
    where "recv_from_server h (Some ?b) w1 = Inr (r2, b2, w2)" "fd w2 = fd w"
    by auto
  with 1 Some show ?thesis by (simp add: tcp_send_mem_read_req_def Let_def)
qed

lemma write_returns:
  assumes "0 \<le> fd w"
  shows "\<exists>r w'. tcp_send_mem_write_req h junk addr x w = Inr (r, w') \<and> fd w' = fd w"
proof -
  let ?b = "req_bytes (junk\<lparr>req_cmd := MEM_RW_CMD_W, req_addr := addr, req_value := x\<rparr>)"
  obtain r1 w1 where 1: "send_to_server h (Some ?b) w = Inr (r1, w1)" "fd w1 = fd w"
    using send_open[OF assms] by blast
  with assms recv_open[of w1 h ?b] obtain r2 b2 w2
    where "recv_from_server h (Some ?b) w1 = Inr (r2, b2, w2)" "fd w2 = fd w"
    by auto
  with 1 show ?thesis by (simp add: tcp_send_mem_write_req_def Let_def)
qed

section \<open>A transaction over a working connection\<close>

text \<open>
  The documented behaviour of a connected stream socket whose peer answers every message it is
  sent: \<open>pend\<close> gives the bytes waiting to be received, \<open>serve\<close> the peer's answer. Mutex operations
  leave the stream alone.
\<close>

definition stream_socket :: "'m host \<Rightarrow> ('m \<Rightarrow> u8 list) \<Rightarrow> (u8 list \<Rightarrow> u8 list) \<Rightarrow> bool" where
  "stream_socket h pend serve \<longleftrightarrow>
     (\<forall>m. pend (qemu_mutex_init h m) = pend m \<and> pend (qemu_mutex_lock h m) = pend m \<and>
          pend (qemu_mutex_unlock h m) = pend m) \<and>
     (\<forall>f bs m. 0 \<le> fst (send h f bs m) \<and> pend (snd (send h f bs m)) = pend m @ serve bs) \<and>
     (\<forall>f n m. n \<le> length (pend m) \<longrightarrow>
        (\<exists>m'. recv h f n m = (int n, \<lambda>i. pend m ! i, m') \<and> pend m' = drop n (pend m)))"

lemma pend_mutex:
  assumes "stream_socket h pend serve"
  shows "pend (machine (tcp_mutex_lock h w)) = pend (machine w)"
    and "pend (machine (tcp_mutex_unlock h w)) = pend (machine w)"
  using assms by (simp_all add: stream_socket_def tcp_mutex_lock_def tcp_mutex_unlock_def)

lemma send_over_stream:
  assumes "stream_socket h pend serve" and "0 \<le> fd w"
  obtains w' where "send_to_server h (Some bs) w = Inr (0, w')" and "fd w' = fd w"
    and "pend (machine w') = pend (machine w) @ serve bs"
proof -
  obtain r m where s: "send h (fd w) bs (machine (tcp_mutex_lock h w)) = (r, m)"
    by (cases "send h (fd w) bs (machine (tcp_mutex_lock h w))")
  with assms(1) have "0 \<le> r" and m: "pend m = pend (machine (tcp_mutex_lock h w)) @ serve bs"
    unfolding stream_socket_def by (metis fst_conv snd_conv)+
  with s assms that[of "tcp_mutex_unlock h ((tcp_mutex_lock h w)\<lparr>machine := m\<rparr>)"] show thesis
    by (simp add: send_to_server_def lock_and_link_open pend_mutex Let_def)
qed

lemma recv_over_stream:
  assumes "stream_socket h pend serve" and "0 \<le> fd w" and "length bs = length (pend (machine w))"
  obtains w' where "recv_from_server h (Some bs) w = Inr (0, Some (pend (machine w)), w')"
    and "pend (machine w') = []"
proof -
  let ?l = "tcp_mutex_lock h w" and ?n = "length bs"
  from assms(3) have n: "?n \<le> length (pend (machine ?l))"
    by (simp add: pend_mutex[OF assms(1)])
  with assms(1) obtain m' where r: "recv h (fd w) ?n (machine ?l) = (int ?n, \<lambda>i. pend (machine ?l) ! i, m')"
    and m': "pend m' = drop ?n (pend (machine ?l))"
    unfolding stream_socket_def by meson
  have "blit 0 (map (\<lambda>i. pend (machine ?l) ! i) [0..<?n]) bs = pend (machine w)"
    using assms(3) by (simp add: blit_def pend_mutex[OF assms(1)] map_nth)
  with r m' assms that[of "tcp_mutex_unlock h (?l\<lparr>machine := m'\<rparr>)"] show thesis
    by (simp add: recv_from_server_def lock_and_link_open pend_mutex Let_def)
qed


text \<open>
  What the client relies on from the server: a well-formed answer of the same size, for the same
  address, marked as successful; \<open>content\<close> is what the server says an address holds.
\<close>

locale mem_service =
  fixes serve :: "u8 list \<Rightarrow> u8 list"
    and content :: "u64 \<Rightarrow> u64"
  assumes read_reply: "req_cmd r = MEM_RW_CMD_R \<Longrightarrow>
      \<exists>r'. serve (req_bytes r) = req_bytes r' \<and> req_addr r' = req_addr r \<and>
           req_resp r' = MEM_RW_RESP_OK \<and> req_value r' = content (req_addr r)"
    and write_reply: "req_cmd r = MEM_RW_CMD_W \<Longrightarrow>
      \<exists>r'. serve (req_bytes r) = req_bytes r' \<and> req_addr r' = req_addr r \<and>
           req_resp r' = MEM_RW_RESP_OK"
begin

lemma exchange:
  assumes sock: "stream_socket h pend serve" and fd: "0 \<le> fd w" and empty: "pend (machine w) = []"
    and reply: "serve (req_bytes r) = req_bytes r'"
  obtains w1 w2 where "send_to_server h (Some (req_bytes r)) w = Inr (0, w1)"
    and "recv_from_server h (Some (req_bytes r)) w1 = Inr (0, Some (req_bytes r'), w2)"
    and "pend (machine w2) = []"
proof -
  obtain w1 where w1: "send_to_server h (Some (req_bytes r)) w = Inr (0, w1)" "fd w1 = fd w"
    "pend (machine w1) = req_bytes r'"
    by (rule send_over_stream[OF sock fd, of "req_bytes r"]) (simp add: empty reply)
  have "length (req_bytes r) = length (pend (machine w1))"
    by (simp add: w1(3) req_codec.length_enc)
  from recv_over_stream[OF sock _ this] w1 fd show thesis
    by (metis that)
qed

lemma client_read:
  assumes "stream_socket h pend serve" and "0 \<le> fd w" and "pend (machine w) = []"
  shows "\<exists>w'. tcp_send_mem_read_req h junk addr (Some old) w = Inr (0, Some (content addr), w') \<and>
    pend (machine w') = []"
proof -
  let ?r = "junk\<lparr>req_cmd := MEM_RW_CMD_R, req_addr := addr\<rparr>"
  obtain r' where r': "serve (req_bytes ?r) = req_bytes r'" "req_addr r' = addr"
    "req_resp r' = MEM_RW_RESP_OK" "req_value r' = content addr"
    using read_reply[of ?r] by auto
  obtain w1 w2 where "send_to_server h (Some (req_bytes ?r)) w = Inr (0, w1)"
    "recv_from_server h (Some (req_bytes ?r)) w1 = Inr (0, Some (req_bytes r'), w2)"
    "pend (machine w2) = []"
    by (rule exchange[OF assms r'(1)])
  with r' show ?thesis
    by (simp add: tcp_send_mem_read_req_def Let_def req_codec.dec_enc)
qed

lemma client_write:
  assumes "stream_socket h pend serve" and "0 \<le> fd w" and "pend (machine w) = []"
  shows "\<exists>w'. tcp_send_mem_write_req h junk addr v w = Inr (0, w') \<and> pend (machine w') = []"
proof -
  let ?r = "junk\<lparr>req_cmd := MEM_RW_CMD_W, req_addr := addr, req_value := v\<rparr>"
  obtain r' where r': "serve (req_bytes ?r) = req_bytes r'" "req_addr r' = addr"
    "req_resp r' = MEM_RW_RESP_OK"
    using write_reply[of ?r] by auto
  obtain w1 w2 where "send_to_server h (Some (req_bytes ?r)) w = Inr (0, w1)"
    "recv_from_server h (Some (req_bytes ?r)) w1 = Inr (0, Some (req_bytes r'), w2)"
    "pend (machine w2) = []"
    by (rule exchange[OF assms r'(1)])
  with r' show ?thesis
    by (simp add: tcp_send_mem_write_req_def Let_def req_codec.dec_enc)
qed

end

section \<open>Properties of the client\<close>

text \<open>
  A concrete host over the machine of \<open>sample\<close>: the stream of received bytes is \<open>s_stream\<close>, \<open>serve\<close>
  is the peer, \<open>ip\<close> the contents of \<open>EMU_SERVER_IP\<close>, \<open>conn\<close> what \<open>connect\<close> returns.
\<close>

definition sample_host :: "(u8 list \<Rightarrow> u8 list) \<Rightarrow> string option \<Rightarrow> int \<Rightarrow> sample host" where
  "sample_host serve ip conn =
     \<lparr>getenv = (\<lambda>s m. if s = ''EMU_SERVER_IP'' then ip
                      else if s = ''EMU_SERVER_PORT'' then Some ''8080'' else None),
      qemu_mutex_init = (\<lambda>m. m), qemu_mutex_lock = (\<lambda>m. m), qemu_mutex_unlock = (\<lambda>m. m),
      qemu_socket = (\<lambda>m. (3, m)), inet_addr = (\<lambda>s. 0x0100007F),
      connect = (\<lambda>f port adr m. (conn, m)),
      send = (\<lambda>f bs m. (int (length bs), m\<lparr>s_stream := s_stream m @ serve bs\<rparr>)),
      recv = (\<lambda>f n m. (int (min n (length (s_stream m))), \<lambda>i. s_stream m ! i,
                       m\<lparr>s_stream := drop n (s_stream m)\<rparr>))\<rparr>"

definition sample_world :: "int \<Rightarrow> sample world" where
  "sample_world f = \<lparr>machine = sample_machine, qlog = [], pdevs = [16 \<mapsto> zero_device\<lparr>backend := 32\<rparr>],
     adevs = [32 \<mapsto> sample_adev], fd = f, t_mutex_init = False\<rparr>"

lemma sample_world_simps [simp]:
  "machine (sample_world f) = sample_machine" "fd (sample_world f) = f" "qlog (sample_world f) = []"
  "t_mutex_init (sample_world f) = False"
  "pdevs (sample_world f) 16 = Some (zero_device\<lparr>backend := 32\<rparr>)"
  "adevs (sample_world f) 32 = Some sample_adev"
  by (simp_all add: sample_world_def)

lemma sample_world_linked: "linked 16 32 (sample_world f)"
  by (simp add: linked_def zero_device_def wf_irq_def hw_defs)

lemma sample_host_simps [simp]:
  "getenv (sample_host serve ip conn) ''EMU_SERVER_IP'' m = ip"
  "getenv (sample_host serve ip conn) ''EMU_SERVER_PORT'' m = Some ''8080''"
  "qemu_mutex_init (sample_host serve ip conn) m = m"
  "qemu_mutex_lock (sample_host serve ip conn) m = m"
  "qemu_mutex_unlock (sample_host serve ip conn) m = m"
  "qemu_socket (sample_host serve ip conn) m = (3, m)"
  "connect (sample_host serve ip conn) f port adr m = (conn, m)"
  "send (sample_host serve ip conn) f bs m = (int (length bs), m\<lparr>s_stream := s_stream m @ serve bs\<rparr>)"
  "recv (sample_host serve ip conn) f n m =
     (int (min n (length (s_stream m))), \<lambda>i. s_stream m ! i, m\<lparr>s_stream := drop n (s_stream m)\<rparr>)"
  by (simp_all add: sample_host_def)

lemma sample_stream: "stream_socket (sample_host serve ip conn) s_stream serve"
  by (simp add: stream_socket_def)

text \<open>
  C27. Opening the connection returns (with success or with an error code) exactly when a descriptor
  is already there, or both environment variables are set and short enough for the two fixed
  buffers of the function: at most 30 characters of address and 18 of port number. In every other
  case it dereferences the null result of \<open>getenv\<close> or overruns a buffer on the stack.
\<close>

theorem link_returns_iff:
  "(\<exists>r. link_emu_server h w = Inr r) \<longleftrightarrow>
   fd w > 0 \<or>
   (\<exists>ip port. getenv h ''EMU_SERVER_IP'' (machine w) = Some ip \<and> length ip \<le> 30 \<and>
              getenv h ''EMU_SERVER_PORT'' (machine w) = Some port \<and> length port \<le> 18)"
  by (auto simp: link_emu_server_def sprintf_line_def Let_def case_prod_unfold split: option.splits)



text \<open>
  C28. A connection attempt that fails is never repeated: the descriptor of the unconnected socket stays
  in \<open>fd\<close>, so the operation that tried to connect goes on to send on it, and every later
  operation uses it without calling \<open>connect\<close> again.
\<close>

theorem failed_connect_sticks:
  assumes "fd w < 0"
    and "getenv h ''EMU_SERVER_IP'' (machine (tcp_mutex_lock h w)) = Some ip" and "length ip \<le> 30"
    and "getenv h ''EMU_SERVER_PORT'' (machine (tcp_mutex_lock h w)) = Some port" and "length port \<le> 18"
    and "qemu_socket h (machine (tcp_mutex_lock h w)) = (f, m)" and "0 \<le> f"
    and "fst (connect h f (htons (of_int (atoi (port @ [CHR 0x0A])))) (inet_addr h (ip @ [CHR 0x0A])) m) < 0"
  shows "\<exists>w'. lock_and_link h w = Inr (True, w') \<and> fd w' = f \<and>
    qlog w' = qlog w @ [Connect_server_failed] \<and>
    (\<forall>u :: ('m, 'z) world_scheme. fd u = f \<longrightarrow> lock_and_link h u = Inr (True, tcp_mutex_lock h u))"
proof -
  have "qlog (tcp_mutex_lock h w) = qlog w" by (simp add: tcp_mutex_lock_def)
  then show ?thesis
    using assms
    by (auto simp: lock_and_link_def link_emu_server_def sprintf_line_def Let_def case_prod_unfold
        qemu_log_mask_def)
qed

theorem failed_connect_sticks_witness:
  "\<exists>w'. lock_and_link (sample_host (\<lambda>bs. []) (Some ''10.0.0.2'') (-1)) (sample_world (-1)) =
      Inr (True, w') \<and> fd w' = 3"
proof -
  let ?h = "sample_host (\<lambda>bs. []) (Some ''10.0.0.2'') (-1)"
  have "machine (tcp_mutex_lock ?h (sample_world (-1))) = sample_machine"
    by (simp add: tcp_mutex_lock_def)
  then show ?thesis
    using failed_connect_sticks[of "sample_world (-1)" ?h "''10.0.0.2''" "''8080''" 3 sample_machine]
    by auto
qed

text \<open>
  When the peer has closed the connection, \<open>recv\<close> returns 0 and the client takes the request it
  has just sent for the reply: the outcome of a read then depends only on the uninitialised
  part of the request, which is returned as the value read when its response field happens to
  say OK, and the error marker is returned otherwise.
\<close>

lemma read_after_eof:
  assumes "0 \<le> fd w"
    and send_ok: "\<And>f bs m. 0 \<le> fst (send h f bs m)" and eof: "\<And>f n m. fst (recv h f n m) = 0"
  shows "\<exists>w'. tcp_send_mem_read_req h junk addr (Some old) w =
    Inr (if req_resp junk = MEM_RW_RESP_OK then (0, Some (req_value junk), w')
         else (-1, Some 0xdeadbeef, w'))"
proof -
  let ?req = "junk\<lparr>req_cmd := MEM_RW_CMD_R, req_addr := addr\<rparr>"
  obtain w1 where w1: "send_to_server h (Some (req_bytes ?req)) w = Inr (0, w1)" "fd w1 = fd w"
    using assms(1) send_ok[of "fd w" "req_bytes ?req" "machine (tcp_mutex_lock h w)"]
    by (auto simp: send_to_server_def lock_and_link_open Let_def case_prod_unfold)
  have "\<exists>w2. recv_from_server h (Some (req_bytes ?req)) w1 = Inr (0, Some (req_bytes ?req), w2)"
    using assms(1) w1(2) eof[of "fd w1" "length (req_bytes ?req)" "machine (tcp_mutex_lock h w1)"]
    by (auto simp: recv_from_server_def lock_and_link_open Let_def case_prod_unfold)
  with w1(1) show ?thesis
    by (auto simp: tcp_send_mem_read_req_def Let_def req_codec.dec_enc)
qed

end
