(* ===== verification/Tcp_Server.thy ===== *)
theory Tcp_Server
  imports Tcp_Client
begin

text \<open>
  The memory server, \<open>utils/tcp_server/tcp_server.c\<close>: its start-up with every exit, and the loop of
  the child process that serves one connection. The loops of the source never end; they are
  modelled as functions of the finite prefix of inputs (accepted sockets, received chunks)
  consumed so far.
\<close>

section \<open>Serving one connection\<close>

text \<open>The answer to a request: none unless the command is known.\<close>

definition server_reply :: "mem_rw_req \<Rightarrow> mem_rw_req option" where
  "server_reply req =
     (if req_cmd req = MEM_RW_CMD_R then
        Some (req\<lparr>req_value := req_addr req, req_resp := MEM_RW_RESP_OK\<rparr>)
      else if req_cmd req = MEM_RW_CMD_W then
        Some (req\<lparr>req_value := req_addr req, req_resp := MEM_RW_RESP_OK\<rparr>)
      else None)"

definition zero_req :: mem_rw_req where
  "zero_req = \<lparr>req_cmd = 0, req_addr = 0, req_value = 0, req_resp = 0\<rparr>"

text \<open>
  One round of the inner loop. \<open>recv\<close> stores the chunk at the start of \<open>req\<close>; its result is not
  looked at, so a failed or empty receive is an empty chunk. The bytes sent are the second result
  and \<open>bzero\<close> leaves the zero request.
\<close>

definition server_round :: "u8 list \<Rightarrow> mem_rw_req \<Rightarrow> mem_rw_req \<times> u8 list" where
  "server_round chunk req =
     (let req = bytes_req (blit 0 (take 32 chunk) (req_bytes req))
      in (zero_req, case server_reply req of None \<Rightarrow> [] | Some r \<Rightarrow> req_bytes r))"

fun server_child :: "u8 list list \<Rightarrow> mem_rw_req \<Rightarrow> u8 list" where
  "server_child [] req = []"
| "server_child (chunk # chunks) req =
     (let (req', out) = server_round chunk req in out @ server_child chunks req')"

section \<open>Start-up and accept loop\<close>

datatype server_phase = Exited int | Listening int

text \<open>\<open>socket\<close>, \<open>bind\<close> and \<open>listen\<close>: a failing \<open>listen\<close> is reported and the server goes on.\<close>

definition server_setup :: "int \<Rightarrow> int \<Rightarrow> int \<Rightarrow> server_phase" where
  "server_setup sockfd bind_ret listen_ret =
     (if sockfd < 0 then Exited 1
      else if bind_ret < 0 then Exited 1
      else Listening sockfd)"

text \<open>
  The outer loop over the results of \<open>accept\<close>; each accepted socket is handed to a forked child.
  The result is the list of sockets served and whether the server has exited.
\<close>

fun server_accept_loop :: "int list \<Rightarrow> int list \<times> server_phase option" where
  "server_accept_loop [] = ([], None)"
| "server_accept_loop (s # ss) =
     (if s < 0 then ([], Some (Exited 1))
      else let (served, r) = server_accept_loop ss in (s # served, r))"

section \<open>The server provides the memory service\<close>

definition server_serve :: "u8 list \<Rightarrow> u8 list" where
  "server_serve bs = snd (server_round bs zero_req)"

lemma server_round_request:
  "server_round (req_bytes r) req =
     (zero_req, case server_reply r of None \<Rightarrow> [] | Some r' \<Rightarrow> req_bytes r')"
  by (simp add: server_round_def Let_def req_codec.length_enc req_codec.receive_full)

interpretation tcp_server: mem_service server_serve "\<lambda>a. a"
  by unfold_locales
    (auto simp: server_serve_def server_round_request server_reply_def hw_defs)

lemma server_child_requests:
  "server_child (map req_bytes rs) req = concat (map (server_serve \<circ> req_bytes) rs)"
  by (induction rs arbitrary: req) (auto simp: server_round_request server_serve_def)

text \<open>After the peer has closed the connection the loop goes on for ever without an answer.\<close>

lemma server_child_eof: "server_child (replicate n []) zero_req = []"
proof (induction n)
  case 0
  then show ?case by simp
next
  case (Suc n)
  have "server_round [] zero_req = (zero_req, [])"
    by (simp add: server_round_def req_codec.dec_enc server_reply_def zero_req_def hw_defs)
  with Suc show ?case by simp
qed

section \<open>Properties of the server\<close>

text \<open>
  A connection is served in order: for a sequence of complete requests the bytes sent back are
  the answers to the known commands, one per request and in the order of the requests, each
  echoing command and address, marked OK, with the address as value.
\<close>

lemma server_answers_in_order:
  "server_child (map req_bytes rs) req =
     concat (map (\<lambda>r. req_bytes (r\<lparr>req_value := req_addr r, req_resp := MEM_RW_RESP_OK\<rparr>))
       (filter (\<lambda>r. req_cmd r = MEM_RW_CMD_R \<or> req_cmd r = MEM_RW_CMD_W) rs))"
  by (induction rs arbitrary: req) (auto simp: server_round_request server_reply_def)

text \<open>
  The server does not notice that a client has gone: after at least one complete request, any number of
  further rounds in which \<open>recv\<close> delivers nothing produces no output, and the loop has no exit.
\<close>

lemma server_spins_after_close:
  assumes "rs \<noteq> []"
  shows "server_child (map req_bytes rs @ replicate n []) req = server_child (map req_bytes rs) req"
  using assms
proof (induction rs arbitrary: req)
  case (Cons r rs)
  show ?case
  proof (cases rs)
    case Nil
    then show ?thesis by (simp add: server_round_request server_child_eof)
  next
    case (Cons r' rs')
    with Cons.IH[of zero_req] show ?thesis by (simp add: server_round_request)
  qed
qed simp

text \<open>
  The accept loop hands every accepted socket to a child until the first failing \<open>accept\<close>, which
  ends the server with status 1; the loop has no other exit.
\<close>

lemma server_accepts_until_failure:
  "server_accept_loop ss =
     (takeWhile (\<lambda>s. 0 \<le> s) ss, if list_all (\<lambda>s. 0 \<le> s) ss then None else Some (Exited 1))"
  by (induction ss) auto

end
