(* ===== verification/Aurora.thy ===== *)
theory Aurora
  imports Tcp_Server
begin

text \<open>
  The back end, \<open>src/pciemu/aurora_backend/aurora.c\<close> and \<open>aurora.h\<close>: decoding of register accesses,
  device memory over the memory protocol, and the life cycle of the back-end object.
\<close>

section \<open>Accessors of aurora.h\<close>

definition get_aurora_dev :: "ptr \<Rightarrow> ('m, 'z) aworld_scheme \<Rightarrow> ptr res" where
  "get_aurora_dev dev w =
     (if dev = NULL then Inr NULL else bindE (deref (pdevs w) dev) (\<lambda>d. Inr (backend d)))"

section \<open>Registers and device memory\<close>

definition aurora_regbar_valid_access :: "u64 \<Rightarrow> bool" where
  "aurora_regbar_valid_access addr \<longleftrightarrow> AURORA_HW_REGBAR_START \<le> addr \<and> addr \<le> AURORA_HW_REGBAR_END"

definition aurora_write_devmem_by_addr :: "'m host \<Rightarrow> mem_rw_req \<Rightarrow> ptr \<Rightarrow> u64 \<Rightarrow> u64
    \<Rightarrow> ('m, 'z) world_scheme \<Rightarrow> (int \<times> ('m, 'z) world_scheme) res" where
  "aurora_write_devmem_by_addr h junk adev addr v w = tcp_send_mem_write_req h junk addr v w"

definition aurora_read_devmem_by_addr :: "'m host \<Rightarrow> mem_rw_req \<Rightarrow> ptr \<Rightarrow> u64 \<Rightarrow> u64 option
    \<Rightarrow> ('m, 'z) world_scheme \<Rightarrow> (int \<times> u64 option \<times> ('m, 'z) world_scheme) res" where
  "aurora_read_devmem_by_addr h junk adev addr v w = tcp_send_mem_read_req h junk addr v w"

abbreviation set_reg :: "nat \<Rightarrow> u64 \<Rightarrow> AURORADevice \<Rightarrow> AURORADevice" where
  "set_reg i v a \<equiv> a\<lparr>regs := (regs a)[i := v]\<rparr>"

definition aurora_write_reg_by_addr :: "'m qemu \<Rightarrow> ptr \<Rightarrow> u64 \<Rightarrow> u64 \<Rightarrow> ('m, 'z) aworld_scheme
    \<Rightarrow> (int \<times> ('m, 'z) aworld_scheme) res" where
  "aurora_write_reg_by_addr q adev addr v w =
     (if \<not> aurora_regbar_valid_access addr then Inr (-1, w)
      else bindE
        (if addr = AURORA_HW_REG_0 then upd_adev adev (set_reg 0 v) w
         else if addr = AURORA_HW_REG_1 then upd_adev adev (set_reg 1 v) w
         else if addr = AURORA_HW_REG_2 then upd_adev adev (set_reg 2 v) w
         else if addr = AURORA_HW_REG_3 then upd_adev adev (set_reg 3 v) w
         else if addr = AURORA_HW_REG_IRQ_0_RAISE then
           bindE (get_pciemu_dev adev w) (\<lambda>dev. pciemu_irq_raise q dev 0 w)
         else if addr = AURORA_HW_REG_IRQ_0_LOWER then
           bindE (get_pciemu_dev adev w) (\<lambda>dev. pciemu_irq_lower q dev 0 w)
         else if AURORA_HW_REG_DMA_CFG_TXDESC_SRC \<le> addr \<and> addr \<le> AURORA_HW_REG_DMA_DOORBELL_RING then
           bindE (aurora_dma_reg_write q adev addr v w) (\<lambda>(_, w). Inr w)
         else Inr w)
        (\<lambda>w. Inr (0, w)))"

text \<open>As for the protocol client, the result cell is an option, \<open>None\<close> for a null pointer.\<close>

definition aurora_read_reg_by_addr :: "ptr \<Rightarrow> u64 \<Rightarrow> u64 option \<Rightarrow> ('m, 'z) aworld_scheme
    \<Rightarrow> (int \<times> u64 option) res" where
  "aurora_read_reg_by_addr adev addr v w =
     (if v = None then Inr (-1, None)
      else if \<not> aurora_regbar_valid_access addr then Inr (-1, Some 0xdeadbeef)
      else if addr = AURORA_HW_REG_0 then
        bindE (deref (adevs w) adev) (\<lambda>a. Inr (0, Some (regs a ! 0)))
      else if addr = AURORA_HW_REG_1 then
        bindE (deref (adevs w) adev) (\<lambda>a. Inr (0, Some (regs a ! 1)))
      else if addr = AURORA_HW_REG_2 then
        bindE (deref (adevs w) adev) (\<lambda>a. Inr (0, Some (regs a ! 2)))
      else if addr = AURORA_HW_REG_3 then
        bindE (deref (adevs w) adev) (\<lambda>a. Inr (0, Some (regs a ! 3)))
      else Inr (0, v))"

section \<open>Life cycle\<close>

definition aurora_backend_reset :: "ptr \<Rightarrow> ('m, 'z) aworld_scheme \<Rightarrow> ('m, 'z) aworld_scheme res" where
  "aurora_backend_reset adev w = aurora_dma_reset adev w"

text \<open>
  \<open>malloc\<close> gives either nothing or the address of a fresh object with arbitrary contents; which of
  the two is the argument \<open>mres\<close>.
\<close>

definition aurora_backend_init :: "(ptr \<times> AURORADevice) option \<Rightarrow> ptr \<Rightarrow> ('m, 'z) aworld_scheme
    \<Rightarrow> ('m, 'z) aworld_scheme res" where
  "aurora_backend_init mres dev w =
     (case mres of
        None \<Rightarrow> Inr (qemu_log_mask Alloc_aurora_failed w)
      | Some (adev, contents) \<Rightarrow>
          bindE (upd_pdev dev (\<lambda>d. d\<lparr>backend := adev\<rparr>) (w\<lparr>adevs := (adevs w)(adev \<mapsto> contents)\<rparr>)) (\<lambda>w.
          bindE (upd_adev adev (\<lambda>a. a\<lparr>parent := dev\<rparr>) w) (\<lambda>w.
            aurora_dma_init adev w)))"

definition free_adev :: "ptr \<Rightarrow> ('m, 'z) aworld_scheme \<Rightarrow> ('m, 'z) aworld_scheme res" where
  "free_adev adev w =
     (if adev = NULL then Inr w
      else bindE (deref (adevs w) adev) (\<lambda>_. Inr (w\<lparr>adevs := (adevs w)(adev := None)\<rparr>)))"

definition aurora_backend_fini :: "ptr \<Rightarrow> ('m, 'z) aworld_scheme \<Rightarrow> ('m, 'z) aworld_scheme res" where
  "aurora_backend_fini adev w =
     bindE (aurora_dma_fini adev w) (\<lambda>w.
     bindE (deref (adevs w) adev) (\<lambda>a.
     bindE (upd_pdev (parent a) (\<lambda>d. d\<lparr>backend := NULL\<rparr>) w) (\<lambda>w.
       free_adev adev w)))"


section \<open>Effect of an access on a linked device\<close>

text \<open>Nothing but the two objects of one device changes.\<close>

definition touches :: "ptr \<Rightarrow> ptr \<Rightarrow> ('m, 'z) aworld_scheme \<Rightarrow> ('m, 'z) aworld_scheme \<Rightarrow> bool" where
  "touches dev adev w w' \<longleftrightarrow>
     (\<forall>p. p \<noteq> dev \<longrightarrow> pdevs w' p = pdevs w p) \<and> (\<forall>p. p \<noteq> adev \<longrightarrow> adevs w' p = adevs w p) \<and>
     aworld.more w' = aworld.more w"

lemma touches_refl [simp]: "touches dev adev w w"
  by (simp add: touches_def)

lemma touches_trans: "touches dev adev u v \<Longrightarrow> touches dev adev v w \<Longrightarrow> touches dev adev u w"
  by (simp add: touches_def)

lemma touches_simps [simp]:
  "touches dev adev w (on_machine f w) "
  "touches dev adev w (qemu_log_mask ev w)"
  "touches dev adev w (set_irq dev i w)"
  "touches dev adev w (w\<lparr>adevs := (adevs w)(adev \<mapsto> a)\<rparr>)"
  "touches dev adev w (apply_dma adev e m l w)"
  by (simp_all add: touches_def on_machine_def qemu_log_mask_def set_irq_def apply_dma_def)

text \<open>Every interrupt operation is harmless for the link, by the interface of the front end.\<close>

lemma irq_op_linked:
  fixes op :: "ptr \<Rightarrow> ('m, 'z) aworld_scheme \<Rightarrow> ('m, 'z) aworld_scheme res"
  assumes op: "irq_operation op spec meff" and l: "linked dev adev w"
  shows "\<exists>w'. op dev w = Inr w' \<and> linked dev adev w' \<and> touches dev adev w w' \<and> adevs w' = adevs w \<and>
    machine w' = meff dev (machine w) \<and> qlog w' = qlog w"
proof -
  note ready = linked_irq_ready[OF l]
  obtain w' where w': "op dev w = Inr w'"
    using irq_operation.total[OF op ready] by blast
  obtain i where "wf_irq i" and eq: "w' = on_machine (meff dev) (set_irq dev i w)"
    by (rule irq_operation.result[OF op ready w'])
  with l have "linked dev adev w'"
    by (simp add: linked_set_irq)
  moreover have "touches dev adev w w'"
    unfolding eq by (rule touches_trans[of _ _ _ "set_irq dev i w"]) simp_all
  ultimately show ?thesis using w' eq by simp
qed

lemmas raise_linked = irq_op_linked[OF irq_raise.irq_operation_axioms]
lemmas lower_linked = irq_op_linked[OF irq_lower.irq_operation_axioms]
lemmas irq_reset_linked = irq_op_linked[OF irq_reset.irq_operation_axioms]

lemma doorbell_linked:
  assumes l: "linked dev adev w" and a: "adevs w adev = Some a"
    and r: "aurora_dma_doorbell_ring q adev w = Inr w'"
  shows "linked dev adev w' \<and> touches dev adev w w' \<and>
    (\<exists>a'. adevs w' adev = Some a' \<and> regs a' = regs a \<and> config (dma a') = config (dma a) \<and>
       (status (dma a) \<noteq> DMA_STATUS_EXECUTING \<longrightarrow> status (dma a') = DMA_STATUS_IDLE))"
proof (cases "status (dma a) = DMA_STATUS_EXECUTING")
  case True
  with l a r show ?thesis by (auto simp: doorbell_effect[OF l a])
next
  case False
  with r obtain e m logs b where sp: "dma_spec q dev (dma a) (machine w) = Some (e, m, logs, b)"
    and w': "(if b then pciemu_irq_raise q dev AURORA_HW_IRQ_DMA_ENDED_VECTOR
                 (apply_dma adev (e\<lparr>status := DMA_STATUS_IDLE\<rparr>) m logs w)
              else Inr (apply_dma adev (e\<lparr>status := DMA_STATUS_IDLE\<rparr>) m logs w)) = Inr w'"
    by (auto simp: doorbell_effect[OF l a] Let_def split: option.splits)
  let ?u = "apply_dma adev (e\<lparr>status := DMA_STATUS_IDLE\<rparr>) m logs w"
  from l a have "wf_dma (dma a)" by (auto simp: linked_def)
  with sp dma_spec_keeps[OF sp] l have lu: "linked dev adev ?u"
    by (intro linked_apply_dma) simp_all
  have au: "adevs ?u adev = Some (a\<lparr>dma := e\<lparr>status := DMA_STATUS_IDLE\<rparr>\<rparr>)"
    using a by (simp add: apply_dma_frame)
  have w': "linked dev adev w'" "touches dev adev ?u w'" "adevs w' = adevs ?u"
    using w' lu raise_linked[OF lu, of q AURORA_HW_IRQ_DMA_ENDED_VECTOR] by (cases b; auto)+
  have "touches dev adev w w'"
    by (rule touches_trans[OF _ w'(2)]) simp
  with w' show ?thesis
    using au dma_spec_keeps(1)[OF sp] by simp
qed

lemma dma_reg_write_linked:
  assumes l: "linked dev adev w" and a: "adevs w adev = Some a"
    and r: "aurora_dma_reg_write q adev addr v w = Inr (rc, w')"
  shows "linked dev adev w' \<and> touches dev adev w w' \<and>
    (\<exists>a'. adevs w' adev = Some a' \<and> regs a' = regs a \<and>
       (status (dma a) = DMA_STATUS_IDLE \<longrightarrow> status (dma a') = DMA_STATUS_IDLE))"
proof -
  consider (no) "\<not> aurora_dma_valid_access addr"
    | (bell) "addr = AURORA_HW_REG_DMA_DOORBELL_RING"
    | (cfg) "aurora_dma_valid_access addr" "addr \<noteq> AURORA_HW_REG_DMA_DOORBELL_RING"
    by blast
  then show ?thesis
  proof cases
    case no
    with l a r show ?thesis by (auto simp: aurora_dma_reg_write_def)
  next
    case bell
    with r have "aurora_dma_doorbell_ring q adev w = Inr w'"
      by (simp add: dma_reg_write_doorbell res_simps)
    from doorbell_linked[OF l a this] show ?thesis by auto
  next
    case cfg
    from l a have "linked dev adev (w\<lparr>adevs := (adevs w)(adev \<mapsto>
        dma_upd (config_upd (cfg_write addr v)) a)\<rparr>)"
      by (intro linked_upd_adev) (auto simp: linked_def)
    with l a r show ?thesis by (auto simp: dma_reg_write_cfg[OF l a cfg] split: if_splits)
  qed
qed

section \<open>Decoding\<close>

text \<open>The scratch register behind an offset.\<close>

definition reg_index :: "u64 \<Rightarrow> nat option" where
  "reg_index addr =
     (if addr = AURORA_HW_REG_0 then Some 0 else if addr = AURORA_HW_REG_1 then Some 1
      else if addr = AURORA_HW_REG_2 then Some 2 else if addr = AURORA_HW_REG_3 then Some 3
      else None)"

lemma reg_index_None:
  "reg_index addr = None \<longleftrightarrow> addr \<noteq> AURORA_HW_REG_0 \<and> addr \<noteq> AURORA_HW_REG_1 \<and>
     addr \<noteq> AURORA_HW_REG_2 \<and> addr \<noteq> AURORA_HW_REG_3"
  by (simp add: reg_index_def)

lemma reg_index_inj: "reg_index a = Some i \<Longrightarrow> reg_index b = Some i \<Longrightarrow> a = b"
  by (auto simp: reg_index_def split: if_splits)

lemma reg_index_lt: "reg_index a = Some i \<Longrightarrow> i < AURORA_HW_REGBAR_REG_CNT"
  by (auto simp: reg_index_def hw_defs split: if_splits)

lemma dma_range_iff:
  "AURORA_HW_REG_DMA_CFG_TXDESC_SRC \<le> addr \<and> addr \<le> AURORA_HW_REG_DMA_DOORBELL_RING
     \<longleftrightarrow> aurora_dma_valid_access addr"
  by (simp add: aurora_dma_valid_access_def)

lemma dma_range_valid:
  assumes "aurora_dma_valid_access addr"
  shows "aurora_regbar_valid_access addr" and "reg_index addr = None"
    and "addr \<noteq> AURORA_HW_REG_IRQ_0_RAISE" and "addr \<noteq> AURORA_HW_REG_IRQ_0_LOWER"
proof -
  from assms have r: "0x30 \<le> unat addr" "unat addr \<le> 0x50"
    by (simp_all add: aurora_dma_valid_access_def hw_defs word_le_nat_alt)
  then show "aurora_regbar_valid_access addr"
    by (simp add: aurora_regbar_valid_access_def hw_defs word_le_nat_alt)
  from r show "reg_index addr = None" "addr \<noteq> AURORA_HW_REG_IRQ_0_RAISE"
    "addr \<noteq> AURORA_HW_REG_IRQ_0_LOWER"
    by (auto simp: reg_index_def hw_defs)
qed

lemma write_scratch:
  assumes l: "linked dev adev w" and a: "adevs w adev = Some a" and i: "reg_index addr = Some i"
  shows "aurora_write_reg_by_addr q adev addr v w =
    Inr (0, w\<lparr>adevs := (adevs w)(adev \<mapsto> set_reg i v a)\<rparr>)"
proof -
  from l have nn: "adev \<noteq> NULL" by (simp add: linked_def)
  have "aurora_regbar_valid_access addr"
    using i by (auto simp: reg_index_def aurora_regbar_valid_access_def hw_defs split: if_splits)
  with a nn i show ?thesis
    by (auto simp: aurora_write_reg_by_addr_def reg_index_def upd_adev_def split: if_splits)
qed

lemma write_dma_reg:
  assumes "aurora_dma_valid_access addr"
  shows "aurora_write_reg_by_addr q adev addr v w =
    bindE (aurora_dma_reg_write q adev addr v w) (\<lambda>(_, w). Inr (0, w))"
proof -
  note no = dma_range_valid[OF assms]
  from no(2) have "addr \<noteq> AURORA_HW_REG_0" "addr \<noteq> AURORA_HW_REG_1" "addr \<noteq> AURORA_HW_REG_2"
    "addr \<noteq> AURORA_HW_REG_3"
    by (simp_all add: reg_index_None)
  with no assms show ?thesis
    by (simp add: aurora_write_reg_by_addr_def dma_range_iff bindE_assoc case_prod_unfold)
qed

text \<open>Any write that returns keeps the device linked and touches no other device.\<close>

lemma write_reg_linked:
  assumes l: "linked dev adev w" and a: "adevs w adev = Some a"
    and r: "aurora_write_reg_by_addr q adev addr v w = Inr (rc, w')"
  shows "linked dev adev w' \<and> touches dev adev w w' \<and>
    (\<exists>a'. adevs w' adev = Some a' \<and>
       regs a' = (case reg_index addr of Some i \<Rightarrow> (regs a)[i := v] | None \<Rightarrow> regs a) \<and>
       (status (dma a) = DMA_STATUS_IDLE \<longrightarrow> status (dma a') = DMA_STATUS_IDLE))"
proof (cases "reg_index addr")
  case (Some i)
  from l a have "linked dev adev (w\<lparr>adevs := (adevs w)(adev \<mapsto> set_reg i v a)\<rparr>)"
    by (intro linked_upd_adev) (auto simp: linked_def)
  with write_scratch[OF l a Some, of q v] r Some show ?thesis by auto
next
  case None
  then have no: "addr \<noteq> AURORA_HW_REG_0" "addr \<noteq> AURORA_HW_REG_1" "addr \<noteq> AURORA_HW_REG_2"
    "addr \<noteq> AURORA_HW_REG_3"
    by (simp_all add: reg_index_None)
  show ?thesis
  proof (cases "aurora_dma_valid_access addr")
    case True
    with r obtain rc' where "aurora_dma_reg_write q adev addr v w = Inr (rc', w')"
      by (auto simp: write_dma_reg res_simps)
    from dma_reg_write_linked[OF l a this] None show ?thesis by simp
  next
    case False
    with no None l a r raise_linked[OF l, of q 0] lower_linked[OF l, of q 0] show ?thesis
      by (auto simp: aurora_write_reg_by_addr_def get_pciemu_dev_linked[OF l] dma_range_iff res_simps
          split: if_splits)
  qed
qed


text \<open>Without a back end an access either faults or does nothing.\<close>

lemma write_reg_no_backend:
  "aurora_write_reg_by_addr q NULL addr v w = Inr (rc, w') \<Longrightarrow> w' = w"
  by (auto simp: aurora_write_reg_by_addr_def upd_adev_def get_pciemu_dev_def pciemu_irq_raise_def
      pciemu_irq_lower_def aurora_dma_reg_write_def aurora_dma_config_txdesc_src_def
      aurora_dma_config_txdesc_dst_def aurora_dma_config_txdesc_len_def aurora_dma_config_cmd_def
      aurora_dma_doorbell_ring_def status_cmpxchg_def res_simps split: if_splits)

end
