(* ===== verification/Glue.thy ===== *)
theory Glue
  imports Aurora
begin

text \<open>
  The glue layer, \<open>src/pciemu/glue/glue.c\<close>: every front-end request is forwarded to the back end
  that the device points to (the only configuration defines \<open>AURORA_HW\<close>).
\<close>

definition glue_write_devmem_by_addr :: "'m host \<Rightarrow> mem_rw_req \<Rightarrow> ptr \<Rightarrow> u64 \<Rightarrow> u64
    \<Rightarrow> ('m, 'z) world_scheme \<Rightarrow> (int \<times> ('m, 'z) world_scheme) res" where
  "glue_write_devmem_by_addr h junk dev addr v w =
     bindE (get_aurora_dev dev w) (\<lambda>adev. aurora_write_devmem_by_addr h junk adev addr v w)"

definition glue_read_devmem_by_addr :: "'m host \<Rightarrow> mem_rw_req \<Rightarrow> ptr \<Rightarrow> u64 \<Rightarrow> u64 option
    \<Rightarrow> ('m, 'z) world_scheme \<Rightarrow> (int \<times> u64 option \<times> ('m, 'z) world_scheme) res" where
  "glue_read_devmem_by_addr h junk dev addr v w =
     bindE (get_aurora_dev dev w) (\<lambda>adev. aurora_read_devmem_by_addr h junk adev addr v w)"

definition glue_write_reg_by_addr :: "'m qemu \<Rightarrow> ptr \<Rightarrow> u64 \<Rightarrow> u64 \<Rightarrow> ('m, 'z) aworld_scheme
    \<Rightarrow> (int \<times> ('m, 'z) aworld_scheme) res" where
  "glue_write_reg_by_addr q dev addr v w =
     bindE (get_aurora_dev dev w) (\<lambda>adev. aurora_write_reg_by_addr q adev addr v w)"

definition glue_read_reg_by_addr :: "ptr \<Rightarrow> u64 \<Rightarrow> u64 option \<Rightarrow> ('m, 'z) aworld_scheme
    \<Rightarrow> (int \<times> u64 option) res" where
  "glue_read_reg_by_addr dev addr v w =
     bindE (get_aurora_dev dev w) (\<lambda>adev. aurora_read_reg_by_addr adev addr v w)"

definition glue_backend_reset :: "ptr \<Rightarrow> ('m, 'z) aworld_scheme \<Rightarrow> ('m, 'z) aworld_scheme res" where
  "glue_backend_reset dev w =
     bindE (get_aurora_dev dev w) (\<lambda>adev. aurora_backend_reset adev w)"

definition glue_backend_init :: "(ptr \<times> AURORADevice) option \<Rightarrow> ptr \<Rightarrow> ('m, 'z) aworld_scheme
    \<Rightarrow> ('m, 'z) aworld_scheme res" where
  "glue_backend_init mres dev w = aurora_backend_init mres dev w"

definition glue_backend_fini :: "ptr \<Rightarrow> ('m, 'z) aworld_scheme \<Rightarrow> ('m, 'z) aworld_scheme res" where
  "glue_backend_fini dev w =
     bindE (get_aurora_dev dev w) (\<lambda>adev. aurora_backend_fini adev w)"

end
