(* ===== verification/Interfaces.thy ===== *)
theory Interfaces
  imports Prelude
begin

text \<open>
  Contracts that several components offer: a block of registers behind read and write handlers,
  and a state machine with an invariant. Both are interpreted on the handlers and step relations
  of the model.
\<close>

section \<open>Register blocks\<close>

text \<open>
  A write may be to any address and may have side effects or fault; a subset of the addresses are
  plain registers. They always accept a write, return what was written to them last, and no other
  access disturbs them.
\<close>

locale register_block =
  fixes wr :: "'a \<Rightarrow> 'v \<Rightarrow> 's \<Rightarrow> 's res"
    and rd :: "'a \<Rightarrow> 's \<Rightarrow> 'v res"
    and inv :: "'s \<Rightarrow> bool"
    and plain :: "'a \<Rightarrow> bool"
  assumes wr_plain: "inv s \<Longrightarrow> plain a \<Longrightarrow> \<exists>s'. wr a v s = Inr s'"
    and wr_inv: "inv s \<Longrightarrow> wr a v s = Inr s' \<Longrightarrow> inv s'"
    and rd_own: "inv s \<Longrightarrow> plain a \<Longrightarrow> wr a v s = Inr s' \<Longrightarrow> rd a s' = Inr v"
    and rd_other: "inv s \<Longrightarrow> plain b \<Longrightarrow> b \<noteq> a \<Longrightarrow> wr a v s = Inr s' \<Longrightarrow> rd b s' = rd b s"
begin

lemma writes_inv: "inv s \<Longrightarrow> foldE (\<lambda>(a, v). wr a v) xs s = Inr s' \<Longrightarrow> inv s'"
  by (induction xs arbitrary: s) (auto simp: res_simps dest: wr_inv)

text \<open>After any sequence of accesses a register holds the last value written to it.\<close>

lemma last_write:
  assumes "inv s" and "plain b" and "foldE (\<lambda>(a, v). wr a v) xs s = Inr s'"
  shows "rd b s' = (case map_of (rev xs) b of Some v \<Rightarrow> Inr v | None \<Rightarrow> rd b s)"
  using assms(1,3)
proof (induction xs arbitrary: s' rule: rev_induct)
  case Nil
  then show ?case by simp
next
  case (snoc x xs)
  obtain a v where x: "x = (a, v)" by (cases x)
  from snoc.prems(2) obtain t where t: "foldE (\<lambda>(a, v). wr a v) xs s = Inr t" "wr a v t = Inr s'"
    by (auto simp: foldE_append res_simps x)
  from snoc.prems(1) t(1) have "inv t" by (rule writes_inv)
  then have "rd b s' = (if a = b then Inr v else rd b t)"
    using rd_own[OF _ assms(2) _, of t v s'] rd_other[OF _ assms(2) _ t(2)] t(2) by auto
  with snoc.IH[OF snoc.prems(1) t(1)] show ?case by (simp add: x)
qed

text \<open>A sequence of writes to registers alone always completes.\<close>

lemma plain_writes_complete:
  assumes "inv s" and "\<And>a v. (a, v) \<in> set xs \<Longrightarrow> plain a"
  shows "\<exists>s'. foldE (\<lambda>(a, v). wr a v) xs s = Inr s' \<and> inv s'"
proof (rule foldE_total[where I = inv])
  show "\<exists>s'. (case x of (a, v) \<Rightarrow> wr a v) s = Inr s' \<and> inv s'" if "x \<in> set xs" "inv s" for x s
  proof -
    obtain a v where x: "x = (a, v)" by (cases x)
    with that assms(2) obtain s' where "wr a v s = Inr s'" using wr_plain by blast
    with that(2) show ?thesis using wr_inv x by auto
  qed
qed (rule assms(1))

end

section \<open>State machines\<close>

locale invariant_system =
  fixes start :: "'s \<Rightarrow> bool"
    and step :: "'s \<Rightarrow> 's \<Rightarrow> bool"
    and inv :: "'s \<Rightarrow> bool"
  assumes start_inv: "start s \<Longrightarrow> inv s"
    and step_inv: "inv s \<Longrightarrow> step s t \<Longrightarrow> inv t"
begin

lemma run_inv:
  assumes "step\<^sup>*\<^sup>* s t" and "inv s"
  shows "inv t"
  using assms by (induction rule: rtranclp_induct) (auto intro: step_inv)

lemma reachable_inv: "start s \<Longrightarrow> step\<^sup>*\<^sup>* s t \<Longrightarrow> inv t"
  by (rule run_inv) (auto intro: start_inv)

end

section \<open>Simulations\<close>

text \<open>Sequences of operations with results: of the code, which may fault, and of a specification.\<close>

fun runE :: "('o \<Rightarrow> 's \<Rightarrow> ('r \<times> 's) res) \<Rightarrow> 'o list \<Rightarrow> 's \<Rightarrow> ('r list \<times> 's) res" where
  "runE step [] s = Inr ([], s)"
| "runE step (x # xs) s = bindE (step x s) (\<lambda>(r, s). bindE (runE step xs s) (\<lambda>(rs, s). Inr (r # rs, s)))"

fun run_spec :: "('o \<Rightarrow> 'a \<Rightarrow> 'r \<times> 'a) \<Rightarrow> 'o list \<Rightarrow> 'a \<Rightarrow> 'r list \<times> 'a" where
  "run_spec spec [] t = ([], t)"
| "run_spec spec (x # xs) t = (let (r, t) = spec x t; (rs, t) = run_spec spec xs t in (r # rs, t))"

text \<open>
  Operations that never fault in a state with the invariant and answer as the specification
  does, through an abstraction function.
\<close>

locale simulation =
  fixes step :: "'o \<Rightarrow> 's \<Rightarrow> ('r \<times> 's) res"
    and spec :: "'o \<Rightarrow> 'a \<Rightarrow> 'r \<times> 'a"
    and absf :: "'s \<Rightarrow> 'a"
    and inv :: "'s \<Rightarrow> bool"
    and ok :: "'o \<Rightarrow> bool"
  assumes sim: "inv s \<Longrightarrow> ok x \<Longrightarrow> \<exists>r s'. step x s = Inr (r, s') \<and> spec x (absf s) = (r, absf s') \<and> inv s'"
begin

lemma runs:
  assumes "inv s" and "list_all ok xs"
  shows "\<exists>rs s'. runE step xs s = Inr (rs, s') \<and> run_spec spec xs (absf s) = (rs, absf s') \<and> inv s'"
  using assms
proof (induction xs arbitrary: s)
  case (Cons x xs)
  then obtain r s1 where s1: "step x s = Inr (r, s1)" "spec x (absf s) = (r, absf s1)" "inv s1"
    using sim by fastforce
  with Cons obtain rs s2 where "runE step xs s1 = Inr (rs, s2)" "run_spec spec xs (absf s1) = (rs, absf s2)" "inv s2"
    by fastforce
  with s1 show ?case by simp
qed simp

end

end
