(* ===== verification/Bars.thy ===== *)
theory Bars
  imports Glue Interfaces
begin

text \<open>
  The three base address registers of the front end: \<open>src/pciemu/front_end/regbar.c\<close>,
  \<open>internal_bar.c\<close> and \<open>membar.c\<close>. The handlers are what QEMU's memory core calls for an access of
  the guest; their \<open>size\<close> argument is not used by the source.
\<close>

section \<open>Handlers\<close>

definition pciemu_regbar_read :: "ptr \<Rightarrow> u64 \<Rightarrow> nat \<Rightarrow> ('m, 'z) aworld_scheme \<Rightarrow> u64 res" where
  "pciemu_regbar_read dev addr sz w =
     bindE (glue_read_reg_by_addr dev addr (Some (NOT 0)) w) (\<lambda>(_, v). Inr (the v))"

definition pciemu_regbar_write :: "'m qemu \<Rightarrow> ptr \<Rightarrow> u64 \<Rightarrow> u64 \<Rightarrow> nat \<Rightarrow> ('m, 'z) aworld_scheme
    \<Rightarrow> ('m, 'z) aworld_scheme res" where
  "pciemu_regbar_write q dev addr v sz w =
     bindE (glue_write_reg_by_addr q dev addr v w) (\<lambda>(_, w). Inr w)"

definition pciemu_internal_bar_read :: "ptr \<Rightarrow> u64 \<Rightarrow> nat \<Rightarrow> ('m, 'z) aworld_scheme \<Rightarrow> u64 res" where
  "pciemu_internal_bar_read dev addr sz w =
     bindE (glue_read_reg_by_addr dev addr (Some (NOT 0)) w) (\<lambda>(_, v). Inr (the v))"

definition pciemu_internal_bar_write :: "'m qemu \<Rightarrow> ptr \<Rightarrow> u64 \<Rightarrow> u64 \<Rightarrow> nat
    \<Rightarrow> ('m, 'z) aworld_scheme \<Rightarrow> ('m, 'z) aworld_scheme res" where
  "pciemu_internal_bar_write q dev addr v sz w =
     bindE (glue_write_reg_by_addr q dev addr v w) (\<lambda>(_, w). Inr w)"

definition pciemu_membar_read :: "'m host \<Rightarrow> mem_rw_req \<Rightarrow> ptr \<Rightarrow> u64 \<Rightarrow> nat
    \<Rightarrow> ('m, 'z) world_scheme \<Rightarrow> (u64 \<times> ('m, 'z) world_scheme) res" where
  "pciemu_membar_read h junk dev addr sz w =
     bindE (glue_read_devmem_by_addr h junk dev addr (Some (NOT 0)) w) (\<lambda>(_, v, w). Inr (the v, w))"

definition pciemu_membar_write :: "'m host \<Rightarrow> mem_rw_req \<Rightarrow> ptr \<Rightarrow> u64 \<Rightarrow> u64 \<Rightarrow> nat
    \<Rightarrow> ('m, 'z) world_scheme \<Rightarrow> ('m, 'z) world_scheme res" where
  "pciemu_membar_write h junk dev addr v sz w =
     bindE (glue_write_devmem_by_addr h junk dev addr v w) (\<lambda>(_, w). Inr w)"

section \<open>Reset, initialisation, removal\<close>

definition pciemu_regbar_reset :: "ptr \<Rightarrow> 'w \<Rightarrow> 'w" where
  "pciemu_regbar_reset dev w = w"

definition pciemu_internal_bar_reset :: "ptr \<Rightarrow> 'w \<Rightarrow> 'w" where
  "pciemu_internal_bar_reset dev w = w"

definition pciemu_membar_reset :: "ptr \<Rightarrow> 'w \<Rightarrow> 'w" where
  "pciemu_membar_reset dev w = w"

text \<open>
  The type of a BAR is assembled from the width and the prefetch flag of the hardware header; a
  width that is neither 32 nor 64 falls back to 64 bits for the memory BAR and to 32 bits for the
  other two.
\<close>

definition regbar_type :: "'m qemu \<Rightarrow> u8" where
  "regbar_type q =
     (let t = pci_space_memory q;
          t = (if PCIEMU_HW_REG_BAR_WIDE = 64 then t OR pci_mem_type_64 q
               else if PCIEMU_HW_REG_BAR_WIDE = 32 then t OR pci_mem_type_32 q
               else t OR pci_mem_type_32 q)
      in if PCIEMU_HW_REG_BAR_PREFETCHABLE \<noteq> 0 then t OR pci_mem_prefetch q else t)"

definition internal_bar_type :: "'m qemu \<Rightarrow> u8" where
  "internal_bar_type q =
     (let t = pci_space_memory q;
          t = (if PCIEMU_HW_INT_BAR_WIDE = 64 then t OR pci_mem_type_64 q
               else if PCIEMU_HW_INT_BAR_WIDE = 32 then t OR pci_mem_type_32 q
               else t OR pci_mem_type_32 q)
      in if PCIEMU_HW_INT_BAR_PREFETCHABLE \<noteq> 0 then t OR pci_mem_prefetch q else t)"

definition membar_type :: "'m qemu \<Rightarrow> u8" where
  "membar_type q =
     (let t = pci_space_memory q;
          t = (if PCIEMU_HW_MEM_BAR_WIDE = 64 then t OR pci_mem_type_64 q
               else if PCIEMU_HW_MEM_BAR_WIDE = 32 then t OR pci_mem_type_32 q
               else t OR pci_mem_type_64 q)
      in if PCIEMU_HW_MEM_BAR_PREFETCHABLE \<noteq> 0 then t OR pci_mem_prefetch q else t)"

definition pciemu_regbar_init :: "'m qemu \<Rightarrow> ptr \<Rightarrow> ptr \<Rightarrow> ('m, 'z) qworld_scheme
    \<Rightarrow> ('m, 'z) qworld_scheme res" where
  "pciemu_regbar_init q dev errp w =
     bindE (deref (pdevs w) dev) (\<lambda>_.
       Inr (on_machine (pci_register_bar q dev PCIEMU_HW_REG_BAR (regbar_type q) Reg_region)
             (on_machine (memory_region_init_io q dev Reg_region Regbar_ops ''pciemu-reg''
                            PCIEMU_HW_REG_BAR_SIZE) w)))"

definition pciemu_internal_bar_init :: "'m qemu \<Rightarrow> ptr \<Rightarrow> ptr \<Rightarrow> ('m, 'z) qworld_scheme
    \<Rightarrow> ('m, 'z) qworld_scheme res" where
  "pciemu_internal_bar_init q dev errp w =
     bindE (deref (pdevs w) dev) (\<lambda>_.
       Inr (on_machine (pci_register_bar q dev PCIEMU_HW_INT_BAR (internal_bar_type q) Internal_region)
             (on_machine (memory_region_init_io q dev Internal_region Internal_bar_ops
                            ''pciemu-internal'' PCIEMU_HW_INT_BAR_SIZE) w)))"

definition pciemu_membar_init :: "'m qemu \<Rightarrow> ptr \<Rightarrow> ptr \<Rightarrow> ('m, 'z) qworld_scheme
    \<Rightarrow> ('m, 'z) qworld_scheme res" where
  "pciemu_membar_init q dev errp w =
     bindE (deref (pdevs w) dev) (\<lambda>_.
       Inr (on_machine (pci_register_bar q dev PCIEMU_HW_MEM_BAR (membar_type q) Dmem_region)
             (on_machine (memory_region_init_io q dev Dmem_region Membar_ops ''pciemu-dmem''
                            PCIEMU_HW_MEM_BAR_SIZE) w)))"

definition pciemu_regbar_fini :: "ptr \<Rightarrow> 'w \<Rightarrow> 'w" where
  "pciemu_regbar_fini dev w = pciemu_regbar_reset dev w"

definition pciemu_internal_bar_fini :: "ptr \<Rightarrow> 'w \<Rightarrow> 'w" where
  "pciemu_internal_bar_fini dev w = pciemu_internal_bar_reset dev w"

definition pciemu_membar_fini :: "ptr \<Rightarrow> 'w \<Rightarrow> 'w" where
  "pciemu_membar_fini dev w = pciemu_membar_reset dev w"

section \<open>The operation tables\<close>

text \<open>
  \<open>MemoryRegionOps\<close>: QEMU lets an access through to a handler only when its size lies between the
  bounds of \<open>valid\<close>.
\<close>

record 'w mr_ops =
  mr_read :: "ptr \<Rightarrow> u64 \<Rightarrow> nat \<Rightarrow> 'w \<Rightarrow> (u64 \<times> 'w) res"
  mr_write :: "ptr \<Rightarrow> u64 \<Rightarrow> u64 \<Rightarrow> nat \<Rightarrow> 'w \<Rightarrow> 'w res"
  valid_min :: nat
  valid_max :: nat
  impl_min :: nat
  impl_max :: nat

definition pciemu_regbar_ops :: "'m qemu \<Rightarrow> ('m, 'z) world_scheme mr_ops" where
  "pciemu_regbar_ops q =
     \<lparr>mr_read = (\<lambda>dev addr sz w. bindE (pciemu_regbar_read dev addr sz w) (\<lambda>v. Inr (v, w))),
      mr_write = pciemu_regbar_write q,
      valid_min = 4, valid_max = 8, impl_min = 4, impl_max = 8\<rparr>"

definition pciemu_internal_bar_ops :: "'m qemu \<Rightarrow> ('m, 'z) world_scheme mr_ops" where
  "pciemu_internal_bar_ops q =
     \<lparr>mr_read = (\<lambda>dev addr sz w. bindE (pciemu_internal_bar_read dev addr sz w) (\<lambda>v. Inr (v, w))),
      mr_write = pciemu_internal_bar_write q,
      valid_min = 4, valid_max = 8, impl_min = 4, impl_max = 8\<rparr>"

definition pciemu_membar_ops :: "'m host \<Rightarrow> mem_rw_req \<Rightarrow> ('m, 'z) world_scheme mr_ops" where
  "pciemu_membar_ops h junk =
     \<lparr>mr_read = pciemu_membar_read h junk,
      mr_write = pciemu_membar_write h junk,
      valid_min = 4, valid_max = 8, impl_min = 4, impl_max = 8\<rparr>"


section \<open>Accesses to a working device\<close>

definition dev_ok :: "ptr \<Rightarrow> ('m, 'z) aworld_scheme \<Rightarrow> bool" where
  "dev_ok dev w \<longleftrightarrow> (\<exists>adev. linked dev adev w)"

lemma get_aurora_dev_linked: "linked dev adev w \<Longrightarrow> get_aurora_dev dev w = Inr adev"
  by (auto simp: linked_def get_aurora_dev_def)

lemma regbar_write_linked:
  "linked dev adev w \<Longrightarrow> pciemu_regbar_write q dev addr v sz w =
     bindE (aurora_write_reg_by_addr q adev addr v w) (\<lambda>(_, w). Inr w)"
  by (simp add: pciemu_regbar_write_def glue_write_reg_by_addr_def get_aurora_dev_linked)

text \<open>What a read returns: a scratch register, all ones elsewhere in the BAR, a marker outside.\<close>

definition reg_read_value :: "u64 \<Rightarrow> u64 list \<Rightarrow> u64" where
  "reg_read_value addr rs =
     (case reg_index addr of
        Some i \<Rightarrow> rs ! i
      | None \<Rightarrow> if aurora_regbar_valid_access addr then NOT 0 else 0xdeadbeef)"

lemma regbar_read_linked:
  assumes "linked dev adev w" and "adevs w adev = Some a"
  shows "pciemu_regbar_read dev addr sz w = Inr (reg_read_value addr (regs a))"
proof -
  from assms have nn: "adev \<noteq> NULL" by (simp add: linked_def)
  have "aurora_regbar_valid_access addr" if "reg_index addr \<noteq> None"
    using that by (auto simp: reg_index_def aurora_regbar_valid_access_def hw_defs split: if_splits)
  then show ?thesis
    using assms nn
    by (auto simp: pciemu_regbar_read_def glue_read_reg_by_addr_def get_aurora_dev_linked
        aurora_read_reg_by_addr_def reg_read_value_def reg_index_def)
qed

lemma internal_bar_same:
  "pciemu_internal_bar_write q dev addr v sz w = pciemu_regbar_write q dev addr v sz w"
  "pciemu_internal_bar_read dev addr sz w = pciemu_regbar_read dev addr sz w"
  by (simp_all add: pciemu_internal_bar_write_def pciemu_regbar_write_def
      pciemu_internal_bar_read_def pciemu_regbar_read_def)

lemma regbar_write_effect:
  assumes l: "linked dev adev w" and a: "adevs w adev = Some a"
    and r: "pciemu_regbar_write q dev addr v sz w = Inr w'"
  shows "linked dev adev w' \<and> touches dev adev w w' \<and>
    (\<exists>a'. adevs w' adev = Some a' \<and>
       regs a' = (case reg_index addr of Some i \<Rightarrow> (regs a)[i := v] | None \<Rightarrow> regs a) \<and>
       (status (dma a) = DMA_STATUS_IDLE \<longrightarrow> status (dma a') = DMA_STATUS_IDLE))"
proof -
  from r obtain rc where "aurora_write_reg_by_addr q adev addr v w = Inr (rc, w')"
    by (auto simp: regbar_write_linked[OF l] res_simps)
  then show ?thesis by (rule write_reg_linked[OF l a])
qed

lemma dev_okE:
  assumes "dev_ok dev w"
  obtains adev a where "linked dev adev w" and "adevs w adev = Some a"
    and "length (regs a) = AURORA_HW_REGBAR_REG_CNT"
proof -
  from assms obtain adev where l: "linked dev adev w" by (auto simp: dev_ok_def)
  then obtain a where "adevs w adev = Some a" "length (regs a) = AURORA_HW_REGBAR_REG_CNT"
    by (auto simp: linked_def)
  with l show thesis by (rule that)
qed

lemma regbar_laws:
  assumes ok: "dev_ok dev w"
  shows "reg_index a \<noteq> None \<Longrightarrow> \<exists>w'. pciemu_regbar_write q dev a v sz w = Inr w'"
    and "pciemu_regbar_write q dev a v sz w = Inr w' \<Longrightarrow> dev_ok dev w'"
    and "reg_index b \<noteq> None \<Longrightarrow> pciemu_regbar_write q dev a v sz w = Inr w' \<Longrightarrow>
      pciemu_regbar_read dev b sz' w' = (if b = a then Inr v else pciemu_regbar_read dev b sz' w)"
proof -
  from ok obtain adev x where l: "linked dev adev w" and x: "adevs w adev = Some x"
    and len: "length (regs x) = AURORA_HW_REGBAR_REG_CNT"
    by (rule dev_okE)
  show "\<exists>w'. pciemu_regbar_write q dev a v sz w = Inr w'" if "reg_index a \<noteq> None"
    using that by (auto simp: regbar_write_linked[OF l] write_scratch[OF l x])
  assume r: "pciemu_regbar_write q dev a v sz w = Inr w'"
  note eff = regbar_write_effect[OF l x r]
  then show "dev_ok dev w'" by (auto simp: dev_ok_def)
  assume b: "reg_index b \<noteq> None"
  from eff obtain x' where l': "linked dev adev w'" and x': "adevs w' adev = Some x'"
    and rs: "regs x' = (case reg_index a of Some i \<Rightarrow> (regs x)[i := v] | None \<Rightarrow> regs x)"
    by auto
  obtain j where j: "reg_index b = Some j" "j < length (regs x)"
    using b len reg_index_lt by (metis option.exhaust)
  have "reg_index a \<noteq> Some j" if "b \<noteq> a"
    using that j(1) reg_index_inj by blast
  then have "reg_read_value b (regs x') = (if b = a then v else reg_read_value b (regs x))"
    using j rs by (cases "b = a") (simp_all add: reg_read_value_def split: option.splits)
  then show "pciemu_regbar_read dev b sz' w' = (if b = a then Inr v else pciemu_regbar_read dev b sz' w)"
    by (simp add: regbar_read_linked[OF l x] regbar_read_linked[OF l' x'])
qed

interpretation regbar: register_block
  "\<lambda>a v. pciemu_regbar_write q dev a v sz" "\<lambda>a. pciemu_regbar_read dev a sz"
  "dev_ok dev" "\<lambda>a. reg_index a \<noteq> None"
  for q dev sz
  by unfold_locales (simp_all add: regbar_laws)

interpretation internal_bar: register_block
  "\<lambda>a v. pciemu_internal_bar_write q dev a v sz" "\<lambda>a. pciemu_internal_bar_read dev a sz"
  "dev_ok dev" "\<lambda>a. reg_index a \<noteq> None"
  for q dev sz
  by unfold_locales (simp_all add: regbar_laws internal_bar_same)

section \<open>Properties of the register BARs\<close>

text \<open>One guest write through the internal BAR (first component) or the register BAR.\<close>

definition bar_write :: "'m qemu \<Rightarrow> ptr \<Rightarrow> nat \<Rightarrow> bool \<times> u64 \<times> u64 \<Rightarrow> ('m, 'z) aworld_scheme
    \<Rightarrow> ('m, 'z) aworld_scheme res" where
  "bar_write q dev sz x w =
     (case x of (internal, addr, v) \<Rightarrow>
        if internal then pciemu_internal_bar_write q dev addr v sz w
        else pciemu_regbar_write q dev addr v sz w)"

lemma bar_writes_eq:
  "foldE (bar_write q dev sz) xs w =
     foldE (\<lambda>(a, v). pciemu_regbar_write q dev a v sz) (map snd xs) w"
  by (induction xs arbitrary: w)
    (auto simp: bar_write_def internal_bar_same split: prod.splits cong: bindE_cong)

lemma sample_dev_ok: "dev_ok 16 (sample_aworld sample_adev)"
  using sample_adev_linked by (auto simp: dev_ok_def)



lemma regbar_write_fails_iff:
  assumes l: "linked dev adev w" and a: "adevs w adev = Some a"
    and idle: "status (dma a) = DMA_STATUS_IDLE"
  shows "(\<exists>f. pciemu_regbar_write q dev addr v sz w = Inl f) \<longleftrightarrow>
      addr = AURORA_HW_REG_DMA_DOORBELL_RING \<and> dma_classify (config (dma a)) = Dma_overflow"
proof -
  note wr = regbar_write_linked[OF l]
  consider (bell) "addr = AURORA_HW_REG_DMA_DOORBELL_RING"
    | (cfg) "addr \<noteq> AURORA_HW_REG_DMA_DOORBELL_RING" "aurora_dma_valid_access addr"
    | (scratch) i where "addr \<noteq> AURORA_HW_REG_DMA_DOORBELL_RING" "reg_index addr = Some i"
    | (rest) "addr \<noteq> AURORA_HW_REG_DMA_DOORBELL_RING" "\<not> aurora_dma_valid_access addr"
        "reg_index addr = None"
    by (cases "reg_index addr") blast+
  then show ?thesis
  proof cases
    case bell
    have v: "aurora_dma_valid_access AURORA_HW_REG_DMA_DOORBELL_RING"
      by (simp add: aurora_dma_valid_access_def hw_defs)
    show ?thesis
      by (simp add: bell wr write_dma_reg[OF v] dma_reg_write_doorbell bindE_assoc
          doorbell_returns_iff[OF l a] idle)
  next
    case cfg
    then show ?thesis by (simp add: wr write_dma_reg dma_reg_write_cfg[OF l a])
  next
    case (scratch i)
    then show ?thesis by (simp add: wr write_scratch[OF l a])
  next
    case rest
    with raise_linked[OF l, of q 0] lower_linked[OF l, of q 0] show ?thesis
      by (auto simp: wr aurora_write_reg_by_addr_def reg_index_None get_pciemu_dev_linked[OF l] dma_range_iff)
  qed
qed

text \<open>
  C16. A guest write to the register BAR of a device with an idle engine faults for one reason only: it
  rings the doorbell of a transfer that was programmed to run past the DMA buffer. Every other
  write of the BAR, whatever its offset and value, returns, and the device is still well formed
  after it.
\<close>

theorem regbar_write_fault_iff:
  assumes l: "linked dev adev w" and a: "adevs w adev = Some a"
    and idle: "status (dma a) = DMA_STATUS_IDLE"
  shows "((\<exists>f. pciemu_regbar_write q dev addr v sz w = Inl f) \<longleftrightarrow>
      addr = AURORA_HW_REG_DMA_DOORBELL_RING \<and> dma_classify (config (dma a)) = Dma_overflow) \<and>
    (\<forall>w'. pciemu_regbar_write q dev addr v sz w = Inr w' \<longrightarrow> linked dev adev w')"
proof (intro conjI allI impI)
  show "linked dev adev w'" if "pciemu_regbar_write q dev addr v sz w = Inr w'" for w'
    using regbar_write_effect[OF l a that] by blast
qed (rule regbar_write_fails_iff[OF assms])

theorem regbar_write_fault_iff_witness:
  "\<not> (\<exists>f. pciemu_regbar_write sample_qemu 16 AURORA_HW_REG_DMA_DOORBELL_RING 1 4
            (sample_aworld sample_adev) = Inl f)"
  using regbar_write_fault_iff[OF sample_adev_linked, of sample_adev sample_qemu
      AURORA_HW_REG_DMA_DOORBELL_RING 1 4]
  by (simp add: sample_engine_class) (simp add: sample_engine_def)

text \<open>
  What the guest reads: a read of the register BAR or the internal BAR of a working device never
  faults and never changes anything; at the offsets 0, 8, 16 and 24 it returns the scratch
  register, at every other offset up to the size of the register BAR all ones, and beyond it the
  marker \<open>0xdeadbeef\<close>.
\<close>

lemma bar_read_decode:
  assumes l: "linked dev adev w" and a: "adevs w adev = Some a"
  shows "pciemu_regbar_read dev addr sz w =
      Inr (if unat addr \<in> {0, 8, 16, 24} then regs a ! (unat addr div 8)
           else if unat addr \<le> 0x8000000 then 0xFFFFFFFFFFFFFFFF else 0xdeadbeef) \<and>
    pciemu_internal_bar_read dev addr sz w = pciemu_regbar_read dev addr sz w"
proof -
  have "reg_index addr = (if unat addr \<in> {0, 8, 16, 24} then Some (unat addr div 8) else None)"
    by (auto simp: reg_index_def hw_defs word_unat_eq_iff)
  moreover have "aurora_regbar_valid_access addr \<longleftrightarrow> unat addr \<le> 0x8000000"
    by (simp add: aurora_regbar_valid_access_def hw_defs word_le_nat_alt)
  ultimately show ?thesis
    by (simp add: regbar_read_linked[OF l a] reg_read_value_def internal_bar_same)
qed


text \<open>Two devices side by side; the first is about to start a transfer.\<close>

definition sample_pair :: "sample aworld" where
  "sample_pair = (sample_aworld sample_adev)
     \<lparr>pdevs := [16 \<mapsto> zero_device\<lparr>backend := 32\<rparr>, 48 \<mapsto> zero_device\<lparr>backend := 64\<rparr>],
      adevs := [32 \<mapsto> sample_adev, 64 \<mapsto> sample_adev\<lparr>parent := 48\<rparr>]\<rparr>"

lemma sample_pair_linked: "linked 16 32 sample_pair" "linked 48 64 sample_pair"
  by (simp_all add: sample_pair_def linked_def zero_device_def wf_irq_def hw_defs)


text \<open>
  C25. Device memory over the repository's own server: on an open connection to it, a guest read of the
  memory BAR returns the address that was read, a guest write succeeds, no access changes a device, and
  a read after a write of the same address still returns the address, not the value
  written: the server stores nothing.
\<close>

theorem membar_with_server:
  assumes l: "linked dev adev w" and sock: "stream_socket h pend server_serve"
    and fd: "0 \<le> fd w" and empty: "pend (machine w) = []"
  shows "\<exists>w1 w2. pciemu_membar_write h junk dev addr v sz w = Inr w1 \<and>
    pciemu_membar_read h junk' dev addr sz w1 = Inr (addr, w2) \<and>
    pdevs w2 = pdevs w \<and> adevs w2 = adevs w \<and> pend (machine w2) = []"
proof -
  obtain w1 where w1: "tcp_send_mem_write_req h junk addr v w = Inr (0, w1)" "pend (machine w1) = []"
    using tcp_server.client_write[OF sock fd empty] by blast
  have f1: "client_frame w w1" by (rule write_req_frame[OF w1(1)])
  have fd1: "0 \<le> fd w1" using write_returns[OF fd, of h junk addr v] w1(1) fd by auto
  obtain w2 where w2: "tcp_send_mem_read_req h junk' addr (Some (NOT 0)) w1 = Inr (0, Some addr, w2)"
    "pend (machine w2) = []"
    using tcp_server.client_read[OF sock fd1 w1(2)] by blast
  have f2: "client_frame w1 w2" by (rule read_req_frame[OF w2(1)])
  from l f1 have l1: "linked dev adev w1" by (simp add: linked_def client_frame_def)
  show ?thesis
    using w1 w2 f1 f2
    by (simp add: pciemu_membar_write_def pciemu_membar_read_def glue_write_devmem_by_addr_def
        glue_read_devmem_by_addr_def get_aurora_dev_linked[OF l] get_aurora_dev_linked[OF l1]
        aurora_write_devmem_by_addr_def aurora_read_devmem_by_addr_def client_frame_def)
qed

theorem membar_with_server_witness:
  "\<exists>w1 w2. pciemu_membar_write (sample_host server_serve None 0) zero_req 16 0x40 0xABCD 8 (sample_world 3)
      = Inr w1 \<and>
    pciemu_membar_read (sample_host server_serve None 0) zero_req 16 0x40 8 w1 = Inr (0x40, w2)"
  using membar_with_server[OF sample_world_linked sample_stream, of 3 None 0 zero_req "0x40" "0xABCD" 8 zero_req]
  by auto

end
