(* ===== verification/Device.thy ===== *)
theory Device
  imports Bars
begin

text \<open>
  The device as QEMU sees it, \<open>src/pciemu/front_end/pciemu.c\<close>: realisation, removal, reset, and the
  class it registers.
\<close>

section \<open>Life cycle\<close>

definition pciemu_reset :: "'m qemu \<Rightarrow> ptr \<Rightarrow> ('m, 'z) aworld_scheme \<Rightarrow> ('m, 'z) aworld_scheme res" where
  "pciemu_reset q dev w =
     bindE (pciemu_irq_reset q dev
              (pciemu_membar_reset dev (pciemu_internal_bar_reset dev (pciemu_regbar_reset dev w))))
       (\<lambda>w. glue_backend_reset dev w)"

definition pciemu_device_init :: "'m qemu \<Rightarrow> (ptr \<times> AURORADevice) option \<Rightarrow> ptr \<Rightarrow> ptr
    \<Rightarrow> ('m, 'z) aworld_scheme \<Rightarrow> ('m, 'z) aworld_scheme res" where
  "pciemu_device_init q mres dev errp w =
     bindE (pciemu_regbar_init q dev errp w) (\<lambda>w.
     bindE (pciemu_internal_bar_init q dev errp w) (\<lambda>w.
     bindE (pciemu_membar_init q dev errp w) (\<lambda>w.
     bindE (pciemu_irq_init q dev errp w) (\<lambda>w.
       glue_backend_init mres dev w))))"

definition pciemu_device_fini :: "'m qemu \<Rightarrow> ptr \<Rightarrow> ('m, 'z) aworld_scheme
    \<Rightarrow> ('m, 'z) aworld_scheme res" where
  "pciemu_device_fini q dev w =
     bindE (glue_backend_fini dev w) (\<lambda>w.
     bindE (pciemu_irq_fini q dev w) (\<lambda>w.
       Inr (pciemu_regbar_fini dev (pciemu_internal_bar_fini dev (pciemu_membar_fini dev w)))))"

definition pciemu_device_reset :: "'m qemu \<Rightarrow> ptr \<Rightarrow> ('m, 'z) aworld_scheme
    \<Rightarrow> ('m, 'z) aworld_scheme res" where
  "pciemu_device_reset q dev w = pciemu_reset q dev w"

section \<open>Class registration\<close>

text \<open>
  The handlers of the class are named, not embedded; \<open>class_others\<close> and \<open>category_misc\<close> stand for
  the constants of QEMU the class uses.
\<close>

datatype handler = Pciemu_device_init | Pciemu_device_fini | Pciemu_device_reset

record pciemu_class =
  realize :: handler
  exit_handler :: handler
  vendor_id :: u16
  device_id :: u16
  revision :: u8
  class_id :: u16
  categories :: "nat set"
  desc :: string
  reset_handler :: handler

definition pciemu_class_init :: "u16 \<Rightarrow> nat \<Rightarrow> pciemu_class \<Rightarrow> pciemu_class" where
  "pciemu_class_init class_others category_misc k =
     k\<lparr>realize := Pciemu_device_init, exit_handler := Pciemu_device_fini,
       vendor_id := PCIEMU_HW_VENDOR_ID, device_id := PCIEMU_HW_DEVICE_ID,
       revision := PCIEMU_HW_REVISION, class_id := class_others,
       categories := insert category_misc (categories k),
       desc := ''PCIEMU Device'', reset_handler := Pciemu_device_reset\<rparr>"

text \<open>
  \<open>TypeInfo\<close>: names of QEMU's types, the size of the object and QEMU's registration function are
  parameters.
\<close>

record type_info =
  type_name :: string
  type_parent :: string
  instance_size :: nat
  type_class_init :: "pciemu_class \<Rightarrow> pciemu_class"
  interfaces :: "string list"

definition pciemu_info :: "string \<Rightarrow> string \<Rightarrow> nat \<Rightarrow> u16 \<Rightarrow> nat \<Rightarrow> type_info" where
  "pciemu_info type_pci_device interface_pcie sz class_others category_misc =
     \<lparr>type_name = ''pciemu'', type_parent = type_pci_device, instance_size = sz,
      type_class_init = pciemu_class_init class_others category_misc, interfaces = [interface_pcie]\<rparr>"

definition pciemu_register_types :: "(type_info \<Rightarrow> 'm \<Rightarrow> 'm) \<Rightarrow> type_info \<Rightarrow> 'm \<Rightarrow> 'm" where
  "pciemu_register_types type_register_static info m = type_register_static info m"


section \<open>The heap of device objects\<close>

text \<open>
  Every live front-end object is well formed and, when it has a back end, linked to it; every live
  back-end object belongs to a front-end object, so none is leaked.
\<close>

definition heap_ok :: "('m, 'z) aworld_scheme \<Rightarrow> bool" where
  "heap_ok w \<longleftrightarrow>
     (\<forall>dev d. pdevs w dev = Some d \<longrightarrow> dev \<noteq> NULL \<and> wf_irq (irq d) \<and>
        (backend d \<noteq> NULL \<longrightarrow> linked dev (backend d) w)) \<and>
     (\<forall>adev a. adevs w adev = Some a \<longrightarrow> adev \<noteq> NULL \<and>
        (\<exists>d. pdevs w (parent a) = Some d \<and> backend d = adev))"

lemma heap_ok_eqI:
  assumes "heap_ok w" and "pdevs w' = pdevs w" and "adevs w' = adevs w"
  shows "heap_ok w'"
proof -
  from assms(2,3) have "linked x y w' = linked x y w" for x y by (simp add: linked_def)
  with assms show ?thesis by (simp add: heap_ok_def)
qed

lemma linked_other:
  assumes "linked dev adev w" and "linked dev' adev' w" and "dev' \<noteq> dev"
    and "touches dev adev w w'"
  shows "linked dev' adev' w'" and "adev' \<noteq> adev"
proof -
  show ne: "adev' \<noteq> adev"
    using assms(1-3) by (auto simp: linked_def)
  with assms(2-4) show "linked dev' adev' w'"
    by (simp add: linked_def touches_def)
qed

text \<open>An operation that touches one linked device and keeps its link keeps the whole heap.\<close>

lemma heap_ok_touches:
  assumes ok: "heap_ok w" and l: "linked dev adev w" and t: "touches dev adev w w'"
    and l': "linked dev adev w'"
  shows "heap_ok w'"
  unfolding heap_ok_def
proof (rule conjI; intro allI impI)
  fix p d assume d: "pdevs w' p = Some d"
  show "p \<noteq> NULL \<and> wf_irq (irq d) \<and> (backend d \<noteq> NULL \<longrightarrow> linked p (backend d) w')"
  proof (cases "p = dev")
    case True
    with l' d show ?thesis by (auto simp: linked_def)
  next
    case False
    with t d have "pdevs w p = Some d" by (simp add: touches_def)
    with ok have "p \<noteq> NULL" "wf_irq (irq d)" "backend d \<noteq> NULL \<longrightarrow> linked p (backend d) w"
      by (auto simp: heap_ok_def)
    with linked_other(1)[OF l _ False t] show ?thesis by blast
  qed
next
  fix p a assume a: "adevs w' p = Some a"
  show "p \<noteq> NULL \<and> (\<exists>d. pdevs w' (parent a) = Some d \<and> backend d = p)"
  proof (cases "p = adev")
    case True
    with l' a show ?thesis by (auto simp: linked_def)
  next
    case False
    with t a have "adevs w p = Some a" by (simp add: touches_def)
    with ok obtain d where d: "p \<noteq> NULL" "pdevs w (parent a) = Some d" "backend d = p"
      unfolding heap_ok_def by blast
    with False l have "parent a \<noteq> dev" by (auto simp: linked_def)
    with t d show ?thesis by (simp add: touches_def)
  qed
qed

section \<open>Life cycle of a device\<close>

text \<open>What \<open>malloc\<close> may return: nothing, or a fresh object with the sizes of its C type.\<close>

definition malloc_ok :: "('m, 'z) aworld_scheme \<Rightarrow> (ptr \<times> AURORADevice) option \<Rightarrow> bool" where
  "malloc_ok w mres \<longleftrightarrow>
     (case mres of None \<Rightarrow> True
      | Some (p, c) \<Rightarrow> p \<noteq> NULL \<and> adevs w p = None \<and>
          length (buff (dma c)) = unat AURORA_HW_DMA_AREA_SIZE \<and>
          length (regs c) = AURORA_HW_REGBAR_REG_CNT)"

text \<open>Realisation before the back end changes only QEMU's own state and the log.\<close>

definition only_machine :: "('m, 'z) qworld_scheme \<Rightarrow> ('m, 'z) qworld_scheme \<Rightarrow> bool" where
  "only_machine w w' \<longleftrightarrow> pdevs w' = pdevs w \<and> qworld.more w' = qworld.more w"

lemma only_machine_refl [simp]: "only_machine w w"
  by (simp add: only_machine_def)

lemma only_machine_step [simp]:
  "only_machine w (on_machine f w') = only_machine w w'"
  "only_machine w (qemu_log_mask e w') = only_machine w w'"
  "only_machine w (w'\<lparr>machine := m\<rparr>) = only_machine w w'"
  by (auto simp: only_machine_def on_machine_def qemu_log_mask_def)

lemma only_machine_fold [simp]:
  "only_machine w (fold (\<lambda>i. on_machine (f i)) xs w') = only_machine w w'"
  by (induction xs arbitrary: w') auto

lemma only_machine_adevs:
  fixes w :: "('m, 'z) aworld_scheme"
  assumes "only_machine w w'"
  shows "pdevs w' = pdevs w \<and> adevs w' = adevs w \<and> aworld.more w' = aworld.more w"
  using assms by (cases w; cases w') (simp add: only_machine_def)

lemma irq_init_machine:
  assumes "dev \<noteq> NULL" and "pdevs w dev = Some d"
  shows "\<exists>w'. pciemu_irq_init q dev errp w = Inr w' \<and> only_machine w w'"
  using assms
  by (auto simp: pciemu_irq_init_def pciemu_irq_init_msix_def pciemu_irq_init_msi_def
      pciemu_irq_init_intx_def Let_def split: prod.splits)

lemma front_end_init:
  assumes "dev \<noteq> NULL" and "pdevs w dev = Some d"
  shows "\<exists>w'. only_machine w w' \<and>
    pciemu_device_init q mres dev errp w = glue_backend_init mres dev w'"
proof -
  let ?u = "on_machine (pci_register_bar q dev PCIEMU_HW_MEM_BAR (membar_type q) Dmem_region)
      (on_machine (memory_region_init_io q dev Dmem_region Membar_ops ''pciemu-dmem'' PCIEMU_HW_MEM_BAR_SIZE)
      (on_machine (pci_register_bar q dev PCIEMU_HW_INT_BAR (internal_bar_type q) Internal_region)
      (on_machine (memory_region_init_io q dev Internal_region Internal_bar_ops ''pciemu-internal'' PCIEMU_HW_INT_BAR_SIZE)
      (on_machine (pci_register_bar q dev PCIEMU_HW_REG_BAR (regbar_type q) Reg_region)
      (on_machine (memory_region_init_io q dev Reg_region Regbar_ops ''pciemu-reg'' PCIEMU_HW_REG_BAR_SIZE) w)))))"
  have u: "only_machine w ?u" by simp
  from assms have "pdevs ?u dev = Some d" by simp
  with irq_init_machine[OF assms(1) this, of q errp] obtain w'
    where w': "pciemu_irq_init q dev errp ?u = Inr w'" "only_machine ?u w'"
    by blast
  with u have "only_machine w w'" by (auto simp: only_machine_def)
  moreover have "pciemu_device_init q mres dev errp w = glue_backend_init mres dev w'"
    using assms w'(1)
    by (simp add: pciemu_device_init_def pciemu_regbar_init_def pciemu_internal_bar_init_def
        pciemu_membar_init_def)
  ultimately show ?thesis by blast
qed


text \<open>The engine a new back end starts with.\<close>

definition fresh_engine :: "DMAEngine \<Rightarrow> DMAEngine" where
  "fresh_engine e = config_upd (\<lambda>c. c\<lparr>mask := DMA_BIT_MASK AURORA_HW_DMA_ADDR_CAPABILITY\<rparr>)
     (dma_engine_reset e)"

lemma wf_fresh_engine:
  "length (buff e) = unat AURORA_HW_DMA_AREA_SIZE \<Longrightarrow> wf_dma (fresh_engine e)"
  by (simp add: wf_dma_def fresh_engine_def dma_engine_reset_def)

lemma backend_init_eq:
  assumes "dev \<noteq> NULL" and "p \<noteq> NULL" and "pdevs w dev = Some d"
  shows "aurora_backend_init (Some (p, c)) dev w =
    Inr (w\<lparr>pdevs := (pdevs w)(dev \<mapsto> d\<lparr>backend := p\<rparr>),
           adevs := (adevs w)(p \<mapsto> c\<lparr>parent := dev, dma := fresh_engine (dma c)\<rparr>)\<rparr>)"
  using assms
  by (simp add: aurora_backend_init_def aurora_dma_init_def aurora_dma_reset_def upd_pdev_def
      upd_adev_def fresh_engine_def)

lemma heap_ok_attach:
  assumes ok: "heap_ok w" and d: "pdevs w dev = Some d" "backend d = NULL"
    and p: "p \<noteq> NULL" "adevs w p = None"
    and a: "parent a = dev" "wf_dma (dma a)" "length (regs a) = AURORA_HW_REGBAR_REG_CNT"
  defines "w' \<equiv> w\<lparr>pdevs := (pdevs w)(dev \<mapsto> d\<lparr>backend := p\<rparr>), adevs := (adevs w)(p \<mapsto> a)\<rparr>"
  shows "heap_ok w'" and "linked dev p w'"
proof -
  from ok d have nn: "dev \<noteq> NULL" "wf_irq (irq d)" by (auto simp: heap_ok_def)
  then show l: "linked dev p w'"
    using p a by (simp add: linked_def w'_def)
  have other: "linked x y w'" if "x \<noteq> dev" "linked x y w" for x y
    using that p by (auto simp: linked_def w'_def)
  show "heap_ok w'"
    unfolding heap_ok_def
  proof (rule conjI; intro allI impI)
    fix x e assume e: "pdevs w' x = Some e"
    show "x \<noteq> NULL \<and> wf_irq (irq e) \<and> (backend e \<noteq> NULL \<longrightarrow> linked x (backend e) w')"
    proof (cases "x = dev")
      case True
      with e nn l show ?thesis by (auto simp: w'_def)
    next
      case False
      with e have "pdevs w x = Some e" by (simp add: w'_def)
      with ok other[OF False] show ?thesis by (auto simp: heap_ok_def)
    qed
  next
    fix y b assume b: "adevs w' y = Some b"
    show "y \<noteq> NULL \<and> (\<exists>e. pdevs w' (parent b) = Some e \<and> backend e = y)"
    proof (cases "y = p")
      case True
      with b p a show ?thesis by (simp add: w'_def)
    next
      case False
      with b have "adevs w y = Some b" by (simp add: w'_def)
      with ok obtain e where "y \<noteq> NULL" "pdevs w (parent b) = Some e" "backend e = y"
        unfolding heap_ok_def by blast
      with d show ?thesis by (auto simp: w'_def)
    qed
  qed
qed

lemma backend_fini_eq:
  assumes l: "linked dev adev w" and d: "pdevs w dev = Some d"
  shows "aurora_backend_fini adev w =
    Inr (w\<lparr>pdevs := (pdevs w)(dev \<mapsto> d\<lparr>backend := NULL\<rparr>), adevs := (adevs w)(adev := None)\<rparr>)"
  using assms
  by (auto simp: linked_def aurora_backend_fini_def aurora_dma_fini_def aurora_dma_reset_def upd_pdev_def
      upd_adev_def free_adev_def)

lemma heap_ok_detach:
  assumes ok: "heap_ok w" and l: "linked dev adev w" and d: "pdevs w dev = Some d"
  shows "heap_ok (w\<lparr>pdevs := (pdevs w)(dev \<mapsto> d\<lparr>backend := NULL\<rparr>), adevs := (adevs w)(adev := None)\<rparr>)"
    (is "heap_ok ?w")
  unfolding heap_ok_def
proof (rule conjI; intro allI impI)
  have other: "linked x y ?w" if "x \<noteq> dev" "linked x y w" for x y
    using that l by (auto simp: linked_def)
  fix x e assume e: "pdevs ?w x = Some e"
  show "x \<noteq> NULL \<and> wf_irq (irq e) \<and> (backend e \<noteq> NULL \<longrightarrow> linked x (backend e) ?w)"
  proof (cases "x = dev")
    case True
    with e l d show ?thesis by (auto simp: linked_def)
  next
    case False
    with e have "pdevs w x = Some e" by simp
    with ok other[OF False] show ?thesis by (auto simp: heap_ok_def)
  qed
next
  fix y b assume b: "adevs ?w y = Some b"
  then have y: "y \<noteq> adev" and "adevs w y = Some b" by (auto split: if_splits)
  with ok obtain e where e: "y \<noteq> NULL" "pdevs w (parent b) = Some e" "backend e = y"
    unfolding heap_ok_def by blast
  with y l d have "parent b \<noteq> dev" by (auto simp: linked_def)
  with e show "y \<noteq> NULL \<and> (\<exists>e. pdevs ?w (parent b) = Some e \<and> backend e = y)" by simp
qed

lemma reset_linked:
  assumes l: "linked dev adev w" and a: "adevs w adev = Some a"
  shows "\<exists>w'. pciemu_reset q dev w = Inr w' \<and> linked dev adev w' \<and> touches dev adev w w' \<and>
    adevs w' adev = Some (a\<lparr>dma := dma_engine_reset (dma a)\<rparr>) \<and>
    machine w' = lower_machine q dev (machine w)"
proof -
  obtain u where u: "pciemu_irq_reset q dev w = Inr u" "linked dev adev u" "touches dev adev w u"
    "adevs u = adevs w" "machine u = lower_machine q dev (machine w)"
    using irq_reset_linked[OF l, of q] by blast
  let ?w' = "u\<lparr>adevs := (adevs u)(adev \<mapsto> a\<lparr>dma := dma_engine_reset (dma a)\<rparr>)\<rparr>"
  from l have "adev \<noteq> NULL" by (simp add: linked_def)
  with u a have "pciemu_reset q dev w = Inr ?w'"
    by (simp add: pciemu_reset_def pciemu_membar_reset_def pciemu_internal_bar_reset_def
        pciemu_regbar_reset_def glue_backend_reset_def get_aurora_dev_linked aurora_backend_reset_def
        aurora_dma_reset_def upd_adev_def)
  moreover have "linked dev adev ?w'"
    using u(2) l a by (intro linked_upd_adev) (auto simp: linked_def)
  moreover have "touches dev adev w ?w'"
    by (rule touches_trans[OF u(3)]) simp
  ultimately show ?thesis using u by auto
qed

lemma reset_pending:
  assumes l: "linked dev adev w" and d: "pdevs w dev = Some d" and r: "pciemu_reset q dev w = Inr w'"
  shows "\<exists>d'. pdevs w' dev = Some d' \<and>
    pending (irq d') = spec_reset (irq_mode_of q dev (machine w)) (pending (irq d))"
proof -
  obtain u d' where u: "pciemu_irq_reset q dev w = Inr u" "pdevs u dev = Some d'"
    "pending (irq d') = spec_reset (irq_mode_of q dev (machine w)) (pending (irq d))"
    using irq_reset.refines[OF linked_irq_ready[OF l] d, of q] by blast
  with r have "glue_backend_reset dev u = Inr w'"
    by (simp add: pciemu_reset_def pciemu_membar_reset_def pciemu_internal_bar_reset_def
        pciemu_regbar_reset_def)
  then have "pdevs w' = pdevs u"
    by (auto simp: glue_backend_reset_def aurora_backend_reset_def aurora_dma_reset_def upd_adev_def
        res_simps)
  with u show ?thesis by simp
qed

section \<open>Properties of the life cycle\<close>

text \<open>A world with a new, not yet realised device, and an object as \<open>malloc\<close> may return it.\<close>

definition sample_new :: "sample aworld" where
  "sample_new = \<lparr>machine = sample_machine, qlog = [], pdevs = [16 \<mapsto> zero_device], adevs = Map.empty\<rparr>"

definition sample_malloc :: "(ptr \<times> AURORADevice) option" where
  "sample_malloc = Some (32, \<lparr>parent = 99,
     dma = sample_engine\<lparr>status := DMA_STATUS_OFF, buff := replicate 4096 7\<rparr>, regs = [9, 9, 9, 9]\<rparr>)"

lemma sample_new_ok: "heap_ok sample_new" "pdevs sample_new 16 = Some zero_device"
  "backend zero_device = NULL" "malloc_ok sample_new sample_malloc"
  by (auto simp: heap_ok_def sample_new_def zero_device_def wf_irq_def malloc_ok_def sample_malloc_def
      hw_defs split: if_splits)

lemma fresh_engine_eq:
  assumes "malloc_ok w (Some (p, c))"
  shows "fresh_engine (dma c) = \<lparr>config = \<lparr>txdesc = \<lparr>src = 0, dst = 0, len = 0\<rparr>, cmd = 0, mask = 0xFFFFFFFF\<rparr>,
      status = DMA_STATUS_IDLE, buff = replicate 4096 0\<rparr>"
proof -
  from assms have "length (buff (dma c)) = unat AURORA_HW_DMA_AREA_SIZE" by (simp add: malloc_ok_def)
  then show ?thesis
    by (simp add: fresh_engine_def dma_engine_reset_def desc_update blit_def mask_32) (simp add: hw_defs)
qed

lemma init_linked:
  assumes ok: "heap_ok w" and d: "pdevs w dev = Some d" "backend d = NULL"
    and m: "malloc_ok w (Some (p, c))"
  obtains w' where "pciemu_device_init q (Some (p, c)) dev errp w = Inr w'" and "linked dev p w'"
    and "heap_ok w'" and "adevs w' = (adevs w)(p \<mapsto> c\<lparr>parent := dev, dma := fresh_engine (dma c)\<rparr>)"
    and "pdevs w' = (pdevs w)(dev \<mapsto> d\<lparr>backend := p\<rparr>)"
proof -
  from ok d have nn: "dev \<noteq> NULL" by (auto simp: heap_ok_def)
  obtain u where u: "only_machine w u"
    "pciemu_device_init q (Some (p, c)) dev errp w = glue_backend_init (Some (p, c)) dev u"
    using front_end_init[OF nn d(1), of q "Some (p, c)" errp] by auto
  note fr = only_machine_adevs[OF u(1)]
  have oku: "heap_ok u"
    by (rule heap_ok_eqI[OF ok]) (simp_all add: fr)
  have p: "p \<noteq> NULL" "adevs u p = None" and du: "pdevs u dev = Some d"
    using m d fr by (auto simp: malloc_ok_def)
  let ?a = "c\<lparr>parent := dev, dma := fresh_engine (dma c)\<rparr>"
  let ?w = "u\<lparr>pdevs := (pdevs u)(dev \<mapsto> d\<lparr>backend := p\<rparr>), adevs := (adevs u)(p \<mapsto> ?a)\<rparr>"
  have "parent ?a = dev" "wf_dma (dma ?a)" "length (regs ?a) = AURORA_HW_REGBAR_REG_CNT"
    using m by (simp_all add: malloc_ok_def wf_fresh_engine)
  note attach = heap_ok_attach[OF oku du d(2) p this]
  show thesis
    by (rule that[of ?w]) (use attach fr u backend_init_eq[OF nn p(1) du, of c] in \<open>simp_all add: glue_backend_init_def\<close>)
qed

lemma fini_linked:
  assumes ok: "heap_ok w" and l: "linked dev adev w" and d: "pdevs w dev = Some d"
  obtains w' d' where "pciemu_device_fini q dev w = Inr w'" and "adevs w' = (adevs w)(adev := None)"
    and "pdevs w' = (pdevs w)(dev \<mapsto> d')" and "backend d' = NULL" and "wf_irq (irq d')"
    and "pending (irq d') = spec_reset (irq_mode_of q dev (machine w)) (pending (irq d))"
proof -
  let ?u = "w\<lparr>pdevs := (pdevs w)(dev \<mapsto> d\<lparr>backend := NULL\<rparr>), adevs := (adevs w)(adev := None)\<rparr>"
  have ready: "irq_ready dev ?u" and du: "pdevs ?u dev = Some (d\<lparr>backend := NULL\<rparr>)"
    using l d by (auto simp: irq_ready_def linked_def)
  obtain v where v: "pciemu_irq_reset q dev ?u = Inr v" using irq_reset.total[OF ready] by blast
  obtain i where i: "wf_irq i" "v = on_machine (lower_machine q dev) (set_irq dev i ?u)"
    and p: "\<And>e. pdevs ?u dev = Some e \<Longrightarrow> pending i = spec_reset (irq_mode_of q dev (machine ?u)) (pending (irq e))"
    by (rule irq_reset.result[OF ready v]) blast
  let ?w = "on_machine (msix_uninit q dev Reg_region Reg_region) (on_machine (msi_uninit q dev) v)"
  have "pciemu_device_fini q dev w = Inr ?w"
    using backend_fini_eq[OF l d] v
    by (simp add: pciemu_device_fini_def glue_backend_fini_def get_aurora_dev_linked[OF l]
        pciemu_irq_fini_def pciemu_regbar_fini_def pciemu_internal_bar_fini_def pciemu_membar_fini_def
        pciemu_regbar_reset_def pciemu_internal_bar_reset_def pciemu_membar_reset_def)
  moreover have "pdevs ?w = (pdevs w)(dev \<mapsto> d\<lparr>backend := NULL, irq := i\<rparr>)"
    by (simp add: i(2) set_irq_def)
  moreover have "adevs ?w = (adevs w)(adev := None)"
    by (simp add: i(2))
  ultimately show thesis
    using i(1) p[OF du] by (intro that[of ?w "d\<lparr>backend := NULL, irq := i\<rparr>"]) simp_all
qed

text \<open>
  C21. Realising a new device succeeds when memory can be allocated: front end and back end refer to each
  other, the heap of devices stays consistent, and the DMA engine starts idle, with an empty
  descriptor, a 32-bit mask and a zeroed buffer whatever the allocated memory held. The scratch
  registers are the exception: they keep the contents of the allocated memory.
\<close>

theorem device_init_links:
  assumes "heap_ok w" and "pdevs w dev = Some d" and "backend d = NULL"
    and "malloc_ok w (Some (p, c))"
  shows "\<exists>w' a. pciemu_device_init q (Some (p, c)) dev errp w = Inr w' \<and> linked dev p w' \<and> heap_ok w' \<and>
    adevs w' = (adevs w)(p \<mapsto> a) \<and> regs a = regs c \<and>
    dma a = \<lparr>config = \<lparr>txdesc = \<lparr>src = 0, dst = 0, len = 0\<rparr>, cmd = 0, mask = 0xFFFFFFFF\<rparr>,
             status = DMA_STATUS_IDLE, buff = replicate 4096 0\<rparr> \<and>
    (\<forall>x. x \<noteq> dev \<longrightarrow> pdevs w' x = pdevs w x)"
proof -
  note e = fresh_engine_eq[OF assms(4)]
  obtain w' where w': "pciemu_device_init q (Some (p, c)) dev errp w = Inr w'" "linked dev p w'" "heap_ok w'"
    "adevs w' = (adevs w)(p \<mapsto> c\<lparr>parent := dev, dma := fresh_engine (dma c)\<rparr>)"
    "pdevs w' = (pdevs w)(dev \<mapsto> d\<lparr>backend := p\<rparr>)"
    by (rule init_linked[OF assms])
  show ?thesis
    by (intro exI[of _ w'] exI[of _ "c\<lparr>parent := dev, dma := fresh_engine (dma c)\<rparr>"])
      (simp add: w' e)
qed

theorem device_init_links_witness:
  "\<exists>w' a. pciemu_device_init sample_qemu sample_malloc 16 0 sample_new = Inr w' \<and>
     linked 16 32 w' \<and> adevs w' 32 = Some a \<and> status (dma a) = DMA_STATUS_IDLE \<and> regs a = [9, 9, 9, 9]"
  using device_init_links[OF sample_new_ok(1-3) sample_new_ok(4)[unfolded sample_malloc_def],
      of sample_qemu 0]
  by (auto simp: sample_malloc_def)

text \<open>
  Plugging a device and unplugging it again gives the memory back: after realisation and removal the
  heap of back-end objects is exactly what it was, the device has no back end, every other
  device is untouched and the heap is consistent.
\<close>

lemma init_fini_no_leak:
  assumes ok: "heap_ok w" and d: "pdevs w dev = Some d" "backend d = NULL"
    and m: "malloc_ok w (Some (p, c))"
  shows "\<exists>w' d'. bindE (pciemu_device_init q (Some (p, c)) dev errp w) (pciemu_device_fini q dev) = Inr w' \<and>
    adevs w' = adevs w \<and> pdevs w' = (pdevs w)(dev \<mapsto> d') \<and> backend d' = NULL \<and> heap_ok w'"
proof -
  obtain w1 where w1: "pciemu_device_init q (Some (p, c)) dev errp w = Inr w1" "linked dev p w1" "heap_ok w1"
    "adevs w1 = (adevs w)(p \<mapsto> c\<lparr>parent := dev, dma := fresh_engine (dma c)\<rparr>)"
    "pdevs w1 = (pdevs w)(dev \<mapsto> d\<lparr>backend := p\<rparr>)"
    by (rule init_linked[OF assms])
  then have "pdevs w1 dev = Some (d\<lparr>backend := p\<rparr>)" by simp
  then obtain w2 d2 where w2: "pciemu_device_fini q dev w1 = Inr w2" "adevs w2 = (adevs w1)(p := None)"
    "pdevs w2 = (pdevs w1)(dev \<mapsto> d2)" "backend d2 = NULL" "wf_irq (irq d2)"
    by (rule fini_linked[OF w1(3,2), of _ q])
  from m have "adevs w p = None" by (simp add: malloc_ok_def)
  with w1 w2 have a: "adevs w2 = adevs w" and p2: "pdevs w2 = (pdevs w)(dev \<mapsto> d2)"
    by (simp_all add: fun_upd_idem)
  have "heap_ok w2"
  proof -
    have "linked x y w2" if "linked x y w" "x \<noteq> dev" for x y
      using that by (simp add: linked_def a p2)
    moreover have "dev \<noteq> NULL" using ok d by (auto simp: heap_ok_def)
    moreover have "parent b \<noteq> dev" if "adevs w y = Some b" for y b
      using ok that d unfolding heap_ok_def by (metis option.inject)
    ultimately show ?thesis
      using ok d w2(4,5) by (auto simp: heap_ok_def a p2)
  qed
  then show ?thesis
    by (intro exI[of _ w2] exI[of _ d2]) (simp add: w1(1) w2(1,4) a p2)
qed



text \<open>
  C22. A reset of a working device always succeeds: the engine becomes idle with an empty descriptor,
  no command and a zeroed buffer, the pending interrupts are cleared as the interrupt mode
  says, the scratch registers and the link to the back end are kept, and no other device is touched.
\<close>

theorem device_reset_state:
  assumes l: "linked dev adev w" and a: "adevs w adev = Some a" and d: "pdevs w dev = Some d"
  shows "\<exists>w' d'. pciemu_device_reset q dev w = Inr w' \<and> linked dev adev w' \<and> touches dev adev w w' \<and>
    adevs w' adev = Some (a\<lparr>dma := \<lparr>config = \<lparr>txdesc = \<lparr>src = 0, dst = 0, len = 0\<rparr>, cmd = 0, mask = 0xFFFFFFFF\<rparr>,
             status = DMA_STATUS_IDLE, buff = replicate 4096 0\<rparr>\<rparr>) \<and>
    pdevs w' dev = Some d' \<and>
    pending (irq d') = spec_reset (irq_mode_of q dev (machine w)) (pending (irq d))"
proof -
  from l a have wf: "wf_dma (dma a)" by (auto simp: linked_def)
  then have e: "dma_engine_reset (dma a) = \<lparr>config = \<lparr>txdesc = \<lparr>src = 0, dst = 0, len = 0\<rparr>, cmd = 0,
      mask = 0xFFFFFFFF\<rparr>, status = DMA_STATUS_IDLE, buff = replicate 4096 0\<rparr>"
    by (cases "dma a"; cases "config (dma a)")
      (simp add: wf_dma_def dma_engine_reset_def desc_update blit_def mask_32, simp add: hw_defs)
  obtain w' where w': "pciemu_reset q dev w = Inr w'" "linked dev adev w'" "touches dev adev w w'"
    "adevs w' adev = Some (a\<lparr>dma := dma_engine_reset (dma a)\<rparr>)"
    "\<exists>d'. pdevs w' dev = Some d' \<and>
       pending (irq d') = spec_reset (irq_mode_of q dev (machine w)) (pending (irq d))"
    using reset_linked[OF l a, of q] reset_pending[OF l d, of q] by blast
  then show ?thesis by (auto simp: pciemu_device_reset_def e)
qed

theorem device_reset_state_witness:
  "\<exists>w' a'. pciemu_device_reset sample_qemu 16 (sample_aworld sample_adev) = Inr w' \<and>
     adevs w' 32 = Some a' \<and> cmd (config (dma a')) = 0 \<and> regs a' = [1, 2, 3, 4]"
  using device_reset_state[OF sample_adev_linked, of sample_adev _ sample_qemu] by fastforce

end
