(* ===== verification/Device_Machine.thy ===== *)
theory Device_Machine
  imports Device
begin

text \<open>
  The emulated devices as a state machine. QEMU serialises the accesses of the guest, so one step
  is one complete handler: a guest access to a BAR, a reset, plugging or unplugging a device, or a
  change of QEMU's own state by something else (the guest's memory, its writes to configuration
  space). A step that faults is not a step: the process is gone.
\<close>

section \<open>Steps\<close>

inductive dev_step :: "'m qemu \<Rightarrow> 'm host \<Rightarrow> 'm world \<Rightarrow> 'm world \<Rightarrow> bool"
  for q :: "'m qemu" and h :: "'m host" where
  environment: "dev_step q h w (w\<lparr>machine := m\<rparr>)"
| instance_new: "dev \<noteq> NULL \<Longrightarrow> pdevs w dev = None \<Longrightarrow>
    dev_step q h w (w\<lparr>pdevs := (pdevs w)(dev \<mapsto> zero_device)\<rparr>)"
| realize_device: "pdevs w dev = Some d \<Longrightarrow> backend d = NULL \<Longrightarrow> malloc_ok w mres \<Longrightarrow>
    pciemu_device_init q mres dev errp w = Inr w' \<Longrightarrow> dev_step q h w w'"
| unrealize_device: "pciemu_device_fini q dev w = Inr w' \<Longrightarrow> dev_step q h w w'"
| reset_device: "pciemu_device_reset q dev w = Inr w' \<Longrightarrow> dev_step q h w w'"
| reg_write: "addr < PCIEMU_HW_REG_BAR_SIZE \<Longrightarrow> 4 \<le> sz \<Longrightarrow> sz \<le> 8 \<Longrightarrow>
    pciemu_regbar_write q dev addr v sz w = Inr w' \<Longrightarrow> dev_step q h w w'"
| internal_write: "addr < PCIEMU_HW_INT_BAR_SIZE \<Longrightarrow> 4 \<le> sz \<Longrightarrow> sz \<le> 8 \<Longrightarrow>
    pciemu_internal_bar_write q dev addr v sz w = Inr w' \<Longrightarrow> dev_step q h w w'"
| mem_read: "addr < PCIEMU_HW_MEM_BAR_SIZE \<Longrightarrow> 4 \<le> sz \<Longrightarrow> sz \<le> 8 \<Longrightarrow>
    pciemu_membar_read h junk dev addr sz w = Inr (v, w') \<Longrightarrow> dev_step q h w w'"
| mem_write: "addr < PCIEMU_HW_MEM_BAR_SIZE \<Longrightarrow> 4 \<le> sz \<Longrightarrow> sz \<le> 8 \<Longrightarrow>
    pciemu_membar_write h junk dev addr v sz w = Inr w' \<Longrightarrow> dev_step q h w w'"

definition dev_start :: "'m world \<Rightarrow> bool" where
  "dev_start w \<longleftrightarrow> pdevs w = Map.empty \<and> adevs w = Map.empty \<and> fd w = -1 \<and> \<not> t_mutex_init w"

section \<open>The invariant\<close>

text \<open>
  Between two steps the heap is consistent and every engine is idle. The mutex of the protocol
  client is never marked as initialised.
\<close>

definition engines_idle :: "('m, 'z) aworld_scheme \<Rightarrow> bool" where
  "engines_idle w \<longleftrightarrow> (\<forall>p a. adevs w p = Some a \<longrightarrow> status (dma a) = DMA_STATUS_IDLE)"

definition dev_inv :: "'m world \<Rightarrow> bool" where
  "dev_inv w \<longleftrightarrow> heap_ok w \<and> engines_idle w \<and> \<not> t_mutex_init w"

lemma heap_ok_cases:
  assumes "heap_ok w" and "pdevs w dev = Some d"
  obtains "backend d = NULL" | "linked dev (backend d) w"
  using assms by (auto simp: heap_ok_def)

lemma engines_idle_touches:
  assumes "engines_idle w" and "touches dev adev w w'"
    and "adevs w' adev = Some a'" and "status (dma a') = DMA_STATUS_IDLE"
  shows "engines_idle w'"
  unfolding engines_idle_def
proof (intro allI impI)
  fix p b assume "adevs w' p = Some b"
  with assms show "status (dma b) = DMA_STATUS_IDLE"
    by (cases "p = adev") (auto simp: engines_idle_def touches_def)
qed

lemma regbar_write_heap:
  assumes ok: "heap_ok w" and idle: "engines_idle w"
    and r: "pciemu_regbar_write q dev addr v sz w = Inr w'"
  shows "heap_ok w' \<and> engines_idle w' \<and> aworld.more w' = aworld.more w"
proof -
  from r obtain adev rc where get: "get_aurora_dev dev w = Inr adev"
    and wr: "aurora_write_reg_by_addr q adev addr v w = Inr (rc, w')"
    by (auto simp: pciemu_regbar_write_def glue_write_reg_by_addr_def res_simps)
  show ?thesis
  proof (cases "adev = NULL")
    case True
    with wr write_reg_no_backend ok idle show ?thesis by blast
  next
    case False
    with get obtain d where "pdevs w dev = Some d" "backend d = adev"
      by (auto simp: get_aurora_dev_def res_simps split: if_splits)
    with ok False have l: "linked dev adev w" by (auto simp: heap_ok_def)
    then obtain a where a: "adevs w adev = Some a" by (auto simp: linked_def)
    note eff = write_reg_linked[OF l a wr]
    with ok l have "heap_ok w'" by (blast intro: heap_ok_touches)
    moreover from idle a have "status (dma a) = DMA_STATUS_IDLE" by (auto simp: engines_idle_def)
    with eff idle have "engines_idle w'" by (blast intro: engines_idle_touches)
    ultimately show ?thesis using eff by (simp add: touches_def)
  qed
qed

lemma reset_heap:
  assumes ok: "heap_ok w" and idle: "engines_idle w" and r: "pciemu_reset q dev w = Inr w'"
  shows "heap_ok w' \<and> engines_idle w' \<and> aworld.more w' = aworld.more w"
proof -
  from r obtain d where d: "pdevs w dev = Some d"
    by (auto simp: pciemu_reset_def pciemu_irq_reset_def pciemu_membar_reset_def
        pciemu_internal_bar_reset_def pciemu_regbar_reset_def res_simps)
  from ok d show ?thesis
  proof (cases rule: heap_ok_cases)
    case 1
    from ok d have ready: "irq_ready dev w" by (auto simp: heap_ok_def irq_ready_def)
    from r obtain u where u: "pciemu_irq_reset q dev w = Inr u" and g: "glue_backend_reset dev u = Inr w'"
      by (auto simp: pciemu_reset_def pciemu_membar_reset_def pciemu_internal_bar_reset_def
          pciemu_regbar_reset_def res_simps)
    from irq_reset.backend_after[OF ready u, of dev] d 1 have "map_option backend (pdevs u dev) = Some NULL"
      by simp
    with g ready show ?thesis
      by (auto simp: glue_backend_reset_def get_aurora_dev_def aurora_backend_reset_def
          aurora_dma_reset_def upd_adev_def res_simps irq_ready_def)
  next
    case 2
    then obtain a where a: "adevs w (backend d) = Some a" by (auto simp: linked_def)
    from reset_linked[OF 2 a, of q] r obtain eff: "linked dev (backend d) w'"
      "touches dev (backend d) w w'" "adevs w' (backend d) = Some (a\<lparr>dma := dma_engine_reset (dma a)\<rparr>)"
      by auto
    with ok 2 have "heap_ok w'" by (blast intro: heap_ok_touches)
    moreover from eff idle have "engines_idle w'"
      by (auto simp: dma_engine_reset_def intro: engines_idle_touches)
    ultimately show ?thesis using eff by (simp add: touches_def)
  qed
qed


lemma realize_heap:
  assumes ok: "heap_ok w" and idle: "engines_idle w" and d: "pdevs w dev = Some d" "backend d = NULL"
    and m: "malloc_ok w mres" and r: "pciemu_device_init q mres dev errp w = Inr w'"
  shows "heap_ok w' \<and> engines_idle w' \<and> aworld.more w' = aworld.more w"
proof -
  from ok d have nn: "dev \<noteq> NULL" by (auto simp: heap_ok_def)
  obtain u where u: "only_machine w u" "glue_backend_init mres dev u = Inr w'"
    using front_end_init[OF nn d(1), of q mres errp] r by auto
  note fr = only_machine_adevs[OF u(1)]
  from ok fr have oku: "heap_ok u" by (blast intro: heap_ok_eqI)
  show ?thesis
  proof (cases mres)
    case None
    with u(2) fr ok idle show ?thesis
      by (auto simp: glue_backend_init_def aurora_backend_init_def engines_idle_def qemu_log_mask_def
          intro: heap_ok_eqI)
  next
    case (Some pc)
    obtain p c where pc: "pc = (p, c)" by (cases pc)
    with Some m have p: "p \<noteq> NULL" "adevs u p = None" and
      c: "length (buff (dma c)) = unat AURORA_HW_DMA_AREA_SIZE" "length (regs c) = AURORA_HW_REGBAR_REG_CNT"
      using fr by (auto simp: malloc_ok_def)
    from d fr have du: "pdevs u dev = Some d" by simp
    let ?a = "c\<lparr>parent := dev, dma := fresh_engine (dma c)\<rparr>"
    have w': "w' = u\<lparr>pdevs := (pdevs u)(dev \<mapsto> d\<lparr>backend := p\<rparr>), adevs := (adevs u)(p \<mapsto> ?a)\<rparr>"
      using u(2) Some pc backend_init_eq[OF nn p(1) du, of c] by (simp add: glue_backend_init_def)
    have "heap_ok w'"
      unfolding w' by (rule heap_ok_attach[OF oku du d(2) p]) (simp_all add: c wf_fresh_engine)
    moreover have "engines_idle w'"
      using idle fr by (auto simp: w' engines_idle_def fresh_engine_def dma_engine_reset_def)
    ultimately show ?thesis using fr by (simp add: w')
  qed
qed

lemma unrealize_heap:
  assumes ok: "heap_ok w" and idle: "engines_idle w" and r: "pciemu_device_fini q dev w = Inr w'"
  shows "heap_ok w' \<and> engines_idle w' \<and> aworld.more w' = aworld.more w"
proof -
  from r obtain adev u v where get: "get_aurora_dev dev w = Inr adev"
    and u: "aurora_backend_fini adev w = Inr u" and v: "pciemu_irq_reset q dev u = Inr v"
    and w': "pdevs w' = pdevs v" "adevs w' = adevs v" "aworld.more w' = aworld.more v"
    by (auto simp: pciemu_device_fini_def glue_backend_fini_def pciemu_irq_fini_def res_simps
        pciemu_regbar_fini_def pciemu_internal_bar_fini_def pciemu_membar_fini_def on_machine_def
        pciemu_regbar_reset_def pciemu_internal_bar_reset_def pciemu_membar_reset_def)
  from u have "adev \<noteq> NULL"
    by (auto simp: aurora_backend_fini_def aurora_dma_fini_def aurora_dma_reset_def upd_adev_def res_simps)
  with get obtain d where d: "pdevs w dev = Some d" "backend d = adev"
    by (auto simp: get_aurora_dev_def res_simps split: if_splits)
  with ok \<open>adev \<noteq> NULL\<close> have l: "linked dev adev w" by (auto simp: heap_ok_def)
  have u': "u = w\<lparr>pdevs := (pdevs w)(dev \<mapsto> d\<lparr>backend := NULL\<rparr>), adevs := (adevs w)(adev := None)\<rparr>"
    using u backend_fini_eq[OF l d(1)] by simp
  have oku: "heap_ok u" unfolding u' by (rule heap_ok_detach[OF ok l d(1)])
  have ready: "irq_ready dev u"
    using l d by (auto simp: irq_ready_def u' linked_def)
  obtain i where i: "wf_irq i" and veq: "v = on_machine (lower_machine q dev) (set_irq dev i u)"
    by (rule irq_reset.result[OF ready v])
  have pv: "pdevs v = (pdevs u)(dev \<mapsto> (d\<lparr>backend := NULL, irq := i\<rparr>))" and av: "adevs v = adevs u"
    by (simp_all add: veq set_irq_def on_machine_def u')
  have "heap_ok v"
  proof -
    have "linked x y v = linked x y u" for x y
      using i d by (auto simp: linked_def pv av u')
    with oku i show ?thesis
      by (auto simp: heap_ok_def pv av u' split: if_splits)
  qed
  then have "heap_ok w'" using w' by (blast intro: heap_ok_eqI)
  moreover have "engines_idle w'"
    using idle w' by (auto simp: engines_idle_def av u' split: if_splits)
  moreover have "aworld.more w' = aworld.more w"
    using w' by (simp add: veq set_irq_def on_machine_def u')
  ultimately show ?thesis by blast
qed


lemma more_mutex: "aworld.more w' = aworld.more w \<Longrightarrow> t_mutex_init w' = t_mutex_init w"
  for w w' :: "('m, 'z) world_scheme"
  by (cases w; cases w') simp

lemma membar_frame:
  "pciemu_membar_read h junk dev addr sz w = Inr (v, w') \<Longrightarrow> client_frame w w'"
  "pciemu_membar_write h junk dev addr x sz w = Inr w' \<Longrightarrow> client_frame w w'"
  by (auto simp: pciemu_membar_read_def pciemu_membar_write_def glue_read_devmem_by_addr_def
      glue_write_devmem_by_addr_def aurora_read_devmem_by_addr_def aurora_write_devmem_by_addr_def
      res_simps dest: read_req_frame write_req_frame)

lemma client_frame_inv:
  assumes "dev_inv w" and "client_frame w w'"
  shows "dev_inv w'"
proof -
  have "heap_ok w'"
    by (rule heap_ok_eqI[of w]) (use assms in \<open>simp_all add: dev_inv_def client_frame_def\<close>)
  with assms show ?thesis
    by (simp add: dev_inv_def client_frame_def engines_idle_def)
qed

lemma dev_invI:
  "heap_ok w' \<and> engines_idle w' \<and> aworld.more w' = aworld.more w \<Longrightarrow> dev_inv w \<Longrightarrow> dev_inv w'"
  for w w' :: "'m world"
  using more_mutex[of w' w] by (simp add: dev_inv_def)

lemma heap_ok_new_instance:
  assumes ok: "heap_ok w" and dev: "dev \<noteq> NULL" "pdevs w dev = None"
  shows "heap_ok (w\<lparr>pdevs := (pdevs w)(dev \<mapsto> zero_device)\<rparr>)" (is "heap_ok ?w")
proof -
  have keep: "linked x y ?w" if "linked x y w" for x y
    using that dev by (auto simp: linked_def)
  show ?thesis
    unfolding heap_ok_def
  proof (rule conjI; intro allI impI)
    fix x e assume "pdevs ?w x = Some e"
    with ok dev keep show "x \<noteq> NULL \<and> wf_irq (irq e) \<and> (backend e \<noteq> NULL \<longrightarrow> linked x (backend e) ?w)"
      by (auto simp: heap_ok_def zero_device_def wf_irq_def split: if_splits)
  next
    fix y b assume "adevs ?w y = Some b"
    then have "adevs w y = Some b" by simp
    with ok obtain e where "y \<noteq> NULL" "pdevs w (parent b) = Some e" "backend e = y"
      unfolding heap_ok_def by blast
    with dev show "y \<noteq> NULL \<and> (\<exists>e. pdevs ?w (parent b) = Some e \<and> backend e = y)" by auto
  qed
qed

lemma dev_step_inv:
  assumes "dev_step q h w w'" and "dev_inv w"
  shows "dev_inv w'"
  using assms
proof (induction rule: dev_step.induct)
  case (environment w m)
  then show ?case by (auto simp: dev_inv_def engines_idle_def intro: heap_ok_eqI)
next
  case (instance_new dev w)
  then show ?case by (auto simp: dev_inv_def engines_idle_def intro: heap_ok_new_instance)
next
  case (realize_device w dev d mres errp w')
  then have "heap_ok w" "engines_idle w" by (simp_all add: dev_inv_def)
  from realize_heap[OF this realize_device(1-4)] realize_device(5) show ?case by (rule dev_invI)
next
  case (unrealize_device dev w w')
  then have "heap_ok w" "engines_idle w" by (simp_all add: dev_inv_def)
  from unrealize_heap[OF this unrealize_device(1)] unrealize_device(2) show ?case by (rule dev_invI)
next
  case (reset_device dev w w')
  then have "heap_ok w" "engines_idle w" "pciemu_reset q dev w = Inr w'"
    by (simp_all add: dev_inv_def pciemu_device_reset_def)
  from reset_heap[OF this] reset_device(2) show ?case by (rule dev_invI)
next
  case (reg_write addr sz dev v w w')
  then have "heap_ok w" "engines_idle w" by (simp_all add: dev_inv_def)
  from regbar_write_heap[OF this reg_write(4)] reg_write(5) show ?case by (rule dev_invI)
next
  case (internal_write addr sz dev v w w')
  then have "heap_ok w" "engines_idle w" "pciemu_regbar_write q dev addr v sz w = Inr w'"
    by (simp_all add: dev_inv_def internal_bar_same)
  from regbar_write_heap[OF this] internal_write(5) show ?case by (rule dev_invI)
next
  case (mem_read addr sz junk dev w v w')
  then show ?case by (blast intro: client_frame_inv membar_frame)
next
  case (mem_write addr sz junk dev v w w')
  then show ?case by (blast intro: client_frame_inv membar_frame)
qed

lemma dev_start_inv: "dev_start w \<Longrightarrow> dev_inv w"
  by (simp add: dev_start_def dev_inv_def heap_ok_def engines_idle_def)

interpretation devices: invariant_system dev_start "dev_step q h" dev_inv
  for q h
  by unfold_locales (auto intro: dev_start_inv dev_step_inv)

section \<open>Properties of every run\<close>

text \<open>A run: a device is created and realised, and the guest writes a scratch register.\<close>

definition sample_start :: "sample world" where
  "sample_start = \<lparr>machine = sample_machine, qlog = [], pdevs = Map.empty, adevs = Map.empty, fd = -1,
     t_mutex_init = False\<rparr>"

lemma sample_run:
  assumes "start = sample_start"
  shows "dev_start start"
    and "\<exists>w. (dev_step sample_qemu h)\<^sup>*\<^sup>* start w \<and> linked 16 32 w"
proof -
  let ?q = "sample_qemu" and ?w0 = "sample_start"
  let ?w1 = "?w0\<lparr>pdevs := (pdevs ?w0)(16 \<mapsto> zero_device)\<rparr>"
  show st: "dev_start start" by (simp add: assms dev_start_def sample_start_def)
  have s1: "dev_step ?q h ?w0 ?w1"
    by (rule dev_step.instance_new) (simp_all add: sample_start_def)
  have d: "pdevs ?w1 16 = Some zero_device" "backend zero_device = NULL"
    by (simp_all add: zero_device_def)
  from dev_step_inv[OF s1] dev_start_inv[OF st] have ok: "heap_ok ?w1"
    by (simp add: dev_inv_def assms)
  have m: "malloc_ok ?w1 sample_malloc"
    by (simp add: malloc_ok_def sample_malloc_def sample_start_def hw_defs)
  obtain w2 where w2: "pciemu_device_init ?q sample_malloc 16 0 ?w1 = Inr w2" "linked 16 32 w2"
    using init_linked[OF ok d m[unfolded sample_malloc_def], of ?q 0]
    by (auto simp: sample_malloc_def)
  have "dev_step ?q h ?w1 w2"
    by (rule dev_step.realize_device[OF d m w2(1)])
  with s1 w2(2) show "\<exists>w. (dev_step sample_qemu h)\<^sup>*\<^sup>* start w \<and> linked 16 32 w"
    unfolding assms by (meson rtranclp.rtrancl_into_rtrancl rtranclp.rtrancl_refl)
qed

text \<open>
  C9. In every state that any number of guest accesses, resets, hot-plugs and removals of any number
  of devices can reach, the heap is consistent: a device that has a back end is linked to it in both
  directions with all its buffers at their sizes, every back-end object belongs to a device (none
  is leaked or shared), and no engine is left in the middle of a transfer.
\<close>

theorem reachable_consistent:
  assumes "dev_start w" and "(dev_step q h)\<^sup>*\<^sup>* w w'"
  shows "(\<forall>dev d. pdevs w' dev = Some d \<longrightarrow> wf_irq (irq d) \<and>
             (backend d \<noteq> NULL \<longrightarrow> linked dev (backend d) w')) \<and>
         (\<forall>adev a. adevs w' adev = Some a \<longrightarrow> status (dma a) = DMA_STATUS_IDLE \<and>
             (\<exists>!dev. \<exists>d. pdevs w' dev = Some d \<and> backend d = adev))"
proof -
  from devices.reachable_inv[OF assms] have ok: "heap_ok w'" and idle: "engines_idle w'"
    by (simp_all add: dev_inv_def)
  have "\<exists>!dev. \<exists>d. pdevs w' dev = Some d \<and> backend d = adev" if a: "adevs w' adev = Some a" for adev a
  proof (rule ex1I[of _ "parent a"])
    show "\<exists>d. pdevs w' (parent a) = Some d \<and> backend d = adev"
      using ok a unfolding heap_ok_def by blast
    show "x = parent a" if "\<exists>d. pdevs w' x = Some d \<and> backend d = adev" for x
    proof -
      from that ok a have "linked x adev w'" unfolding heap_ok_def by blast
      with a show ?thesis by (auto simp: linked_def)
    qed
  qed
  with ok idle show ?thesis unfolding heap_ok_def engines_idle_def by blast
qed

theorem reachable_consistent_witness:
  "\<exists>w a. (dev_step sample_qemu (sample_host server_serve None 0))\<^sup>*\<^sup>* sample_start w \<and>
     adevs w 32 = Some a \<and> status (dma a) = DMA_STATUS_IDLE"
proof -
  obtain w where w: "(dev_step sample_qemu (sample_host server_serve None 0))\<^sup>*\<^sup>* sample_start w"
    and "linked 16 32 w"
    using sample_run(2)[OF refl] by blast
  then obtain a where "adevs w 32 = Some a" by (auto simp: linked_def)
  with reachable_consistent[OF sample_run(1)[OF refl] w] w show ?thesis by blast
qed

text \<open>
  C30. The flag that should record that the protocol client's mutex has been initialised is never set:
  in every reachable state both locking and unlocking initialise the mutex again first, so an
  unlock operates on a freshly initialised mutex and not on the one that was locked.
\<close>

theorem mutex_always_reinitialised:
  assumes "dev_start w" and "(dev_step q h)\<^sup>*\<^sup>* w w'"
  shows "tcp_mutex_lock h w' = on_machine (\<lambda>m. qemu_mutex_lock h (qemu_mutex_init h m)) w' \<and>
    tcp_mutex_unlock h w' = on_machine (\<lambda>m. qemu_mutex_unlock h (qemu_mutex_init h m)) w' \<and>
    \<not> t_mutex_init (tcp_mutex_lock h w')"
  using devices.reachable_inv[OF assms]
  by (simp add: dev_inv_def tcp_mutex_lock_def tcp_mutex_unlock_def on_machine_def)

theorem mutex_always_reinitialised_witness:
  "\<exists>w. (dev_step sample_qemu (sample_host server_serve None 0))\<^sup>*\<^sup>* sample_start w \<and>
     \<not> t_mutex_init (tcp_mutex_lock (sample_host server_serve None 0) w)"
proof -
  obtain w where w: "(dev_step sample_qemu (sample_host server_serve None 0))\<^sup>*\<^sup>* sample_start w"
    using sample_run(2)[OF refl] by blast
  with mutex_always_reinitialised[OF sample_run(1)[OF refl] w] show ?thesis by blast
qed

end
