(* ===== verification/Transfers.thy ===== *)
theory Transfers
  imports Device_Machine
begin

text \<open>
  Whole DMA transfers as the guest performs them: four writes to the configuration registers and
  one to the doorbell, through the register BAR, with the completion interrupt at the end.
\<close>

section \<open>Programming the engine\<close>

definition dma_program :: "u64 \<Rightarrow> u64 \<Rightarrow> u64 \<Rightarrow> u64 \<Rightarrow> (u64 \<times> u64) list" where
  "dma_program s d n c =
     [(PCIEMU_HW_REG_DMA_CFG_TXDESC_SRC, s), (PCIEMU_HW_REG_DMA_CFG_TXDESC_DST, d),
      (PCIEMU_HW_REG_DMA_CFG_TXDESC_LEN, n), (PCIEMU_HW_REG_DMA_CFG_CMD, c),
      (PCIEMU_HW_REG_DMA_DOORBELL_RING, 1)]"

definition regbar_writes :: "'m qemu \<Rightarrow> ptr \<Rightarrow> (u64 \<times> u64) list \<Rightarrow> ('m, 'z) aworld_scheme
    \<Rightarrow> ('m, 'z) aworld_scheme res" where
  "regbar_writes q dev xs w = foldE (\<lambda>(a, v). pciemu_regbar_write q dev a v 4) xs w"

abbreviation put_adev :: "ptr \<Rightarrow> AURORADevice \<Rightarrow> ('m, 'z) aworld_scheme \<Rightarrow> ('m, 'z) aworld_scheme" where
  "put_adev adev a w \<equiv> w\<lparr>adevs := (adevs w)(adev \<mapsto> a)\<rparr>"

definition programmed :: "u64 \<Rightarrow> u64 \<Rightarrow> u64 \<Rightarrow> u64 \<Rightarrow> DMAConfig \<Rightarrow> DMAConfig" where
  "programmed s d n c conf = conf\<lparr>txdesc := \<lparr>src = s, dst = d, len = n\<rparr>, cmd := c\<rparr>"

lemma programmed_simps [simp]:
  "txdesc (programmed s d n c conf) = \<lparr>src = s, dst = d, len = n\<rparr>"
  "cmd (programmed s d n c conf) = c"
  "mask (programmed s d n c conf) = mask conf"
  by (simp_all add: programmed_def)

lemma regbar_cfg_write:
  assumes l: "linked dev adev w" and a: "adevs w adev = Some a"
    and idle: "status (dma a) = DMA_STATUS_IDLE"
    and v: "aurora_dma_valid_access addr" "addr \<noteq> AURORA_HW_REG_DMA_DOORBELL_RING"
  shows "pciemu_regbar_write q dev addr x sz w =
    Inr (put_adev adev (dma_upd (config_upd (cfg_write addr x)) a) w)"
  by (simp add: regbar_write_linked[OF l] write_dma_reg[OF v(1)] dma_reg_write_cfg[OF l a v] idle)

lemma regbar_doorbell:
  assumes l: "linked dev adev w"
  shows "pciemu_regbar_write q dev AURORA_HW_REG_DMA_DOORBELL_RING x sz w =
    aurora_dma_doorbell_ring q adev w"
proof -
  have v: "aurora_dma_valid_access AURORA_HW_REG_DMA_DOORBELL_RING"
    by (simp add: aurora_dma_valid_access_def hw_defs)
  show ?thesis
    by (simp add: regbar_write_linked[OF l] write_dma_reg[OF v] dma_reg_write_doorbell bindE_assoc)
qed

text \<open>The offsets of the driver's header and what a write to each of them sets.\<close>

lemmas cfg_alias =
  PCIEMU_HW_REG_DMA_CFG_TXDESC_SRC_def PCIEMU_HW_REG_DMA_CFG_TXDESC_DST_def
  PCIEMU_HW_REG_DMA_CFG_TXDESC_LEN_def PCIEMU_HW_REG_DMA_CFG_CMD_def
  PCIEMU_HW_REG_DMA_DOORBELL_RING_def

lemma cfg_offsets:
  "aurora_dma_valid_access AURORA_HW_REG_DMA_CFG_TXDESC_SRC"
  "aurora_dma_valid_access AURORA_HW_REG_DMA_CFG_TXDESC_DST"
  "aurora_dma_valid_access AURORA_HW_REG_DMA_CFG_TXDESC_LEN"
  "aurora_dma_valid_access AURORA_HW_REG_DMA_CFG_CMD"
  "AURORA_HW_REG_DMA_CFG_TXDESC_SRC \<noteq> AURORA_HW_REG_DMA_DOORBELL_RING"
  "AURORA_HW_REG_DMA_CFG_TXDESC_DST \<noteq> AURORA_HW_REG_DMA_DOORBELL_RING"
  "AURORA_HW_REG_DMA_CFG_TXDESC_LEN \<noteq> AURORA_HW_REG_DMA_DOORBELL_RING"
  "AURORA_HW_REG_DMA_CFG_CMD \<noteq> AURORA_HW_REG_DMA_DOORBELL_RING"
  by (simp_all add: aurora_dma_valid_access_def hw_defs)

lemma cfg_write_at:
  "cfg_write AURORA_HW_REG_DMA_CFG_TXDESC_SRC v c = txdesc_upd (\<lambda>t. t\<lparr>src := v\<rparr>) c"
  "cfg_write AURORA_HW_REG_DMA_CFG_TXDESC_DST v c = txdesc_upd (\<lambda>t. t\<lparr>dst := v\<rparr>) c"
  "cfg_write AURORA_HW_REG_DMA_CFG_TXDESC_LEN v c = txdesc_upd (\<lambda>t. t\<lparr>len := v\<rparr>) c"
  "cfg_write AURORA_HW_REG_DMA_CFG_CMD v c = c\<lparr>cmd := v\<rparr>"
  by (simp_all add: cfg_write_def hw_defs)

lemma linked_put_adev:
  "linked dev adev w \<Longrightarrow> parent a = dev \<Longrightarrow> wf_dma (dma a) \<Longrightarrow>
     length (regs a) = AURORA_HW_REGBAR_REG_CNT \<Longrightarrow> linked dev adev (put_adev adev a w)"
  by (rule linked_upd_adev)

text \<open>The four configuration writes leave exactly the programmed descriptor.\<close>

lemma program_config:
  assumes l: "linked dev adev w" and a: "adevs w adev = Some a"
    and idle: "status (dma a) = DMA_STATUS_IDLE"
  shows "regbar_writes q dev (dma_program s d n c) w =
    aurora_dma_doorbell_ring q adev (put_adev adev (dma_upd (config_upd (programmed s d n c)) a) w)"
proof -
  from l a have p: "parent a = dev" "wf_dma (dma a)" "length (regs a) = AURORA_HW_REGBAR_REG_CNT"
    by (auto simp: linked_def)
  have step: "pciemu_regbar_write q dev addr x 4 (put_adev adev b w) =
      Inr (put_adev adev (dma_upd (config_upd (cfg_write addr x)) b) w)"
    if "parent b = dev" "wf_dma (dma b)" "length (regs b) = AURORA_HW_REGBAR_REG_CNT"
      "status (dma b) = DMA_STATUS_IDLE" "aurora_dma_valid_access addr"
      "addr \<noteq> AURORA_HW_REG_DMA_DOORBELL_RING" for addr x b
    using regbar_cfg_write[OF linked_put_adev[OF l that(1-3)] _ that(4-6)] by simp
  have bell: "pciemu_regbar_write q dev AURORA_HW_REG_DMA_DOORBELL_RING x 4 (put_adev adev b w) =
      aurora_dma_doorbell_ring q adev (put_adev adev b w)"
    if "parent b = dev" "wf_dma (dma b)" "length (regs b) = AURORA_HW_REGBAR_REG_CNT" for x b
    using regbar_doorbell[OF linked_put_adev[OF l that]] .
  have first: "w = put_adev adev a w" using a by (simp add: fun_upd_idem)
  have "regbar_writes q dev (dma_program s d n c) (put_adev adev a w) =
    aurora_dma_doorbell_ring q adev (put_adev adev (dma_upd (config_upd (programmed s d n c)) a) w)"
    using p idle
    by (simp add: regbar_writes_def dma_program_def cfg_alias step bell cfg_offsets cfg_write_at
        wf_dma_def programmed_def desc_update)
  then show ?thesis using first by simp
qed


lemma wf_dma_programmed [simp]: "wf_dma (config_upd (programmed s d n c) e) = wf_dma e"
  by (simp add: wf_dma_def)

text \<open>
  The complete effect of programming a transfer: the abstract transfer of the programmed
  descriptor, followed by the completion interrupt when there is one.
\<close>

lemma program_effect:
  assumes l: "linked dev adev w" and a: "adevs w adev = Some a"
    and idle: "status (dma a) = DMA_STATUS_IDLE"
  shows "regbar_writes q dev (dma_program s d n c) w =
    (case dma_spec q dev (config_upd (programmed s d n c) (dma a)) (machine w) of
       None \<Rightarrow> Inl OutOfBounds
     | Some (e, m, logs, raise) \<Rightarrow>
         (let w' = apply_dma adev e m logs w
          in if raise then pciemu_irq_raise q dev AURORA_HW_IRQ_DMA_ENDED_VECTOR w' else Inr w'))"
proof -
  let ?a = "dma_upd (config_upd (programmed s d n c)) a"
  let ?w = "put_adev adev ?a w"
  from l a have l': "linked dev adev ?w"
    by (intro linked_put_adev) (auto simp: linked_def)
  have st: "e\<lparr>status := DMA_STATUS_IDLE\<rparr> = e"
    if "dma_spec q dev (config_upd (programmed s d n c) (dma a)) m0 = Some (e, m, ls, r)" for e m0 m ls r
    using dma_spec_keeps(2)[OF that] idle by simp
  have app: "apply_dma adev e m ls ?w = apply_dma adev e m ls w" for e m ls
    using a by (simp add: apply_dma_def)
  show ?thesis
    using idle
    by (auto simp: program_config[OF l a idle] doorbell_effect[OF l'] st app Let_def split: option.splits)
qed

lemma program_transfer:
  assumes l: "linked dev adev w" and a: "adevs w adev = Some a"
    and idle: "status (dma a) = DMA_STATUS_IDLE" and d: "pdevs w dev = Some pd"
    and sp: "dma_spec q dev (config_upd (programmed s t n c) (dma a)) (machine w) = Some (e, m, logs, True)"
  obtains w' pd' where "regbar_writes q dev (dma_program s t n c) w = Inr w'" and "linked dev adev w'"
    and "touches dev adev w w'" and "adevs w' adev = Some (a\<lparr>dma := e\<rparr>)"
    and "machine w' = raise_machine q AURORA_HW_IRQ_DMA_ENDED_VECTOR dev m" and "qlog w' = qlog w @ logs"
    and "pdevs w' dev = Some pd'"
    and "pending (irq pd') = spec_raise AURORA_HW_IRQ_DMA_ENDED_VECTOR (irq_mode_of q dev m) (pending (irq pd))"
proof -
  let ?u = "apply_dma adev e m logs w"
  from l a have "wf_dma (dma a)" by (auto simp: linked_def)
  with l dma_spec_keeps(3)[OF sp] have lu: "linked dev adev ?u"
    by (intro linked_apply_dma) simp_all
  obtain w' where w': "pciemu_irq_raise q dev AURORA_HW_IRQ_DMA_ENDED_VECTOR ?u = Inr w'"
    and p: "linked dev adev w'" "touches dev adev ?u w'" "adevs w' = adevs ?u"
      "machine w' = raise_machine q AURORA_HW_IRQ_DMA_ENDED_VECTOR dev m" "qlog w' = qlog w @ logs"
    using raise_linked[OF lu, of q AURORA_HW_IRQ_DMA_ENDED_VECTOR] by (auto simp: apply_dma_frame)
  from p(1) obtain pd' where pd': "pdevs w' dev = Some pd'" by (auto simp: linked_def)
  have "pending (irq pd') = spec_raise AURORA_HW_IRQ_DMA_ENDED_VECTOR (irq_mode_of q dev m) (pending (irq pd))"
    using irq_raise.pending_after[OF linked_irq_ready[OF lu] _ w' pd', of pd] d
    by (simp add: apply_dma_frame)
  moreover have "touches dev adev w w'"
    by (rule touches_trans[OF _ p(2)]) simp
  moreover have "adevs w' adev = Some (a\<lparr>dma := e\<rparr>)"
    using p(3) a by (simp add: apply_dma_frame)
  moreover have "regbar_writes q dev (dma_program s t n c) w = Inr w'"
    using w' by (simp add: program_effect[OF l a idle] sp Let_def)
  ultimately show thesis using p pd' that by blast
qed


section \<open>Transfers from and to guest memory\<close>

text \<open>
  The documented behaviour of QEMU's DMA functions on bus addresses that are RAM: they succeed,
  read or write exactly the addressed bytes, and delivering an interrupt changes no RAM.
\<close>

definition guest_ram :: "'m qemu \<Rightarrow> ('m \<Rightarrow> u64 \<Rightarrow> u8) \<Rightarrow> (u64 \<Rightarrow> bool) \<Rightarrow> bool" where
  "guest_ram q ram is_ram \<longleftrightarrow>
     (\<forall>dev bus old m. (\<forall>i < length old. is_ram (bus + of_nat i)) \<longrightarrow>
        (\<exists>f m'. pci_dma_read q dev bus old m = (0, f, m') \<and> ram m' = ram m \<and>
           (\<forall>i < length old. f i = ram m (bus + of_nat i)))) \<and>
     (\<forall>dev bus bs m. (\<forall>i < length bs. is_ram (bus + of_nat i)) \<longrightarrow>
        (\<exists>m'. pci_dma_write q dev bus bs m = (0, m') \<and> ram m' = mem_store bus bs (ram m))) \<and>
     (\<forall>dev v m. ram (msix_notify q dev v m) = ram m \<and> ram (msi_notify q dev v m) = ram m) \<and>
     (\<forall>dev l m. ram (pci_set_irq q dev l m) = ram m)"

lemma guest_ram_read:
  assumes "guest_ram q ram is_ram" and "\<forall>i < length old. is_ram (bus + of_nat i)"
  obtains f m' where "pci_dma_read q dev bus old m = (0, f, m')" and "ram m' = ram m"
    and "map f [0..<length old] = mem_load (ram m) bus (length old)"
proof -
  from assms obtain f m' where "pci_dma_read q dev bus old m = (0, f, m')" "ram m' = ram m"
    "\<forall>i < length old. f i = ram m (bus + of_nat i)"
    unfolding guest_ram_def by meson
  moreover from this(3) have "map f [0..<length old] = mem_load (ram m) bus (length old)"
    by (simp add: mem_load_def)
  ultimately show thesis using that by blast
qed

lemma guest_ram_write:
  assumes "guest_ram q ram is_ram" and "\<forall>i < length bs. is_ram (bus + of_nat i)"
  obtains m' where "pci_dma_write q dev bus bs m = (0, m')" and "ram m' = mem_store bus bs (ram m)"
  using assms unfolding guest_ram_def by meson

lemma guest_ram_raise: "guest_ram q ram is_ram \<Longrightarrow> ram (raise_machine q v dev m) = ram m"
  by (auto simp: guest_ram_def raise_machine_def split: irq_mode.splits)

text \<open>A device address inside the DMA area, and a length that fits behind it.\<close>

abbreviation area_addr :: "nat \<Rightarrow> u64" where
  "area_addr off \<equiv> AURORA_HW_DMA_AREA_START + of_nat off"

lemma area_addr_props:
  assumes "off \<le> 4096"
  shows "aurora_dma_inside_device_boundaries (area_addr off)" and "area_offset (area_addr off) = off"
proof -
  from assms have o: "unat (of_nat off :: u64) = off" by (intro unat_of_nat64) simp
  then have "unat (area_addr off) = 0x10000 + off"
    using assms by (simp add: hw_defs unat_word_ariths)
  with assms show "aurora_dma_inside_device_boundaries (area_addr off)"
    by (simp add: inside_boundaries_iff)
  from o show "area_offset (area_addr off) = off" by (simp add: area_offset_def)
qed

lemma classify_programmed:
  assumes "off + n \<le> 4096"
  shows "dma_classify (programmed s (area_addr off) (of_nat n) AURORA_HW_DMA_DIRECTION_TO_DEVICE conf) =
      Dma_to_device off"
    and "dma_classify (programmed (area_addr off) t (of_nat n) AURORA_HW_DMA_DIRECTION_FROM_DEVICE conf) =
      Dma_from_device off"
proof -
  from assms have "off \<le> 4096" by simp
  note off = area_addr_props[OF this]
  have n: "unat (of_nat n :: u64) = n" using assms by (intro unat_of_nat64) simp
  have ne: "AURORA_HW_DMA_DIRECTION_FROM_DEVICE \<noteq> AURORA_HW_DMA_DIRECTION_TO_DEVICE"
    by (simp add: hw_defs)
  have fits: "dma_fits off n" using assms by (simp add: dma_fits_def hw_defs)
  show "dma_classify (programmed s (area_addr off) (of_nat n) AURORA_HW_DMA_DIRECTION_TO_DEVICE conf) =
      Dma_to_device off"
    "dma_classify (programmed (area_addr off) t (of_nat n) AURORA_HW_DMA_DIRECTION_FROM_DEVICE conf) =
      Dma_from_device off"
    by (simp_all add: dma_classify_def off n fits ne)
qed

text \<open>The state a completed transfer leaves, as far as later transfers are concerned.\<close>

definition transfer_done :: "'m qemu \<Rightarrow> ptr \<Rightarrow> ptr \<Rightarrow> AURORADevice \<Rightarrow> u8 list \<Rightarrow> ('m, 'z) aworld_scheme
    \<Rightarrow> ('m, 'z) aworld_scheme \<Rightarrow> bool" where
  "transfer_done q dev adev a bs w w' \<longleftrightarrow> linked dev adev w' \<and> touches dev adev w w' \<and>
     qlog w' = qlog w \<and>
     (\<exists>m. machine w' = raise_machine q AURORA_HW_IRQ_DMA_ENDED_VECTOR dev m) \<and>
     (\<exists>a'. adevs w' adev = Some a' \<and> status (dma a') = DMA_STATUS_IDLE \<and> buff (dma a') = bs \<and>
        regs a' = regs a)"

lemma transfer_to_device:
  assumes l: "linked dev adev w" and a: "adevs w adev = Some a"
    and idle: "status (dma a) = DMA_STATUS_IDLE"
    and ram: "guest_ram q ram is_ram" and r: "\<forall>i < n. is_ram (s + of_nat i)"
    and s: "unat s < 2 ^ 32" and fit: "off + n \<le> 4096"
  shows "\<exists>w'. regbar_writes q dev
      (dma_program s (area_addr off) (of_nat n) AURORA_HW_DMA_DIRECTION_TO_DEVICE) w = Inr w' \<and>
    transfer_done q dev adev a (blit off (mem_load (ram (machine w)) s n) (buff (dma a))) w w' \<and>
    ram (machine w') = ram (machine w)"
proof -
  from l a obtain pd where pd: "pdevs w dev = Some pd" and wf: "wf_dma (dma a)"
    by (auto simp: linked_def)
  have n: "unat (of_nat n :: u64) = n" using fit by (intro unat_of_nat64) simp
  have len: "length (slice off n (buff (dma a))) = n"
    using wf fit by (simp add: wf_dma_def hw_defs)
  obtain f m' where rd: "pci_dma_read q dev s (slice off n (buff (dma a))) (machine w) = (0, f, m')"
    and m': "ram m' = ram (machine w)" and f: "map f [0..<n] = mem_load (ram (machine w)) s n"
    using guest_ram_read[OF ram, of "slice off n (buff (dma a))" s] r len by metis
  let ?e = "config_upd (programmed s (area_addr off) (of_nat n) AURORA_HW_DMA_DIRECTION_TO_DEVICE) (dma a)"
  have sp: "dma_spec q dev ?e (machine w) =
      Some (?e\<lparr>buff := blit off (mem_load (ram (machine w)) s n) (buff (dma a))\<rparr>, m', [], True)"
    using wf s
    by (simp add: dma_spec_def classify_programmed(1)[OF fit] n rd f wf_dma_def mask_32 and_low32
        mask_log_def)
  obtain w' pd' where "regbar_writes q dev
      (dma_program s (area_addr off) (of_nat n) AURORA_HW_DMA_DIRECTION_TO_DEVICE) w = Inr w'"
    "linked dev adev w'" "touches dev adev w w'"
    "adevs w' adev = Some (a\<lparr>dma := ?e\<lparr>buff := blit off (mem_load (ram (machine w)) s n) (buff (dma a))\<rparr>\<rparr>)"
    "machine w' = raise_machine q AURORA_HW_IRQ_DMA_ENDED_VECTOR dev m'" "qlog w' = qlog w @ []"
    by (rule program_transfer[OF l a idle pd sp])
  with idle m' guest_ram_raise[OF ram] show ?thesis
    by (auto simp: transfer_done_def)
qed

lemma transfer_from_device:
  assumes l: "linked dev adev w" and a: "adevs w adev = Some a"
    and idle: "status (dma a) = DMA_STATUS_IDLE"
    and ram: "guest_ram q ram is_ram" and r: "\<forall>i < n. is_ram (t + of_nat i)"
    and t: "unat t < 2 ^ 32" and fit: "off + n \<le> 4096"
  shows "\<exists>w'. regbar_writes q dev
      (dma_program (area_addr off) t (of_nat n) AURORA_HW_DMA_DIRECTION_FROM_DEVICE) w = Inr w' \<and>
    transfer_done q dev adev a (buff (dma a)) w w' \<and>
    ram (machine w') = mem_store t (slice off n (buff (dma a))) (ram (machine w))"
proof -
  from l a obtain pd where pd: "pdevs w dev = Some pd" and wf: "wf_dma (dma a)"
    by (auto simp: linked_def)
  have n: "unat (of_nat n :: u64) = n" using fit by (intro unat_of_nat64) simp
  have len: "length (slice off n (buff (dma a))) = n"
    using wf fit by (simp add: wf_dma_def hw_defs)
  obtain m' where wr: "pci_dma_write q dev t (slice off n (buff (dma a))) (machine w) = (0, m')"
    and m': "ram m' = mem_store t (slice off n (buff (dma a))) (ram (machine w))"
    using guest_ram_write[OF ram, of "slice off n (buff (dma a))" t] r len by metis
  let ?e = "config_upd (programmed (area_addr off) t (of_nat n) AURORA_HW_DMA_DIRECTION_FROM_DEVICE) (dma a)"
  have sp: "dma_spec q dev ?e (machine w) = Some (?e, m', [], True)"
    using wf t
    by (simp add: dma_spec_def classify_programmed(2)[OF fit] n wr wf_dma_def mask_32 and_low32
        mask_log_def)
  obtain w' pd' where "regbar_writes q dev
      (dma_program (area_addr off) t (of_nat n) AURORA_HW_DMA_DIRECTION_FROM_DEVICE) w = Inr w'"
    "linked dev adev w'" "touches dev adev w w'" "adevs w' adev = Some (a\<lparr>dma := ?e\<rparr>)"
    "machine w' = raise_machine q AURORA_HW_IRQ_DMA_ENDED_VECTOR dev m'" "qlog w' = qlog w @ []"
    by (rule program_transfer[OF l a idle pd sp])
  with idle m' guest_ram_raise[OF ram] show ?thesis
    by (auto simp: transfer_done_def)
qed

section \<open>Properties of whole transfers\<close>

lemma sample_guest_ram: "guest_ram sample_qemu s_ram (\<lambda>_. True)"
  by (simp add: guest_ram_def)

text \<open>
  C8. A buffer of guest memory survives the trip through the device: programming a transfer of \<open>n\<close>
  bytes to the device and then one back, each by the five register writes of the driver,
  succeeds and leaves at the second buffer exactly the bytes the first one held, for every
  offset in the DMA area the block fits behind and every pair of buffers in RAM below 4 GiB,
  overlapping or not; nothing else of guest memory changes and no diagnostic is logged.
\<close>

theorem dma_round_trip:
  assumes l: "linked dev adev w" and a: "adevs w adev = Some a"
    and idle: "status (dma a) = DMA_STATUS_IDLE"
    and ram: "guest_ram q ram is_ram"
    and s: "\<forall>i < n. is_ram (s + of_nat i)" "unat s < 2 ^ 32"
    and t: "\<forall>i < n. is_ram (t + of_nat i)" "unat t < 2 ^ 32"
    and fit: "off + n \<le> 4096"
  shows "\<exists>w'. regbar_writes q dev
      (dma_program s (area_addr off) (of_nat n) AURORA_HW_DMA_DIRECTION_TO_DEVICE @
       dma_program (area_addr off) t (of_nat n) AURORA_HW_DMA_DIRECTION_FROM_DEVICE) w = Inr w' \<and>
    ram (machine w') = mem_store t (mem_load (ram (machine w)) s n) (ram (machine w)) \<and>
    mem_load (ram (machine w')) t n = mem_load (ram (machine w)) s n \<and>
    qlog w' = qlog w \<and> linked dev adev w'"
proof -
  let ?bs = "mem_load (ram (machine w)) s n"
  obtain w1 a1 where w1: "regbar_writes q dev
      (dma_program s (area_addr off) (of_nat n) AURORA_HW_DMA_DIRECTION_TO_DEVICE) w = Inr w1"
    "linked dev adev w1" "adevs w1 adev = Some a1" "status (dma a1) = DMA_STATUS_IDLE" "qlog w1 = qlog w"
    "ram (machine w1) = ram (machine w)" and b1: "buff (dma a1) = blit off ?bs (buff (dma a))"
    using transfer_to_device[OF l a idle ram s fit] by (auto simp: transfer_done_def)
  from l a have "length (buff (dma a)) = 4096" by (auto simp: linked_def wf_dma_def hw_defs)
  with fit have sl: "slice off n (buff (dma a1)) = ?bs" by (simp add: b1)
  obtain w2 where w2: "regbar_writes q dev
      (dma_program (area_addr off) t (of_nat n) AURORA_HW_DMA_DIRECTION_FROM_DEVICE) w1 = Inr w2"
    "linked dev adev w2" "qlog w2 = qlog w"
    "ram (machine w2) = mem_store t ?bs (ram (machine w))"
    using transfer_from_device[OF w1(2-4) ram t fit] w1(5,6) sl by (auto simp: transfer_done_def)
  have "mem_load (ram (machine w2)) t n = ?bs"
    unfolding w2(4) by (rule mem_load_store) (use fit in simp_all)
  with w1(1) w2 show ?thesis
    by (auto simp: regbar_writes_def foldE_append)
qed

theorem dma_round_trip_witness:
  "\<exists>w'. regbar_writes sample_qemu 16
      (dma_program 0x1000 (area_addr 8) (of_nat 4) AURORA_HW_DMA_DIRECTION_TO_DEVICE @
       dma_program (area_addr 8) 0x2080 (of_nat 4) AURORA_HW_DMA_DIRECTION_FROM_DEVICE)
      (sample_aworld sample_adev) = Inr w' \<and>
    mem_load (s_ram (machine w')) 0x2080 4 = [0, 1, 2, 3]"
proof -
  have "status (dma sample_adev) = DMA_STATUS_IDLE" by (simp add: sample_engine_def)
  moreover have "mem_load (s_ram sample_machine) 0x1000 4 = [0, 1, 2, 3]"
    by (simp add: mem_load_def upt_rec unsigned_ucast_eq)
  ultimately show ?thesis
    using dma_round_trip[OF sample_adev_linked _ _ sample_guest_ram, of sample_adev 4 "0x1000" "0x2080" 8]
    by auto
qed

text \<open>
  A transfer to the device touches only its block of the DMA area: after it, the bytes of the area
  outside the block and the scratch registers are what they were, the bytes of the block are those
  of guest memory, guest memory is unchanged, and no other device is touched.
\<close>

lemma dma_to_device_frame:
  assumes l: "linked dev adev w" and a: "adevs w adev = Some a"
    and idle: "status (dma a) = DMA_STATUS_IDLE"
    and ram: "guest_ram q ram is_ram"
    and s: "\<forall>i < n. is_ram (s + of_nat i)" "unat s < 2 ^ 32"
    and fit: "off + n \<le> 4096"
  shows "\<exists>w' a'. regbar_writes q dev
      (dma_program s (area_addr off) (of_nat n) AURORA_HW_DMA_DIRECTION_TO_DEVICE) w = Inr w' \<and>
    adevs w' adev = Some a' \<and> regs a' = regs a \<and> touches dev adev w w' \<and>
    ram (machine w') = ram (machine w) \<and>
    (\<forall>i < 4096. buff (dma a') ! i =
       (if off \<le> i \<and> i < off + n then ram (machine w) (s + of_nat (i - off)) else buff (dma a) ! i))"
proof -
  let ?bs = "mem_load (ram (machine w)) s n"
  obtain w' a' where w': "regbar_writes q dev
      (dma_program s (area_addr off) (of_nat n) AURORA_HW_DMA_DIRECTION_TO_DEVICE) w = Inr w'"
    "adevs w' adev = Some a'" "regs a' = regs a" "touches dev adev w w'"
    "ram (machine w') = ram (machine w)" and b: "buff (dma a') = blit off ?bs (buff (dma a))"
    using transfer_to_device[OF l a idle ram s fit] by (auto simp: transfer_done_def)
  from l a have len: "length (buff (dma a)) = 4096" by (auto simp: linked_def wf_dma_def hw_defs)
  have "buff (dma a') ! i =
       (if off \<le> i \<and> i < off + n then ram (machine w) (s + of_nat (i - off)) else buff (dma a) ! i)"
    if "i < 4096" for i
    using that fit len by (auto simp: b nth_blit mem_load_def)
  with w' show ?thesis by blast
qed

end
