(* ===== verification/Kernel_Env.thy ===== *)
theory Kernel_Env
  imports Aurora_HW "HOL-Library.Multiset"
begin

text \<open>
  The Linux kernel around the driver, and the driver's data. The kernel is not part of the
  repository: its functions are the record \<open>'k kernel\<close> of operations on an opaque state \<open>'k\<close>. The
  driver's own objects (\<open>driver/kernel/pciemu_module.h\<close>) live on a heap of \<open>struct pciemu_dev\<close>.

  The world also keeps, as bookkeeping of the proof only, the multiset of kernel resources the driver
  holds: an acquiring call that succeeds adds one, a releasing call removes one, and releasing
  what is not held is a fault (for \<open>pci_iounmap\<close> and \<open>kfree\<close> it is a wild pointer).
\<close>

section \<open>Kernel interface\<close>

datatype dma_data_direction = DMA_TO_DEVICE | DMA_FROM_DEVICE

definition EIO :: int where "EIO = 5"
definition ENOMEM :: int where "ENOMEM = 12"
definition EINVAL :: int where "EINVAL = 22"
definition ENOTTY :: int where "ENOTTY = 25"
definition ENOSPC :: int where "ENOSPC = 28"

lemmas errno_defs = EIO_def ENOMEM_def EINVAL_def ENOTTY_def ENOSPC_def

datatype irq_kind = PCI_IRQ_MSI | PCI_IRQ_MSIX

text \<open>
  \<open>take_irq\<close> is the arrival of an interrupt: \<open>Some\<close> when one is pending for the number. Functions
  that return an error pointer give its error code, 0 for a valid pointer. \<open>page_shift\<close> is
  \<open>PAGE_SHIFT\<close>, \<open>ioctl_to\<close> and \<open>ioctl_from\<close> the two request codes of \<open>pciemu_ioctl.h\<close>, which the \<open>_IOW\<close>
  and \<open>_IOR\<close> macros of the kernel headers compute.
\<close>

record 'k kernel =
  page_shift :: nat
  ioctl_to :: u32
  ioctl_from :: u32
  iowrite32 :: "u32 \<Rightarrow> u64 \<Rightarrow> 'k \<Rightarrow> 'k res"
  take_irq :: "int \<Rightarrow> 'k \<Rightarrow> 'k option"
  dma_map_page :: "ptr \<Rightarrow> ptr \<Rightarrow> u64 \<Rightarrow> u64 \<Rightarrow> dma_data_direction \<Rightarrow> 'k \<Rightarrow> u64 \<times> 'k"
  dma_mapping_error :: "ptr \<Rightarrow> u64 \<Rightarrow> 'k \<Rightarrow> bool"
  dma_unmap_page :: "ptr \<Rightarrow> u64 \<Rightarrow> u64 \<Rightarrow> dma_data_direction \<Rightarrow> 'k \<Rightarrow> 'k"
  put_page :: "ptr \<Rightarrow> 'k \<Rightarrow> 'k"
  get_user_pages_fast :: "u64 \<Rightarrow> nat \<Rightarrow> u32 \<Rightarrow> 'k \<Rightarrow> int \<times> ptr option \<times> 'k"
  io_remap_pfn_range :: "u64 \<Rightarrow> u64 \<Rightarrow> u64 \<Rightarrow> 'k \<Rightarrow> int \<times> 'k"
  pci_enable_device :: "ptr \<Rightarrow> 'k \<Rightarrow> int \<times> 'k"
  dma_set_mask_and_coherent :: "ptr \<Rightarrow> u64 \<Rightarrow> 'k \<Rightarrow> int \<times> 'k"
  pci_select_bars :: "ptr \<Rightarrow> 'k \<Rightarrow> u32"
  pci_request_selected_regions :: "ptr \<Rightarrow> u32 \<Rightarrow> 'k \<Rightarrow> int \<times> 'k"
  pci_resource_start :: "ptr \<Rightarrow> nat \<Rightarrow> 'k \<Rightarrow> u64"
  pci_resource_end :: "ptr \<Rightarrow> nat \<Rightarrow> 'k \<Rightarrow> u64"
  pci_resource_len :: "ptr \<Rightarrow> nat \<Rightarrow> 'k \<Rightarrow> u64"
  pci_iomap :: "ptr \<Rightarrow> nat \<Rightarrow> u64 \<Rightarrow> 'k \<Rightarrow> u64 \<times> 'k"
  alloc_chrdev_region :: "'k \<Rightarrow> int \<times> u32 \<times> u32 \<times> 'k"
  cdev_add :: "ptr \<Rightarrow> u32 \<Rightarrow> u32 \<Rightarrow> 'k \<Rightarrow> int \<times> 'k"
  device_create :: "ptr \<Rightarrow> u32 \<Rightarrow> u32 \<Rightarrow> string \<Rightarrow> 'k \<Rightarrow> int \<times> 'k"
  pci_domain_nr :: "ptr \<Rightarrow> nat"
  pci_bus_number :: "ptr \<Rightarrow> nat"
  pci_devfn :: "ptr \<Rightarrow> u32"
  has_msix :: "ptr \<Rightarrow> 'k \<Rightarrow> bool"
  has_msi :: "ptr \<Rightarrow> 'k \<Rightarrow> bool"
  pci_msi_vec_count :: "ptr \<Rightarrow> 'k \<Rightarrow> int"
  pci_msix_vec_count :: "ptr \<Rightarrow> 'k \<Rightarrow> int"
  num_online_cpus :: "'k \<Rightarrow> int"
  pci_alloc_irq_vectors :: "ptr \<Rightarrow> int \<Rightarrow> int \<Rightarrow> irq_kind \<Rightarrow> 'k \<Rightarrow> int \<times> 'k"
  pci_irq_vector :: "ptr \<Rightarrow> u32 \<Rightarrow> 'k \<Rightarrow> int"
  request_irq :: "int \<Rightarrow> u32 \<Rightarrow> ptr \<Rightarrow> 'k \<Rightarrow> int \<times> 'k"
  class_create :: "string \<Rightarrow> 'k \<Rightarrow> int \<times> 'k"
  pci_register_driver :: "'k \<Rightarrow> int \<times> 'k"

section \<open>Driver data\<close>

record pciemu_bar =
  bar_start :: u64
  bar_end :: u64
  bar_len :: u64
  mmio :: u64

text \<open>A mutex whose memory has never been initialised is a state of its own.\<close>

datatype mutex = Mutex_garbage | Mutex_unlocked | Mutex_locked

record pciemu_dma =
  dma_handle :: u64
  dma_offset :: u64
  dma_len :: u64
  direction :: dma_data_direction
  dma_page :: ptr
  completion_done :: bool
  mtx :: mutex

record pciemu_irq =
  mmio_ack_irq :: u64
  irq_num :: int

record pciemu_dev =
  pdev :: ptr
  regbar :: pciemu_bar
  membar :: pciemu_bar
  internal_bar :: pciemu_bar
  dev_irq :: pciemu_irq
  dev_dma :: pciemu_dma
  minor :: u32
  major :: u32

datatype resource =
    R_memory ptr | R_enabled ptr | R_master ptr | R_regions ptr | R_iomap u64 | R_chrdev u32 u32
  | R_cdev ptr | R_node u32 u32 | R_vectors ptr | R_irq int | R_class | R_driver

record 'k kworld =
  kern :: 'k
  kdevs :: "ptr \<rightharpoonup> pciemu_dev"
  drvdata :: "ptr \<Rightarrow> ptr"
  held :: "resource multiset"

definition upd_kdev :: "ptr \<Rightarrow> (pciemu_dev \<Rightarrow> pciemu_dev) \<Rightarrow> 'k kworld \<Rightarrow> 'k kworld res" where
  "upd_kdev p f w = bindE (deref (kdevs w) p) (\<lambda>d. Inr (w\<lparr>kdevs := (kdevs w)(p \<mapsto> f d)\<rparr>))"

abbreviation dma_fields :: "(pciemu_dma \<Rightarrow> pciemu_dma) \<Rightarrow> pciemu_dev \<Rightarrow> pciemu_dev" where
  "dma_fields f d \<equiv> d\<lparr>dev_dma := f (dev_dma d)\<rparr>"

abbreviation irq_fields :: "(pciemu_irq \<Rightarrow> pciemu_irq) \<Rightarrow> pciemu_dev \<Rightarrow> pciemu_dev" where
  "irq_fields f d \<equiv> d\<lparr>dev_irq := f (dev_irq d)\<rparr>"

definition hold :: "resource \<Rightarrow> 'k kworld \<Rightarrow> 'k kworld" where
  "hold r w = w\<lparr>held := add_mset r (held w)\<rparr>"

definition release :: "resource \<Rightarrow> 'k kworld \<Rightarrow> 'k kworld res" where
  "release r w = (if r \<in># held w then Inr (w\<lparr>held := held w - {#r#}\<rparr>) else Inl BadPointer)"

section \<open>Kernel services used by several functions\<close>

definition do_iowrite32 :: "'k kernel \<Rightarrow> u32 \<Rightarrow> u64 \<Rightarrow> 'k kworld \<Rightarrow> 'k kworld res" where
  "do_iowrite32 K v a w = bindE (iowrite32 K v a (kern w)) (\<lambda>k. Inr (w\<lparr>kern := k\<rparr>))"

definition mutex_init :: "ptr \<Rightarrow> 'k kworld \<Rightarrow> 'k kworld res" where
  "mutex_init p w = upd_kdev p (dma_fields (\<lambda>x. x\<lparr>mtx := Mutex_unlocked\<rparr>)) w"

text \<open>A second lock by the same thread of execution never returns.\<close>

definition mutex_lock :: "ptr \<Rightarrow> 'k kworld \<Rightarrow> 'k kworld res" where
  "mutex_lock p w =
     bindE (deref (kdevs w) p) (\<lambda>d.
       case mtx (dev_dma d) of
         Mutex_garbage \<Rightarrow> Inl Uninitialised
       | Mutex_locked \<Rightarrow> Inl Deadlock
       | Mutex_unlocked \<Rightarrow> upd_kdev p (dma_fields (\<lambda>x. x\<lparr>mtx := Mutex_locked\<rparr>)) w)"

definition mutex_unlock :: "ptr \<Rightarrow> 'k kworld \<Rightarrow> 'k kworld res" where
  "mutex_unlock p w = upd_kdev p (dma_fields (\<lambda>x. x\<lparr>mtx := Mutex_unlocked\<rparr>)) w"

lemma upd_kdev_live [simp]:
  "p \<noteq> NULL \<Longrightarrow> kdevs w p = Some d \<Longrightarrow> upd_kdev p f w = Inr (w\<lparr>kdevs := (kdevs w)(p \<mapsto> f d)\<rparr>)"
  by (simp add: upd_kdev_def)

lemma hold_simps [simp]:
  "kern (hold r w) = kern w" "kdevs (hold r w) = kdevs w" "drvdata (hold r w) = drvdata w"
  "held (hold r w) = add_mset r (held w)"
  by (simp_all add: hold_def)

lemma release_held [simp]:
  "held w = add_mset r M \<Longrightarrow> release r w = Inr (w\<lparr>held := M\<rparr>)"
  by (simp add: release_def)

end
