(* ===== verification/Drv_Irq.thy ===== *)
theory Drv_Irq
  imports Kernel_Env
begin

text \<open>
  Interrupts of the driver, \<open>driver/kernel/pciemu_irq.c\<close>: the handler of the end of a DMA transfer, and
  the allocation of the interrupt vector at probe time.
\<close>

section \<open>Handler\<close>

definition pciemu_irq_handler :: "'k kernel \<Rightarrow> ptr \<Rightarrow> 'k kworld \<Rightarrow> 'k kworld res" where
  "pciemu_irq_handler K dev w =
     bindE (deref (kdevs w) dev) (\<lambda>d.
       let w = w\<lparr>kern := dma_unmap_page K (pdev d) (dma_handle (dev_dma d)) (dma_len (dev_dma d))
                           (direction (dev_dma d)) (kern w)\<rparr>;
           w = w\<lparr>kern := put_page K (dma_page (dev_dma d)) (kern w)\<rparr>
       in bindE (do_iowrite32 K 1 (mmio_ack_irq (dev_irq d)) w)
            (upd_kdev dev (dma_fields (\<lambda>x. x\<lparr>completion_done := True\<rparr>))))"

text \<open>
  \<open>wait_for_completion\<close>: returns when the completion is done; until then the interrupt of the
  device may arrive and its handler runs. When none is pending, or the handler has not completed it,
  nobody ever will.
\<close>

definition wait_for_completion :: "'k kernel \<Rightarrow> ptr \<Rightarrow> 'k kworld \<Rightarrow> 'k kworld res" where
  "wait_for_completion K dev w =
     bindE (deref (kdevs w) dev) (\<lambda>d.
       if completion_done (dev_dma d) then Inr w
       else case take_irq K (irq_num (dev_irq d)) (kern w) of
              None \<Rightarrow> Inl Deadlock
            | Some k \<Rightarrow> bindE (pciemu_irq_handler K dev (w\<lparr>kern := k\<rparr>)) (\<lambda>w.
                bindE (deref (kdevs w) dev) (\<lambda>d.
                  if completion_done (dev_dma d) then Inr w else Inl Deadlock)))"

section \<open>Allocation\<close>

text \<open>
  \<open>pciemu_irq_enable_msi\<close> and \<open>pciemu_irq_enable_msix\<close> are the same text for the two kinds of vectors;
  \<open>vec_count\<close> is the function that asks for their number. First the part after the allocation: the
  number of the interrupt, its registration, and the address of the acknowledge register.
\<close>

definition request_vector :: "'k kernel \<Rightarrow> ptr \<Rightarrow> pciemu_dev \<Rightarrow> 'k kworld \<Rightarrow> (int \<times> 'k kworld) res" where
  "request_vector K dev d w =
     (let n = pci_irq_vector K (pdev d) PCIEMU_HW_IRQ_DMA_ENDED_VECTOR (kern w) in
      bindE (upd_kdev dev (irq_fields (\<lambda>x. x\<lparr>irq_num := n\<rparr>)) w) (\<lambda>w.
        if n < 0 then bindE (release (R_vectors (pdev d)) w) (\<lambda>w. Inr (- EINVAL, w))
        else let (err, k) = request_irq K n PCIEMU_HW_IRQ_DMA_ENDED_VECTOR dev (kern w);
                 w = w\<lparr>kern := k\<rparr>
             in if err \<noteq> 0 then bindE (release (R_vectors (pdev d)) w) (\<lambda>w. Inr (err, w))
                else bindE (upd_kdev dev (irq_fields (\<lambda>x. x\<lparr>mmio_ack_irq :=
                               mmio (regbar d) + PCIEMU_HW_IRQ_DMA_ACK_ADDR\<rparr>)) (hold (R_irq n) w))
                       (\<lambda>w. Inr (0, w))))"

definition irq_enable_kind :: "'k kernel \<Rightarrow> irq_kind \<Rightarrow> (ptr \<Rightarrow> 'k \<Rightarrow> int) \<Rightarrow> ptr \<Rightarrow> 'k kworld
    \<Rightarrow> (int \<times> 'k kworld) res" where
  "irq_enable_kind K kind vec_count dev w =
     bindE (deref (kdevs w) dev) (\<lambda>d.
       let vecs_req = min (vec_count (pdev d) (kern w)) (num_online_cpus K (kern w) + 1);
           (vecs, k) = pci_alloc_irq_vectors K (pdev d) vecs_req vecs_req kind (kern w);
           w = w\<lparr>kern := k\<rparr>
       in if vecs < 0 then Inr (- ENOSPC, w)
          else let w = hold (R_vectors (pdev d)) w
               in if vecs \<noteq> vecs_req then
                    bindE (release (R_vectors (pdev d)) w) (\<lambda>w. Inr (- ENOSPC, w))
                  else request_vector K dev d w)"

definition pciemu_irq_enable_msi :: "'k kernel \<Rightarrow> ptr \<Rightarrow> 'k kworld \<Rightarrow> (int \<times> 'k kworld) res" where
  "pciemu_irq_enable_msi K dev w = irq_enable_kind K PCI_IRQ_MSI (pci_msi_vec_count K) dev w"

definition pciemu_irq_enable_msix :: "'k kernel \<Rightarrow> ptr \<Rightarrow> 'k kworld \<Rightarrow> (int \<times> 'k kworld) res" where
  "pciemu_irq_enable_msix K dev w = irq_enable_kind K PCI_IRQ_MSIX (pci_msix_vec_count K) dev w"

text \<open>The function has no return statement for a device with neither capability.\<close>

definition pciemu_irq_enable :: "'k kernel \<Rightarrow> ptr \<Rightarrow> 'k kworld \<Rightarrow> (int \<times> 'k kworld) res" where
  "pciemu_irq_enable K dev w =
     bindE (deref (kdevs w) dev) (\<lambda>d.
       if has_msix K (pdev d) (kern w) then pciemu_irq_enable_msix K dev w
       else if has_msi K (pdev d) (kern w) then pciemu_irq_enable_msi K dev w
       else Inl NoReturnValue)"

section \<open>What enabling leaves behind\<close>

text \<open>
  A call either succeeds, and then holds the vectors and the interrupt whose number it has stored,
  or fails with a non-zero code and holds nothing new.
\<close>

definition irq_enabled :: "ptr \<Rightarrow> pciemu_dev \<Rightarrow> 'k kworld \<Rightarrow> int \<Rightarrow> 'k kworld \<Rightarrow> bool" where
  "irq_enabled dev d w err w' \<longleftrightarrow>
     drvdata w' = drvdata w \<and>
     (\<exists>i. kdevs w' = (kdevs w)(dev \<mapsto> d\<lparr>dev_irq := i\<rparr>) \<and>
        (if err = 0 then 0 \<le> irq_num i \<and> mmio_ack_irq i = mmio (regbar d) + PCIEMU_HW_IRQ_DMA_ACK_ADDR \<and>
           held w' = add_mset (R_irq (irq_num i)) (add_mset (R_vectors (pdev d)) (held w))
         else held w' = held w))"

lemma request_vector_cases:
  assumes nn: "dev \<noteq> NULL" and d: "kdevs w dev = Some d"
    and h: "held w = add_mset (R_vectors (pdev d)) H"
  shows "\<exists>err w'. request_vector K dev d w = Inr (err, w') \<and> irq_enabled dev d (w\<lparr>held := H\<rparr>) err w'"
proof -
  let ?n = "pci_irq_vector K (pdev d) PCIEMU_HW_IRQ_DMA_ENDED_VECTOR (kern w)"
  obtain err k where r: "request_irq K ?n PCIEMU_HW_IRQ_DMA_ENDED_VECTOR dev (kern w) = (err, k)"
    by (cases "request_irq K ?n PCIEMU_HW_IRQ_DMA_ENDED_VECTOR dev (kern w)")
  note simps = request_vector_def Let_def nn d h r irq_enabled_def
  consider (neg) "?n < 0" | (fail) "0 \<le> ?n" "err \<noteq> 0" | (ok) "0 \<le> ?n" "err = 0" by linarith
  then show ?thesis
  proof cases
    case neg
    then show ?thesis by (auto simp: simps EINVAL_def)
  next
    case fail
    then show ?thesis by (auto simp: simps)
  next
    case ok
    then show ?thesis by (auto simp: simps)
  qed
qed

lemma enable_kind_cases:
  assumes nn: "dev \<noteq> NULL" and d: "kdevs w dev = Some d"
  shows "\<exists>err w'. irq_enable_kind K kind vec_count dev w = Inr (err, w') \<and> irq_enabled dev d w err w'"
proof -
  let ?req = "min (vec_count (pdev d) (kern w)) (num_online_cpus K (kern w) + 1)"
  obtain vecs k where a: "pci_alloc_irq_vectors K (pdev d) ?req ?req kind (kern w) = (vecs, k)"
    by (cases "pci_alloc_irq_vectors K (pdev d) ?req ?req kind (kern w)")
  let ?u = "hold (R_vectors (pdev d)) (w\<lparr>kern := k\<rparr>)"
  have u: "kdevs ?u dev = Some d" "held ?u = add_mset (R_vectors (pdev d)) (held w)"
    using d by simp_all
  have keep: "irq_enabled dev d w (- ENOSPC) (w\<lparr>kern := k\<rparr>)"
    "irq_enabled dev d w (- ENOSPC) (?u\<lparr>held := held w\<rparr>)"
    using d by (auto simp: irq_enabled_def ENOSPC_def intro!: exI[of _ "dev_irq d"])
  obtain err w' where rv: "request_vector K dev d ?u = Inr (err, w')"
    "irq_enabled dev d (?u\<lparr>held := held w\<rparr>) err w'"
    using request_vector_cases[OF nn u] by blast
  have "irq_enabled dev d (?u\<lparr>held := held w\<rparr>) err w' = irq_enabled dev d w err w'"
    by (simp add: irq_enabled_def)
  with rv keep nn d a show ?thesis
    by (simp add: irq_enable_kind_def Let_def)
qed

lemma irq_enable_cases:
  assumes "dev \<noteq> NULL" and "kdevs w dev = Some d"
    and "has_msix K (pdev d) (kern w) \<or> has_msi K (pdev d) (kern w)"
  shows "\<exists>err w'. pciemu_irq_enable K dev w = Inr (err, w') \<and> irq_enabled dev d w err w'"
  using assms enable_kind_cases[OF assms(1,2)]
  by (auto simp: pciemu_irq_enable_def pciemu_irq_enable_msix_def pciemu_irq_enable_msi_def)

end
