(* ===== verification/Drv_Dma.thy ===== *)
theory Drv_Dma
  imports Drv_Irq
begin

text \<open>
  DMA transfers of the driver, \<open>driver/kernel/pciemu_dma.c\<close>.
\<close>

definition pciemu_dma_struct_init :: "u64 \<Rightarrow> u64 \<Rightarrow> dma_data_direction \<Rightarrow> pciemu_dma \<Rightarrow> pciemu_dma" where
  "pciemu_dma_struct_init ofs n drctn x =
     x\<lparr>dma_offset := ofs, dma_len := n, direction := drctn, completion_done := False\<rparr>"

text \<open>A sequence of \<open>iowrite32\<close> calls to offsets behind a base address.\<close>

definition iowrites :: "'k kernel \<Rightarrow> u64 \<Rightarrow> (u64 \<times> u32) list \<Rightarrow> 'k kworld \<Rightarrow> 'k kworld res" where
  "iowrites K base xs w = foldE (\<lambda>(off, v). do_iowrite32 K v (base + off)) xs w"

text \<open>
  The body the two functions share: lock, record the transfer, map the page, write the registers
  (\<open>prog\<close>, given the bus address), wait for the interrupt, unlock.
\<close>

definition dma_transfer :: "'k kernel \<Rightarrow> ptr \<Rightarrow> ptr \<Rightarrow> u64 \<Rightarrow> u64 \<Rightarrow> dma_data_direction
    \<Rightarrow> (u64 \<Rightarrow> u64 \<Rightarrow> (u64 \<times> u32) list) \<Rightarrow> 'k kworld \<Rightarrow> (int \<times> 'k kworld) res" where
  "dma_transfer K dev page ofs n drctn prog w =
     bindE (deref (kdevs w) dev) (\<lambda>d0.
     bindE (mutex_lock dev w) (\<lambda>w.
     bindE (upd_kdev dev (dma_fields (pciemu_dma_struct_init ofs n drctn)) w) (\<lambda>w.
     bindE (deref (kdevs w) dev) (\<lambda>d.
       let (handle, k) = dma_map_page K (pdev d0) page (dma_offset (dev_dma d)) (dma_len (dev_dma d))
                           (direction (dev_dma d)) (kern w)
       in bindE (upd_kdev dev (dma_fields (\<lambda>x. x\<lparr>dma_handle := handle\<rparr>)) (w\<lparr>kern := k\<rparr>)) (\<lambda>w.
          if dma_mapping_error K (pdev d0) handle (kern w) then
            bindE (mutex_unlock dev w) (\<lambda>w. Inr (- ENOMEM, w))
          else
            bindE (iowrites K (mmio (regbar d0)) (prog handle (dma_len (dev_dma d))) w) (\<lambda>w.
            bindE (wait_for_completion K dev w) (\<lambda>w.
            bindE (mutex_unlock dev w) (\<lambda>w. Inr (0, w)))))))))"

text \<open>The register writes of a transfer: source, destination, length, command, doorbell.\<close>

definition transfer_program :: "dma_data_direction \<Rightarrow> u64 \<Rightarrow> u64 \<Rightarrow> (u64 \<times> u32) list" where
  "transfer_program drctn handle n =
     (case drctn of
        DMA_TO_DEVICE \<Rightarrow>
          [(PCIEMU_HW_REG_DMA_CFG_TXDESC_SRC, ucast handle),
           (PCIEMU_HW_REG_DMA_CFG_TXDESC_DST, ucast PCIEMU_HW_DMA_AREA_START),
           (PCIEMU_HW_REG_DMA_CFG_TXDESC_LEN, ucast n),
           (PCIEMU_HW_REG_DMA_CFG_CMD, ucast PCIEMU_HW_DMA_DIRECTION_TO_DEVICE),
           (PCIEMU_HW_REG_DMA_DOORBELL_RING, 1)]
      | DMA_FROM_DEVICE \<Rightarrow>
          [(PCIEMU_HW_REG_DMA_CFG_TXDESC_SRC, ucast PCIEMU_HW_DMA_AREA_START),
           (PCIEMU_HW_REG_DMA_CFG_TXDESC_DST, ucast handle),
           (PCIEMU_HW_REG_DMA_CFG_TXDESC_LEN, ucast n),
           (PCIEMU_HW_REG_DMA_CFG_CMD, ucast PCIEMU_HW_DMA_DIRECTION_FROM_DEVICE),
           (PCIEMU_HW_REG_DMA_DOORBELL_RING, 1)])"

definition pciemu_dma_from_host_to_device :: "'k kernel \<Rightarrow> ptr \<Rightarrow> ptr \<Rightarrow> u64 \<Rightarrow> u64 \<Rightarrow> 'k kworld
    \<Rightarrow> (int \<times> 'k kworld) res" where
  "pciemu_dma_from_host_to_device K dev page ofs n w =
     dma_transfer K dev page ofs n DMA_TO_DEVICE (transfer_program DMA_TO_DEVICE) w"

definition pciemu_dma_from_device_to_host :: "'k kernel \<Rightarrow> ptr \<Rightarrow> ptr \<Rightarrow> u64 \<Rightarrow> u64 \<Rightarrow> 'k kworld
    \<Rightarrow> (int \<times> 'k kworld) res" where
  "pciemu_dma_from_device_to_host K dev page ofs n w =
     dma_transfer K dev page ofs n DMA_FROM_DEVICE (transfer_program DMA_FROM_DEVICE) w"

lemma length_transfer_program [simp]: "length (transfer_program drctn handle n) = 5"
  by (simp add: transfer_program_def split: dma_data_direction.split)

end
