(* ===== verification/Drv_Module.thy ===== *)
theory Drv_Module
  imports Drv_Dma
begin

text \<open>
  The driver module, \<open>driver/kernel/pciemu_module.c\<close>: file operations, probing and removing a device,
  loading and unloading. Messages to the kernel log are left out.
\<close>

section \<open>Supported devices\<close>

text \<open>The ids of \<open>pciemu_id_tbl\<close>, up to its empty entry.\<close>

definition pciemu_id_tbl :: "(u16 \<times> u16) list" where
  "pciemu_id_tbl = [(PCIEMU_HW_VENDOR_ID, PCIEMU_HW_DEVICE_ID)]"

section \<open>File operations\<close>

text \<open>\<open>fp->private_data\<close> is the second result.\<close>

definition pciemu_open :: "ptr \<Rightarrow> 'k kworld \<Rightarrow> (int \<times> ptr option) res" where
  "pciemu_open dev w =
     bindE (deref (kdevs w) dev) (\<lambda>d.
       if bar_len (regbar d) = 0 then Inr (- EIO, None) else Inr (0, Some dev))"

definition pciemu_mmap :: "'k kernel \<Rightarrow> ptr \<Rightarrow> u64 \<Rightarrow> u64 \<Rightarrow> 'k kworld \<Rightarrow> (int \<times> 'k kworld) res" where
  "pciemu_mmap K dev vm_start vm_end w =
     bindE (deref (kdevs w) dev) (\<lambda>d.
       let pfn = drop_bit (page_shift K) (bar_start (regbar d))
       in if bar_len (regbar d) < vm_end - vm_start then Inr (- EIO, w)
          else let (ret, k) = io_remap_pfn_range K vm_start pfn (vm_end - vm_start) (kern w)
               in Inr (ret, w\<lparr>kern := k\<rparr>))"

definition PAGE_SIZE :: "'k kernel \<Rightarrow> u64" where
  "PAGE_SIZE K = push_bit (page_shift K) 1"

definition PAGE_MASK :: "'k kernel \<Rightarrow> u64" where
  "PAGE_MASK K = NOT (PAGE_SIZE K - 1)"

definition ioctl_ofs :: "'k kernel \<Rightarrow> u64 \<Rightarrow> u64" where
  "ioctl_ofs K vaddr = vaddr AND NOT (PAGE_MASK K)"

definition ioctl_len :: "'k kernel \<Rightarrow> u64 \<Rightarrow> u64" where
  "ioctl_len K vaddr =
     (if PAGE_SIZE K < ioctl_ofs K vaddr + 4 then PAGE_SIZE K - ioctl_ofs K vaddr else 4)"

text \<open>Pinning the page of the user's integer; its address is stored in the device object.\<close>

definition pin_user_page :: "'k kernel \<Rightarrow> ptr \<Rightarrow> u64 \<Rightarrow> 'k kworld \<Rightarrow> (int \<times> 'k kworld) res" where
  "pin_user_page K dev vaddr w =
     (let (pinned, page, k) = get_user_pages_fast K vaddr 1 0 (kern w);
          w = w\<lparr>kern := k\<rparr>
      in case page of None \<Rightarrow> Inr (pinned, w)
         | Some p \<Rightarrow> bindE (upd_kdev dev (dma_fields (\<lambda>x. x\<lparr>dma_page := p\<rparr>)) w) (\<lambda>w. Inr (pinned, w)))"

definition pciemu_ioctl :: "'k kernel \<Rightarrow> ptr \<Rightarrow> u32 \<Rightarrow> u64 \<Rightarrow> 'k kworld \<Rightarrow> (int \<times> 'k kworld) res" where
  "pciemu_ioctl K dev request vaddr w =
     bindE (deref (kdevs w) dev) (\<lambda>_.
       let ofs = ioctl_ofs K vaddr; n = ioctl_len K vaddr
       in if request = ioctl_to K then
            bindE (pin_user_page K dev vaddr w) (\<lambda>(pinned, w).
              if pinned = 1 then
                bindE (deref (kdevs w) dev) (\<lambda>d.
                bindE (pciemu_dma_from_host_to_device K dev (dma_page (dev_dma d)) ofs n w) (\<lambda>(_, w).
                  Inr (0, w)))
              else Inr (0, w))
          else if request = ioctl_from K then
            bindE (pin_user_page K dev vaddr w) (\<lambda>(pinned, w).
              if pinned = 1 then
                bindE (deref (kdevs w) dev) (\<lambda>d.
                bindE (pciemu_dma_from_device_to_host K dev (dma_page (dev_dma d)) ofs n w) (\<lambda>(_, w).
                  Inr (0, w)))
              else Inr (0, w))
          else Inr (- ENOTTY, w))"

section \<open>The device object\<close>

definition clean_bar :: "pciemu_bar \<Rightarrow> pciemu_bar" where
  "clean_bar b = b\<lparr>bar_start := 0, bar_end := 0, bar_len := 0\<rparr>"

definition iounmap_if :: "u64 \<Rightarrow> 'k kworld \<Rightarrow> 'k kworld res" where
  "iounmap_if a w = (if a \<noteq> 0 then release (R_iomap a) w else Inr w)"

definition pciemu_dev_clean :: "ptr \<Rightarrow> 'k kworld \<Rightarrow> 'k kworld res" where
  "pciemu_dev_clean dev w =
     bindE (deref (kdevs w) dev) (\<lambda>d.
     bindE (upd_kdev dev (\<lambda>d. d\<lparr>regbar := clean_bar (regbar d)\<rparr>) w) (\<lambda>w.
     bindE (iounmap_if (mmio (regbar d)) w) (\<lambda>w.
     bindE (upd_kdev dev (\<lambda>d. d\<lparr>membar := clean_bar (membar d)\<rparr>) w) (\<lambda>w.
     bindE (iounmap_if (mmio (membar d)) w) (\<lambda>w.
     bindE (upd_kdev dev (\<lambda>d. d\<lparr>internal_bar := clean_bar (internal_bar d)\<rparr>) w) (\<lambda>w.
       iounmap_if (mmio (internal_bar d)) w))))))"

text \<open>Reading one BAR of the device and mapping it; the mapping is held when it is not null.\<close>

definition map_bar :: "'k kernel \<Rightarrow> ptr \<Rightarrow> nat \<Rightarrow> 'k kworld \<Rightarrow> pciemu_bar \<times> 'k kworld" where
  "map_bar K pd n w =
     (let s = pci_resource_start K pd n (kern w); e = pci_resource_end K pd n (kern w);
          l = pci_resource_len K pd n (kern w); (a, k) = pci_iomap K pd n l (kern w);
          w = w\<lparr>kern := k\<rparr>
      in (\<lparr>bar_start = s, bar_end = e, bar_len = l, mmio = a\<rparr>,
          if a \<noteq> 0 then hold (R_iomap a) w else w))"

definition pciemu_dev_init :: "'k kernel \<Rightarrow> ptr \<Rightarrow> ptr \<Rightarrow> 'k kworld \<Rightarrow> (int \<times> 'k kworld) res" where
  "pciemu_dev_init K dev pd w =
     bindE (upd_kdev dev (\<lambda>d. d\<lparr>pdev := pd\<rparr>) w) (\<lambda>w.
     let (b, w) = map_bar K pd PCIEMU_HW_REG_BAR w in
     bindE (upd_kdev dev (\<lambda>d. d\<lparr>regbar := b\<rparr>) w) (\<lambda>w.
     if mmio b = 0 then bindE (pciemu_dev_clean dev w) (\<lambda>w. Inr (- ENOMEM, w))
     else let (b, w) = map_bar K pd PCIEMU_HW_MEM_BAR w in
     bindE (upd_kdev dev (\<lambda>d. d\<lparr>membar := b\<rparr>) w) (\<lambda>w.
     if mmio b = 0 then bindE (pciemu_dev_clean dev w) (\<lambda>w. Inr (- ENOMEM, w))
     else let (b, w) = map_bar K pd PCIEMU_HW_INT_BAR w in
     bindE (upd_kdev dev (\<lambda>d. d\<lparr>internal_bar := b\<rparr>) w) (\<lambda>w.
     if mmio b = 0 then bindE (pciemu_dev_clean dev w) (\<lambda>w. Inr (- ENOMEM, w))
     else Inr (0, w\<lparr>drvdata := (drvdata w)(pd := dev)\<rparr>)))))"

definition kfree :: "ptr \<Rightarrow> 'k kworld \<Rightarrow> 'k kworld res" where
  "kfree p w = bindE (release (R_memory p) w) (\<lambda>w. Inr (w\<lparr>kdevs := (kdevs w)(p := None)\<rparr>))"

section \<open>Probe\<close>

text \<open>The labels of the error path, in the order of the source; each falls through to the next.\<close>

definition err_pciemu_alloc :: "int \<Rightarrow> 'k kworld \<Rightarrow> (int \<times> 'k kworld) res" where
  "err_pciemu_alloc err w = Inr (err, w)"

definition err_pci_enable :: "ptr \<Rightarrow> int \<Rightarrow> 'k kworld \<Rightarrow> (int \<times> 'k kworld) res" where
  "err_pci_enable dev err w = bindE (kfree dev w) (err_pciemu_alloc err)"

definition err_dma_set_mask :: "ptr \<Rightarrow> ptr \<Rightarrow> int \<Rightarrow> 'k kworld \<Rightarrow> (int \<times> 'k kworld) res" where
  "err_dma_set_mask dev pd err w = bindE (release (R_enabled pd) w) (err_pci_enable dev err)"

definition err_req_region :: "ptr \<Rightarrow> ptr \<Rightarrow> int \<Rightarrow> 'k kworld \<Rightarrow> (int \<times> 'k kworld) res" where
  "err_req_region dev pd err w = bindE (release (R_master pd) w) (err_dma_set_mask dev pd err)"

definition err_dev_init :: "ptr \<Rightarrow> ptr \<Rightarrow> int \<Rightarrow> 'k kworld \<Rightarrow> (int \<times> 'k kworld) res" where
  "err_dev_init dev pd err w = bindE (release (R_regions pd) w) (err_req_region dev pd err)"

definition err_alloc_chrdev :: "ptr \<Rightarrow> ptr \<Rightarrow> int \<Rightarrow> 'k kworld \<Rightarrow> (int \<times> 'k kworld) res" where
  "err_alloc_chrdev dev pd err w = bindE (pciemu_dev_clean dev w) (err_dev_init dev pd err)"

definition err_cdev_add :: "ptr \<Rightarrow> ptr \<Rightarrow> int \<Rightarrow> 'k kworld \<Rightarrow> (int \<times> 'k kworld) res" where
  "err_cdev_add dev pd err w =
     bindE (deref (kdevs w) dev) (\<lambda>d.
     bindE (release (R_chrdev (major d) (minor d)) w) (err_alloc_chrdev dev pd err))"

definition err_device_create :: "ptr \<Rightarrow> ptr \<Rightarrow> int \<Rightarrow> 'k kworld \<Rightarrow> (int \<times> 'k kworld) res" where
  "err_device_create dev pd err w = bindE (release (R_cdev dev) w) (err_cdev_add dev pd err)"

definition err_irq_enable :: "ptr \<Rightarrow> ptr \<Rightarrow> int \<Rightarrow> 'k kworld \<Rightarrow> (int \<times> 'k kworld) res" where
  "err_irq_enable dev pd err w =
     bindE (deref (kdevs w) dev) (\<lambda>d.
     bindE (release (R_node (major d) (minor d)) w) (err_device_create dev pd err))"

text \<open>Lower-case hexadecimal without leading zeros, the \<open>%x\<close> conversion, and \<open>%u\<close>.\<close>

definition digit_char :: "nat \<Rightarrow> char" where
  "digit_char n = char_of (if n < 10 then 48 + n else 87 + n)"

fun print_base :: "nat \<Rightarrow> nat \<Rightarrow> string" where
  "print_base b n =
     (if b < 2 \<or> n < b then [digit_char n] else print_base b (n div b) @ [digit_char (n mod b)])"

declare print_base.simps [simp del]

text \<open>The name handed to \<open>device_create\<close>: \<open>d%xb%xd%xf%x_bar%u\<close>.\<close>

definition PCI_SLOT :: "u32 \<Rightarrow> nat" where
  "PCI_SLOT devfn = unat (drop_bit 3 devfn AND 0x1f)"

definition PCI_FUNC :: "u32 \<Rightarrow> nat" where
  "PCI_FUNC devfn = unat (devfn AND 0x07)"

definition node_name :: "nat \<Rightarrow> nat \<Rightarrow> nat \<Rightarrow> nat \<Rightarrow> string" where
  "node_name domain bus slot func =
     ''d'' @ print_base 16 domain @ ''b'' @ print_base 16 bus @ ''d'' @ print_base 16 slot @
     ''f'' @ print_base 16 func @ ''_bar'' @ print_base 10 0"

text \<open>
  The successful path after each step; \<open>mres\<close> is what \<open>kmalloc\<close> returns, with the contents of the
  new memory.
\<close>

definition probe_irq :: "'k kernel \<Rightarrow> ptr \<Rightarrow> ptr \<Rightarrow> 'k kworld \<Rightarrow> (int \<times> 'k kworld) res" where
  "probe_irq K dev pd w =
     bindE (pciemu_irq_enable K dev w) (\<lambda>(err, w).
       if err \<noteq> 0 then err_irq_enable dev pd err w
       else bindE (mutex_init dev w) (\<lambda>w. Inr (0, w)))"

definition probe_chrdev :: "'k kernel \<Rightarrow> ptr \<Rightarrow> ptr \<Rightarrow> 'k kworld \<Rightarrow> (int \<times> 'k kworld) res" where
  "probe_chrdev K dev pd w =
     (let (err, ma, mi, k) = alloc_chrdev_region K (kern w); w = w\<lparr>kern := k\<rparr>
      in if err \<noteq> 0 then err_alloc_chrdev dev pd err w
         else bindE (upd_kdev dev (\<lambda>d. d\<lparr>minor := mi, major := ma\<rparr>) (hold (R_chrdev ma mi) w)) (\<lambda>w.
         let (err, k) = cdev_add K dev ma mi (kern w); w = w\<lparr>kern := k\<rparr>
         in if err \<noteq> 0 then err_cdev_add dev pd err w
            else let w = hold (R_cdev dev) w;
                     (err, k) = device_create K pd ma mi
                        (node_name (pci_domain_nr K pd) (pci_bus_number K pd) (PCI_SLOT (pci_devfn K pd))
                           (PCI_FUNC (pci_devfn K pd))) (kern w);
                     w = w\<lparr>kern := k\<rparr>
                 in if err \<noteq> 0 then err_device_create dev pd err w
                    else probe_irq K dev pd (hold (R_node ma mi) w)))"

definition pciemu_probe :: "'k kernel \<Rightarrow> (ptr \<times> pciemu_dev) option \<Rightarrow> ptr \<Rightarrow> 'k kworld
    \<Rightarrow> (int \<times> 'k kworld) res" where
  "pciemu_probe K mres pd w =
     (case mres of
        None \<Rightarrow> err_pciemu_alloc (- ENOMEM) w
      | Some (dev, contents) \<Rightarrow>
          let w = hold (R_memory dev) (w\<lparr>kdevs := (kdevs w)(dev \<mapsto> contents)\<rparr>);
              (err, k) = pci_enable_device K pd (kern w); w = w\<lparr>kern := k\<rparr>
          in if err \<noteq> 0 then err_pci_enable dev err w
             else let w = hold (R_enabled pd) w;
                      (err, k) = dma_set_mask_and_coherent K pd
                                   (push_bit PCIEMU_HW_DMA_ADDR_CAPABILITY 1 - 1) (kern w); w = w\<lparr>kern := k\<rparr>
                  in if err \<noteq> 0 then err_dma_set_mask dev pd err w
                     else let w = hold (R_master pd) w; mem_bars = pci_select_bars K pd (kern w)
                          in if mem_bars AND push_bit PCIEMU_HW_REG_BAR 1 = 0 then err_req_region dev pd err w
                             else let (err, k) = pci_request_selected_regions K pd mem_bars (kern w);
                                      w = w\<lparr>kern := k\<rparr>
                                  in if err \<noteq> 0 then err_req_region dev pd err w
                                     else bindE (pciemu_dev_init K dev pd (hold (R_regions pd) w)) (\<lambda>(err, w).
                                       if err \<noteq> 0 then err_dev_init dev pd err w
                                       else probe_chrdev K dev pd w))"

section \<open>Remove, load, unload\<close>

definition pciemu_remove :: "ptr \<Rightarrow> 'k kworld \<Rightarrow> 'k kworld res" where
  "pciemu_remove pd w =
     (let dev = drvdata w pd in
      bindE (deref (kdevs w) dev) (\<lambda>d.
      bindE (release (R_node (major d) (minor d)) w) (\<lambda>w.
      bindE (release (R_cdev dev) w) (\<lambda>w.
      bindE (release (R_chrdev (major d) (minor d)) w) (\<lambda>w.
      bindE (pciemu_dev_clean dev w) (\<lambda>w.
      bindE (release (R_master pd) w) (\<lambda>w.
      bindE (release (R_irq (irq_num (dev_irq d))) w) (\<lambda>w.
      bindE (release (R_vectors pd) w) (\<lambda>w.
      bindE (release (R_regions pd) w) (\<lambda>w.
      bindE (release (R_enabled pd) w) (\<lambda>w.
        kfree dev w)))))))))))"

definition pciemu_module_init :: "'k kernel \<Rightarrow> 'k kworld \<Rightarrow> (int \<times> 'k kworld) res" where
  "pciemu_module_init K w =
     (let (err, k) = class_create K ''pciemu'' (kern w); w = w\<lparr>kern := k\<rparr>
      in if err \<noteq> 0 then Inr (err, w)
         else let w = hold R_class w; (err, k) = pci_register_driver K (kern w); w = w\<lparr>kern := k\<rparr>
              in if err \<noteq> 0 then bindE (release R_class w) (\<lambda>w. Inr (err, w))
                 else Inr (0, hold R_driver w))"

definition pciemu_module_exit :: "'k kworld \<Rightarrow> 'k kworld res" where
  "pciemu_module_exit w = bindE (release R_driver w) (release R_class)"

definition pciemu_devnode :: "bool \<Rightarrow> string \<Rightarrow> nat option \<times> string" where
  "pciemu_devnode mode_given name = (if mode_given then Some 0x1B6 else None, ''pciemu/'' @ name)"

section \<open>A concrete kernel\<close>

text \<open>
  A kernel in which every call succeeds and changes nothing: \<open>bars\<close> is the result of
  \<open>pci_select_bars\<close>, \<open>reg\<close> the address the register BAR is mapped at.
\<close>

definition plain_kernel :: "u32 \<Rightarrow> u64 \<Rightarrow> 'k kernel" where
  "plain_kernel bars reg =
     \<lparr>page_shift = 12, ioctl_to = 1, ioctl_from = 2, iowrite32 = (\<lambda>v a k. Inr k), take_irq = (\<lambda>n k. Some k),
      dma_map_page = (\<lambda>pd page ofs n dir k. (0x1000 + ofs, k)), dma_mapping_error = (\<lambda>pd h k. False),
      dma_unmap_page = (\<lambda>pd h n dir k. k), put_page = (\<lambda>p k. k),
      get_user_pages_fast = (\<lambda>a n f k. (1, Some 1, k)), io_remap_pfn_range = (\<lambda>a pfn n k. (0, k)),
      pci_enable_device = (\<lambda>pd k. (0, k)), dma_set_mask_and_coherent = (\<lambda>pd m k. (0, k)),
      pci_select_bars = (\<lambda>pd k. bars), pci_request_selected_regions = (\<lambda>pd b k. (0, k)),
      pci_resource_start = (\<lambda>pd n k. 0xE0000000), pci_resource_end = (\<lambda>pd n k. 0xE7FFFFFF),
      pci_resource_len = (\<lambda>pd n k. 0x8000000),
      pci_iomap = (\<lambda>pd n l k. (if n = PCIEMU_HW_REG_BAR then reg else 0x1000, k)),
      alloc_chrdev_region = (\<lambda>k. (0, 240, 0, k)), cdev_add = (\<lambda>dev ma mi k. (0, k)),
      device_create = (\<lambda>pd ma mi name k. (0, k)), pci_domain_nr = (\<lambda>pd. 0), pci_bus_number = (\<lambda>pd. 0),
      pci_devfn = (\<lambda>pd. 0x20), has_msix = (\<lambda>pd k. True), has_msi = (\<lambda>pd k. False),
      pci_msi_vec_count = (\<lambda>pd k. 1), pci_msix_vec_count = (\<lambda>pd k. 128), num_online_cpus = (\<lambda>k. 4),
      pci_alloc_irq_vectors = (\<lambda>pd lo hi kind k. (hi, k)), pci_irq_vector = (\<lambda>pd v k. 30),
      request_irq = (\<lambda>n f dev k. (0, k)), class_create = (\<lambda>s k. (0, k)),
      pci_register_driver = (\<lambda>k. (0, k))\<rparr>"

definition zero_bar :: pciemu_bar where
  "zero_bar = \<lparr>bar_start = 0, bar_end = 0, bar_len = 0, mmio = 0\<rparr>"

definition blank_dev :: pciemu_dev where
  "blank_dev = \<lparr>pdev = 0, regbar = zero_bar, membar = zero_bar, internal_bar = zero_bar,
     dev_irq = \<lparr>mmio_ack_irq = 0, irq_num = 0\<rparr>,
     dev_dma = \<lparr>dma_handle = 0, dma_offset = 0, dma_len = 0, direction = DMA_TO_DEVICE, dma_page = 0,
       completion_done = False, mtx = Mutex_garbage\<rparr>, minor = 0, major = 0\<rparr>"

definition plain_world :: "unit kworld" where
  "plain_world = \<lparr>kern = (), kdevs = Map.empty, drvdata = (\<lambda>_. NULL), held = {#R_class, R_driver#}\<rparr>"

section \<open>Errors of the system call\<close>



text \<open>
  The probe creates the device file before it initialises the mutex: a caller that is quick enough to open the
  file and to get its page pinned locks a mutex whose memory has never been initialised.
\<close>

lemma ioctl_before_mutex_init:
  assumes "p \<noteq> NULL" and "kdevs w p = Some d" and "mtx (dev_dma d) = Mutex_garbage"
    and "get_user_pages_fast K vaddr 1 0 (kern w) = (1, Some pg, k1)"
    and "request = ioctl_to K \<or> request = ioctl_from K"
  shows "pciemu_ioctl K p request vaddr w = Inl Uninitialised"
  using assms
  by (auto simp: pciemu_ioctl_def Let_def pin_user_page_def pciemu_dma_from_host_to_device_def
      pciemu_dma_from_device_to_host_def dma_transfer_def mutex_lock_def)

end
