(* ===== verification/Drv_Probe.thy ===== *)
theory Drv_Probe
  imports Drv_Module
begin

text \<open>
  Resources of the driver: every exit of \<open>pciemu_probe\<close> gives back what it took, \<open>pciemu_remove\<close>
  gives back what a successful probe left, and the exits where the source does not.
\<close>

section \<open>The error path\<close>

text \<open>What a device is left with when the unwinding is over: nothing.\<close>

abbreviation gone :: "ptr \<Rightarrow> resource multiset \<Rightarrow> 'k kworld \<Rightarrow> 'k kworld" where
  "gone dev M w \<equiv> w\<lparr>held := M, kdevs := (kdevs w)(dev := None)\<rparr>"

lemma unwind_early:
  "held w = add_mset (R_memory dev) M \<Longrightarrow> err_pci_enable dev err w = Inr (err, gone dev M w)"
  "held w = add_mset (R_enabled pd) (add_mset (R_memory dev) M) \<Longrightarrow>
     err_dma_set_mask dev pd err w = Inr (err, gone dev M w)"
  "held w = add_mset (R_master pd) (add_mset (R_enabled pd) (add_mset (R_memory dev) M)) \<Longrightarrow>
     err_req_region dev pd err w = Inr (err, gone dev M w)"
  "held w = add_mset (R_regions pd) (add_mset (R_master pd) (add_mset (R_enabled pd)
      (add_mset (R_memory dev) M))) \<Longrightarrow>
     err_dev_init dev pd err w = Inr (err, gone dev M w)"
  by (simp_all add: err_pci_enable_def err_dma_set_mask_def err_req_region_def err_dev_init_def kfree_def
      err_pciemu_alloc_def)

abbreviation base_held :: "ptr \<Rightarrow> ptr \<Rightarrow> resource multiset \<Rightarrow> resource multiset" where
  "base_held dev pd M \<equiv> add_mset (R_regions pd) (add_mset (R_master pd) (add_mset (R_enabled pd)
     (add_mset (R_memory dev) M)))"

abbreviation maps_held :: "pciemu_dev \<Rightarrow> resource multiset \<Rightarrow> resource multiset" where
  "maps_held d M \<equiv> add_mset (R_iomap (mmio (regbar d))) (add_mset (R_iomap (mmio (membar d)))
     (add_mset (R_iomap (mmio (internal_bar d))) M))"

definition mapped :: "pciemu_dev \<Rightarrow> bool" where
  "mapped d \<longleftrightarrow> mmio (regbar d) \<noteq> 0 \<and> mmio (membar d) \<noteq> 0 \<and> mmio (internal_bar d) \<noteq> 0"

definition cleaned :: "pciemu_dev \<Rightarrow> pciemu_dev" where
  "cleaned d = d\<lparr>regbar := clean_bar (regbar d), membar := clean_bar (membar d),
     internal_bar := clean_bar (internal_bar d)\<rparr>"

lemma dev_clean_mapped:
  assumes "dev \<noteq> NULL" and "kdevs w dev = Some d" and "mapped d" and "held w = maps_held d M"
  shows "pciemu_dev_clean dev w = Inr (w\<lparr>held := M, kdevs := (kdevs w)(dev \<mapsto> cleaned d)\<rparr>)"
  using assms by (simp add: pciemu_dev_clean_def iounmap_if_def mapped_def cleaned_def)

lemma unwind_late:
  assumes nn: "dev \<noteq> NULL" and d: "kdevs w dev = Some d" and m: "mapped d"
  shows "held w = maps_held d (base_held dev pd M) \<Longrightarrow>
      err_alloc_chrdev dev pd err w = Inr (err, gone dev M w)"
    and "held w = add_mset (R_chrdev (major d) (minor d)) (maps_held d (base_held dev pd M)) \<Longrightarrow>
      err_cdev_add dev pd err w = Inr (err, gone dev M w)"
    and "held w = add_mset (R_cdev dev) (add_mset (R_chrdev (major d) (minor d))
        (maps_held d (base_held dev pd M))) \<Longrightarrow>
      err_device_create dev pd err w = Inr (err, gone dev M w)"
    and "held w = add_mset (R_node (major d) (minor d)) (add_mset (R_cdev dev)
        (add_mset (R_chrdev (major d) (minor d)) (maps_held d (base_held dev pd M)))) \<Longrightarrow>
      err_irq_enable dev pd err w = Inr (err, gone dev M w)"
  using assms
  by (simp_all add: err_alloc_chrdev_def err_cdev_add_def err_device_create_def err_irq_enable_def
      dev_clean_mapped unwind_early)

section \<open>Mapping the BARs\<close>

lemma map_bar_result:
  obtains b k where "map_bar K pd n w =
    (b, (if mmio b \<noteq> 0 then hold (R_iomap (mmio b)) (w\<lparr>kern := k\<rparr>) else w\<lparr>kern := k\<rparr>))"
proof -
  let ?l = "pci_resource_len K pd n (kern w)"
  obtain a k where "pci_iomap K pd n ?l (kern w) = (a, k)" by (cases "pci_iomap K pd n ?l (kern w)")
  then show thesis
    by (intro that[of "\<lparr>bar_start = pci_resource_start K pd n (kern w),
          bar_end = pci_resource_end K pd n (kern w), bar_len = ?l, mmio = a\<rparr>" k])
      (simp add: map_bar_def)
qed

definition init_failed :: "ptr \<Rightarrow> 'k kworld \<Rightarrow> 'k kworld \<Rightarrow> bool" where
  "init_failed dev w w' \<longleftrightarrow> held w' = held w \<and> drvdata w' = drvdata w \<and>
     (\<exists>d. kdevs w' = (kdevs w)(dev \<mapsto> d))"

definition init_done :: "ptr \<Rightarrow> ptr \<Rightarrow> pciemu_dev \<Rightarrow> 'k kworld \<Rightarrow> 'k kworld \<Rightarrow> bool" where
  "init_done dev pd c w w' \<longleftrightarrow>
     (\<exists>d. kdevs w' = (kdevs w)(dev \<mapsto> d) \<and> pdev d = pd \<and> mapped d \<and> dev_dma d = dev_dma c \<and>
        dev_irq d = dev_irq c \<and> held w' = maps_held d (held w)) \<and>
     drvdata w' = (drvdata w)(pd := dev)"

lemma dev_init_cases:
  assumes nn: "dev \<noteq> NULL" and c: "kdevs w dev = Some c"
    and z: "mmio (membar c) = 0" "mmio (internal_bar c) = 0"
  shows "\<exists>err w'. pciemu_dev_init K dev pd w = Inr (err, w') \<and>
    (if err = 0 then init_done dev pd c w w' else init_failed dev w w')"
proof -
  define w0 where "w0 = w\<lparr>kdevs := (kdevs w)(dev \<mapsto> c\<lparr>pdev := pd\<rparr>)\<rparr>"
  obtain b1 k1 where 1: "map_bar K pd PCIEMU_HW_REG_BAR w0 =
    (b1, if mmio b1 \<noteq> 0 then hold (R_iomap (mmio b1)) (w0\<lparr>kern := k1\<rparr>) else w0\<lparr>kern := k1\<rparr>)"
    by (rule map_bar_result)
  define w1 where "w1 = (hold (R_iomap (mmio b1)) (w0\<lparr>kern := k1\<rparr>))
    \<lparr>kdevs := (kdevs w0)(dev \<mapsto> c\<lparr>pdev := pd, regbar := b1\<rparr>)\<rparr>"
  obtain b2 k2 where 2: "map_bar K pd PCIEMU_HW_MEM_BAR w1 =
    (b2, if mmio b2 \<noteq> 0 then hold (R_iomap (mmio b2)) (w1\<lparr>kern := k2\<rparr>) else w1\<lparr>kern := k2\<rparr>)"
    by (rule map_bar_result)
  define w2 where "w2 = (hold (R_iomap (mmio b2)) (w1\<lparr>kern := k2\<rparr>))
    \<lparr>kdevs := (kdevs w1)(dev \<mapsto> c\<lparr>pdev := pd, regbar := b1, membar := b2\<rparr>)\<rparr>"
  obtain b3 k3 where 3: "map_bar K pd PCIEMU_HW_INT_BAR w2 =
    (b3, if mmio b3 \<noteq> 0 then hold (R_iomap (mmio b3)) (w2\<lparr>kern := k3\<rparr>) else w2\<lparr>kern := k3\<rparr>)"
    by (rule map_bar_result)
  note init = pciemu_dev_init_def nn c Let_def pciemu_dev_clean_def iounmap_if_def z
    init_failed_def init_done_def mapped_def ENOMEM_def
  consider (a) "mmio b1 = 0" | (b) "mmio b1 \<noteq> 0" "mmio b2 = 0"
    | (c) "mmio b1 \<noteq> 0" "mmio b2 \<noteq> 0" "mmio b3 = 0"
    | (d) "mmio b1 \<noteq> 0" "mmio b2 \<noteq> 0" "mmio b3 \<noteq> 0"
    by blast
  then show ?thesis
  proof cases
    case a
    then show ?thesis using 1 by (simp add: init w0_def) blast
  next
    case b
    then show ?thesis using 1 2 by (simp add: init w0_def w1_def) blast
  next
    case c
    then show ?thesis using 1 2 3
      by (simp add: init w0_def w1_def w2_def add_mset_commute) blast
  next
    case d
    let ?d = "c\<lparr>pdev := pd, regbar := b1, membar := b2, internal_bar := b3\<rparr>"
    have "\<exists>w'. pciemu_dev_init K dev pd w = Inr (0, w') \<and> kdevs w' = (kdevs w)(dev \<mapsto> ?d) \<and>
        held w' = maps_held ?d (held w) \<and> drvdata w' = (drvdata w)(pd := dev)"
      using d 1 2 3
      by (simp add: pciemu_dev_init_def nn c Let_def w0_def w1_def w2_def add_mset_commute)
    moreover have "mapped ?d" using d by (simp add: mapped_def)
    ultimately show ?thesis unfolding init_done_def by fastforce
  qed
qed

section \<open>The rest of the probe\<close>

text \<open>A probed device: its object is complete and everything \<open>pciemu_remove\<close> gives back is held.\<close>

definition all_held :: "ptr \<Rightarrow> ptr \<Rightarrow> pciemu_dev \<Rightarrow> resource multiset \<Rightarrow> resource multiset" where
  "all_held dev pd d M =
     add_mset (R_node (major d) (minor d)) (add_mset (R_cdev dev) (add_mset (R_chrdev (major d) (minor d))
       (maps_held d (add_mset (R_master pd) (add_mset (R_irq (irq_num (dev_irq d)))
         (add_mset (R_vectors pd) (add_mset (R_regions pd) (add_mset (R_enabled pd)
           (add_mset (R_memory dev) M)))))))))"

definition probed :: "ptr \<Rightarrow> ptr \<Rightarrow> 'k kworld \<Rightarrow> 'k kworld \<Rightarrow> bool" where
  "probed dev pd w w' \<longleftrightarrow>
     (\<exists>d. kdevs w' = (kdevs w)(dev \<mapsto> d) \<and> pdev d = pd \<and> mapped d \<and> mtx (dev_dma d) = Mutex_unlocked \<and>
        mmio_ack_irq (dev_irq d) = mmio (regbar d) + PCIEMU_HW_IRQ_DMA_ACK_ADDR \<and>
        held w' = all_held dev pd d (held w)) \<and>
     drvdata w' = (drvdata w)(pd := dev)"

definition unprobed :: "ptr \<Rightarrow> ptr \<Rightarrow> 'k kworld \<Rightarrow> 'k kworld \<Rightarrow> bool" where
  "unprobed dev pd w w' \<longleftrightarrow> held w' = held w \<and> kdevs w' = (kdevs w)(dev := None) \<and>
     (\<forall>p. p \<noteq> pd \<longrightarrow> drvdata w' p = drvdata w p)"

definition has_vectors :: "'k kernel \<Rightarrow> ptr \<Rightarrow> bool" where
  "has_vectors K pd \<longleftrightarrow> (\<forall>k. has_msix K pd k \<or> has_msi K pd k)"

lemma probe_irq_cases:
  assumes nn: "dev \<noteq> NULL" and d: "kdevs u dev = Some d" "mapped d" "pdev d = pd"
    and cap: "has_vectors K pd" and dd: "drvdata u = (drvdata w)(pd := dev)"
    and k: "kdevs u = (kdevs w)(dev \<mapsto> d)"
    and h: "held u = add_mset (R_node (major d) (minor d)) (add_mset (R_cdev dev)
      (add_mset (R_chrdev (major d) (minor d)) (maps_held d (base_held dev pd (held w)))))"
  shows "\<exists>err w'. probe_irq K dev pd u = Inr (err, w') \<and>
    (if err = 0 then probed dev pd w w' else unprobed dev pd w w')"
proof -
  from cap d(3) have "has_msix K (pdev d) (kern u) \<or> has_msi K (pdev d) (kern u)"
    by (simp add: has_vectors_def)
  from irq_enable_cases[OF nn d(1) this] obtain err v where
    en: "pciemu_irq_enable K dev u = Inr (err, v)" and e: "irq_enabled dev d u err v" by blast
  from e obtain i where i: "kdevs v = (kdevs u)(dev \<mapsto> d\<lparr>dev_irq := i\<rparr>)" "drvdata v = drvdata u"
    and r: "if err = 0 then 0 \<le> irq_num i \<and> mmio_ack_irq i = mmio (regbar d) + PCIEMU_HW_IRQ_DMA_ACK_ADDR \<and>
           held v = add_mset (R_irq (irq_num i)) (add_mset (R_vectors (pdev d)) (held u))
         else held v = held u"
    unfolding irq_enabled_def by blast
  show ?thesis
  proof (cases "err = 0")
    case True
    let ?d = "d\<lparr>dev_irq := i, dev_dma := (dev_dma d)\<lparr>mtx := Mutex_unlocked\<rparr>\<rparr>"
    let ?w = "v\<lparr>kdevs := (kdevs v)(dev \<mapsto> ?d)\<rparr>"
    have "probe_irq K dev pd u = Inr (0, ?w)"
      using en True nn i(1) by (simp add: probe_irq_def mutex_init_def)
    moreover have "held ?w = all_held dev pd ?d (held w)"
      using r True d(3) h by (simp add: all_held_def add_mset_commute)
    moreover have "mapped ?d" using d(2) by (simp add: mapped_def)
    ultimately show ?thesis
      using r True d(3) i k dd by (auto simp: probed_def intro!: exI[of _ ?d])
  next
    case False
    have "mapped (d\<lparr>dev_irq := i\<rparr>)" "kdevs v dev = Some (d\<lparr>dev_irq := i\<rparr>)"
      using d(2) i(1) by (simp_all add: mapped_def)
    from unwind_late(4)[OF nn this(2,1), of pd "held w" err] False r h
    have "err_irq_enable dev pd err v = Inr (err, gone dev (held w) v)" by simp
    with en False k i dd show ?thesis by (simp add: probe_irq_def unprobed_def)
  qed
qed

lemma probe_chrdev_cases:
  assumes nn: "dev \<noteq> NULL" and i: "init_done dev pd c u v"
    and u: "kdevs u = (kdevs w)(dev \<mapsto> c)" "held u = base_held dev pd (held w)" "drvdata u = drvdata w"
    and cap: "has_vectors K pd"
  shows "\<exists>err w'. probe_chrdev K dev pd v = Inr (err, w') \<and>
    (if err = 0 then probed dev pd w w' else unprobed dev pd w w')"
proof -
  from i u obtain d where d: "kdevs v = (kdevs w)(dev \<mapsto> d)" "pdev d = pd" "mapped d"
    "held v = maps_held d (base_held dev pd (held w))" and dd: "drvdata v = (drvdata w)(pd := dev)"
    by (auto simp: init_done_def)
  obtain e1 ma mi k1 where 1: "alloc_chrdev_region K (kern v) = (e1, ma, mi, k1)"
    by (cases "alloc_chrdev_region K (kern v)")
  let ?d = "d\<lparr>minor := mi, major := ma\<rparr>"
  define v1 where "v1 = (hold (R_chrdev ma mi) (v\<lparr>kern := k1\<rparr>))\<lparr>kdevs := (kdevs v)(dev \<mapsto> ?d)\<rparr>"
  obtain e2 k2 where 2: "cdev_add K dev ma mi (kern v1) = (e2, k2)"
    by (cases "cdev_add K dev ma mi (kern v1)")
  define v2 where "v2 = hold (R_cdev dev) (v1\<lparr>kern := k2\<rparr>)"
  let ?name = "node_name (pci_domain_nr K pd) (pci_bus_number K pd) (PCI_SLOT (pci_devfn K pd))
    (PCI_FUNC (pci_devfn K pd))"
  obtain e3 k3 where 3: "device_create K pd ma mi ?name (kern v2) = (e3, k3)"
    by (cases "device_create K pd ma mi ?name (kern v2)")
  define v3 where "v3 = hold (R_node ma mi) (v2\<lparr>kern := k3\<rparr>)"
  have md: "mapped ?d" using d(3) by (simp add: mapped_def)
  note late = unwind_late[OF nn _ md] unwind_late(1)[OF nn _ d(3)]
  have eq: "probe_chrdev K dev pd v =
    (if e1 \<noteq> 0 then err_alloc_chrdev dev pd e1 (v\<lparr>kern := k1\<rparr>)
     else if e2 \<noteq> 0 then err_cdev_add dev pd e2 (v1\<lparr>kern := k2\<rparr>)
     else if e3 \<noteq> 0 then err_device_create dev pd e3 (v2\<lparr>kern := k3\<rparr>)
     else probe_irq K dev pd v3)"
    using nn d(1) 1 2 3 by (simp add: probe_chrdev_def Let_def v1_def v2_def v3_def)
  show ?thesis
  proof (cases "e1 = 0 \<and> e2 = 0 \<and> e3 = 0")
    case True
    have "\<exists>err w'. probe_irq K dev pd v3 = Inr (err, w') \<and>
        (if err = 0 then probed dev pd w w' else unprobed dev pd w w')"
      by (rule probe_irq_cases[OF nn _ md _ cap])
        (use d dd in \<open>simp_all add: v3_def v2_def v1_def\<close>)
    with True eq show ?thesis by simp
  next
    case False
    have "probe_chrdev K dev pd v = Inr (if e1 \<noteq> 0 then e1 else if e2 \<noteq> 0 then e2 else e3,
        gone dev (held w) (if e1 \<noteq> 0 then v\<lparr>kern := k1\<rparr> else if e2 \<noteq> 0 then v1\<lparr>kern := k2\<rparr> else v2\<lparr>kern := k3\<rparr>))"
      using False d by (auto simp: eq late v2_def v1_def)
    with False show ?thesis by (auto simp: unprobed_def d(1) dd v2_def v1_def)
  qed
qed

lemma probe_cases:
  assumes nn: "dev \<noteq> NULL" and z: "mmio (membar c) = 0" "mmio (internal_bar c) = 0"
    and cap: "has_vectors K pd"
  shows "\<exists>err w'. pciemu_probe K (Some (dev, c)) pd w = Inr (err, w') \<and>
    (unprobed dev pd w w' \<and> (err = 0 \<longrightarrow> (\<exists>k. pci_select_bars K pd k AND push_bit PCIEMU_HW_REG_BAR 1 = 0)) \<or>
     err = 0 \<and> probed dev pd w w')"
proof -
  define v0 where "v0 = hold (R_memory dev) (w\<lparr>kdevs := (kdevs w)(dev \<mapsto> c)\<rparr>)"
  obtain e1 k1 where 1: "pci_enable_device K pd (kern v0) = (e1, k1)"
    by (cases "pci_enable_device K pd (kern v0)")
  define v1 where "v1 = hold (R_enabled pd) (v0\<lparr>kern := k1\<rparr>)"
  let ?m = "push_bit PCIEMU_HW_DMA_ADDR_CAPABILITY 1 - 1"
  obtain e2 k2 where 2: "dma_set_mask_and_coherent K pd ?m (kern v1) = (e2, k2)"
    by (cases "dma_set_mask_and_coherent K pd ?m (kern v1)")
  define v2 where "v2 = hold (R_master pd) (v1\<lparr>kern := k2\<rparr>)"
  define bars where "bars = pci_select_bars K pd (kern v2)"
  obtain e3 k3 where 3: "pci_request_selected_regions K pd bars (kern v2) = (e3, k3)"
    by (cases "pci_request_selected_regions K pd bars (kern v2)")
  define v3 where "v3 = hold (R_regions pd) (v2\<lparr>kern := k3\<rparr>)"
  have v3: "kdevs v3 = (kdevs w)(dev \<mapsto> c)" "held v3 = base_held dev pd (held w)" "drvdata v3 = drvdata w"
    by (simp_all add: v3_def v2_def v1_def v0_def)
  have eq: "pciemu_probe K (Some (dev, c)) pd w =
    (if e1 \<noteq> 0 then err_pci_enable dev e1 (v0\<lparr>kern := k1\<rparr>)
     else if e2 \<noteq> 0 then err_dma_set_mask dev pd e2 (v1\<lparr>kern := k2\<rparr>)
     else if bars AND push_bit PCIEMU_HW_REG_BAR 1 = 0 then err_req_region dev pd e2 v2
     else if e3 \<noteq> 0 then err_req_region dev pd e3 (v2\<lparr>kern := k3\<rparr>)
     else bindE (pciemu_dev_init K dev pd v3) (\<lambda>(err, w).
            if err \<noteq> 0 then err_dev_init dev pd err w else probe_chrdev K dev pd w))"
    using 1 2 3 by (simp add: pciemu_probe_def Let_def v0_def v1_def v2_def v3_def bars_def)
  show ?thesis
  proof (cases "e1 = 0 \<and> e2 = 0 \<and> bars AND push_bit PCIEMU_HW_REG_BAR 1 \<noteq> 0 \<and> e3 = 0")
    case False
    then show ?thesis
      by (auto simp: eq unwind_early unprobed_def v2_def v1_def v0_def bars_def)
  next
    case True
    obtain err v where i: "pciemu_dev_init K dev pd v3 = Inr (err, v)"
      and r: "if err = 0 then init_done dev pd c v3 v else init_failed dev v3 v"
      using dev_init_cases[OF nn, of v3 c K pd] v3 z by auto
    show ?thesis
    proof (cases "err = 0")
      case True: True
      from probe_chrdev_cases[OF nn _ v3 cap] True r i
        \<open>e1 = 0 \<and> e2 = 0 \<and> bars AND push_bit PCIEMU_HW_REG_BAR 1 \<noteq> 0 \<and> e3 = 0\<close>
      show ?thesis by (auto simp: eq) metis
    next
      case False
      with r have "held v = base_held dev pd (held w)" "\<exists>d. kdevs v = (kdevs v3)(dev \<mapsto> d)" "drvdata v = drvdata w"
        using v3 by (auto simp: init_failed_def)
      with False i v3
        \<open>e1 = 0 \<and> e2 = 0 \<and> bars AND push_bit PCIEMU_HW_REG_BAR 1 \<noteq> 0 \<and> e3 = 0\<close>
      show ?thesis by (auto simp: eq unwind_early unprobed_def)
    qed
  qed
qed

lemma remove_bound:
  assumes "dev \<noteq> NULL" and "kdevs w dev = Some d" and "mapped d" and "drvdata w pd = dev"
    and "held w = all_held dev pd d M"
  shows "pciemu_remove pd w = Inr (gone dev M w)"
  using assms by (simp add: pciemu_remove_def all_held_def dev_clean_mapped kfree_def)

lemma remove_probed:
  assumes nn: "dev \<noteq> NULL" and p: "probed dev pd w w'"
  shows "\<exists>w''. pciemu_remove pd w' = Inr w'' \<and> held w'' = held w \<and> kdevs w'' = (kdevs w)(dev := None)"
  using p remove_bound[OF nn, of w' _ pd "held w"] by (auto simp: probed_def)

section \<open>Properties of probe and remove\<close>

lemma plain_kernel_facts:
  "has_vectors (plain_kernel bars reg) pd" "pci_select_bars (plain_kernel bars reg) pd k = bars"
  "mmio (membar blank_dev) = 0" "mmio (internal_bar blank_dev) = 0" "kdevs plain_world p = None"
  "fst (pci_enable_device (plain_kernel bars reg) pd k) = 0"
  "fst (dma_set_mask_and_coherent (plain_kernel bars reg) pd m k) = 0"
  "fst (pci_request_selected_regions (plain_kernel bars reg) pd b k) = 0"
  "fst (pci_iomap (plain_kernel bars reg) pd n l k) = (if n = PCIEMU_HW_REG_BAR then reg else 0x1000)"
  "drvdata plain_world pd = NULL" "held plain_world = {#R_class, R_driver#}"
  "ioctl_to (plain_kernel bars reg) = 1" "ioctl_from (plain_kernel bars reg) = 2"
  by (simp_all add: has_vectors_def plain_kernel_def blank_dev_def zero_bar_def plain_world_def)

text \<open>
  C7. Probing is all or nothing. For a device with MSI or MSI-X, the register BAR available and a cleared
  device object, \<open>pciemu_probe\<close> returns whichever of its steps fails. Code 0 means that
  the device is complete (BARs mapped, interrupt registered with its acknowledge address, mutex
  initialised, object stored with the PCI device) and exactly the resources \<open>pciemu_remove\<close> frees
  are held; any other code means that everything taken on the way has been given back and the
  object is freed.
\<close>

theorem probe_all_or_nothing:
  assumes "dev \<noteq> NULL" and "kdevs w dev = None"
    and "mmio (membar c) = 0" and "mmio (internal_bar c) = 0" and "has_vectors K pd"
    and "\<And>k. pci_select_bars K pd k AND push_bit PCIEMU_HW_REG_BAR 1 \<noteq> 0"
  shows "\<exists>err w'. pciemu_probe K (Some (dev, c)) pd w = Inr (err, w') \<and>
    (if err = 0 then probed dev pd w w' else held w' = held w \<and> kdevs w' = kdevs w)"
  using probe_cases[OF assms(1,3,4,5), of w] assms(2,6)
  by (auto simp: unprobed_def fun_upd_idem)

theorem probe_all_or_nothing_witness:
  "\<exists>err w'. pciemu_probe (plain_kernel 0xD 0x9000) (Some (32, blank_dev)) 16 plain_world = Inr (err, w') \<and>
    (if err = 0 then probed 32 16 plain_world w' else held w' = held plain_world \<and> kdevs w' = kdevs plain_world)"
  by (rule probe_all_or_nothing) (simp_all add: plain_kernel_facts hw_defs)

text \<open>
  Removing a device undoes probing it: after a successful probe \<open>pciemu_remove\<close> returns, frees the
  device object, and the resources held are exactly those held before the probe.
\<close>

lemma probe_remove_balanced:
  assumes "dev \<noteq> NULL" and "kdevs w dev = None"
    and "mmio (membar c) = 0" and "mmio (internal_bar c) = 0" and "has_vectors K pd"
    and "\<And>k. pci_select_bars K pd k AND push_bit PCIEMU_HW_REG_BAR 1 \<noteq> 0"
    and "pciemu_probe K (Some (dev, c)) pd w = Inr (0, w')"
  shows "\<exists>w''. pciemu_remove pd w' = Inr w'' \<and> held w'' = held w \<and> kdevs w'' = kdevs w"
proof -
  have "probed dev pd w w'"
    using probe_cases[OF assms(1,3,4,5), of w] assms(6,7) by auto
  from remove_probed[OF assms(1) this] assms(2) show ?thesis by (simp add: fun_upd_idem)
qed

lemma plain_probe_succeeds:
  "dev \<noteq> NULL \<Longrightarrow> \<exists>w' d. pciemu_probe (plain_kernel 0xD 0x9000\<lparr>iowrite32 := f\<rparr>) (Some (dev, blank_dev)) pd w = Inr (0, w') \<and>
     kdevs w' dev = Some d \<and> mmio (regbar d) = 0x9000"
  by (simp add: pciemu_probe_def plain_kernel_def Let_def hw_defs pciemu_dev_init_def map_bar_def
      probe_chrdev_def probe_irq_def pciemu_irq_enable_def pciemu_irq_enable_msix_def irq_enable_kind_def
      request_vector_def mutex_init_def)

text \<open>
  C36. When the register BAR is not among the memory BARs of the device, the probe reports success: it
  gives everything back and frees the device object, but returns the 0 that the previous call
  left in \<open>err\<close>. The kernel then believes the device is bound, and removing it dereferences the
  null pointer that was never replaced by a device object.
\<close>

theorem probe_without_bar_succeeds:
  assumes "dev \<noteq> NULL" and "kdevs w dev = None" and "drvdata w pd = NULL"
    and "\<And>k. fst (pci_enable_device K pd k) = 0"
    and "\<And>m k. fst (dma_set_mask_and_coherent K pd m k) = 0"
    and "\<And>k. pci_select_bars K pd k AND push_bit PCIEMU_HW_REG_BAR 1 = 0"
  shows "\<exists>w'. pciemu_probe K (Some (dev, c)) pd w = Inr (0, w') \<and> held w' = held w \<and>
    kdevs w' = kdevs w \<and> pciemu_remove pd w' = Inl NullDeref"
  using assms
  by (simp add: pciemu_probe_def Let_def case_prod_unfold unwind_early pciemu_remove_def fun_upd_idem)

theorem probe_without_bar_succeeds_witness:
  "\<exists>w'. pciemu_probe (plain_kernel 0x1 0x9000) (Some (32, blank_dev)) 16 plain_world = Inr (0, w') \<and>
     pciemu_remove 16 w' = Inl NullDeref"
proof -
  have "\<exists>w'. pciemu_probe (plain_kernel 0x1 0x9000) (Some (32, blank_dev)) 16 plain_world = Inr (0, w') \<and>
      held w' = held plain_world \<and> kdevs w' = kdevs plain_world \<and> pciemu_remove 16 w' = Inl NullDeref"
    by (rule probe_without_bar_succeeds) (simp_all add: plain_kernel_facts hw_defs)
  then show ?thesis by blast
qed

text \<open>
  The device object is not cleared when it is allocated: if mapping the register BAR fails, the
  clean-up unmaps whatever address the memory of the object happened to contain for the memory BAR,
  an address that was never mapped.
\<close>

lemma probe_unmaps_garbage:
  assumes "dev \<noteq> NULL" and "mmio (membar c) \<noteq> 0" and "R_iomap (mmio (membar c)) \<notin># held w"
    and "\<And>k. fst (pci_enable_device K pd k) = 0"
    and "\<And>m k. fst (dma_set_mask_and_coherent K pd m k) = 0"
    and "\<And>k. pci_select_bars K pd k AND push_bit PCIEMU_HW_REG_BAR 1 \<noteq> 0"
    and "\<And>b k. fst (pci_request_selected_regions K pd b k) = 0"
    and "\<And>l k. fst (pci_iomap K pd PCIEMU_HW_REG_BAR l k) = 0"
  shows "pciemu_probe K (Some (dev, c)) pd w = Inl BadPointer"
  using assms
  by (simp add: pciemu_probe_def Let_def case_prod_unfold pciemu_dev_init_def map_bar_def
      pciemu_dev_clean_def iounmap_if_def release_def)

end
