(* ===== verification/System.thy ===== *)
theory System
  imports Transfers Drv_Probe
begin

text \<open>
  Driver and device together. A guest whose kernel runs the driver and whose PCI bus is the
  emulated device: a write of the driver to the mapped register BAR is an access of the guest to the
  register BAR of the device, and the interrupt the device sends is the one the driver waits for.
\<close>

text \<open>The driver is offered the devices whose class the emulator registers.\<close>

lemma driver_matches_device:
  "k = type_class_init (pciemu_info tp ip sz co cm) k0 \<Longrightarrow> (vendor_id k, device_id k) \<in> set pciemu_id_tbl"
  by (simp add: pciemu_info_def pciemu_class_init_def pciemu_id_tbl_def)

section \<open>The platform between driver and device\<close>

text \<open>
  What the driver relies on from the kernel and the machine, for a register BAR mapped at \<open>base\<close>
  and the interrupt number \<open>n\<close>: \<open>get\<close> is the part of the kernel's state that is the emulator,
  \<open>bus\<close> the bus address of a page. Writes behind \<open>base\<close> reach the register BAR as 32-bit accesses;
  mapping, unmapping and unpinning a page do not change the emulated machine; after the device
  has sent the DMA interrupt it arrives, and its arrival changes no RAM.
\<close>

definition platform :: "'k kernel \<Rightarrow> ('k \<Rightarrow> 'm world) \<Rightarrow> 'm qemu \<Rightarrow> ptr \<Rightarrow> u64 \<Rightarrow> int \<Rightarrow> (ptr \<Rightarrow> u64)
    \<Rightarrow> ('m \<Rightarrow> u64 \<Rightarrow> u8) \<Rightarrow> bool" where
  "platform K get q dev base n bus ram \<longleftrightarrow>
     (\<forall>v off k x. off < PCIEMU_HW_REG_BAR_SIZE \<longrightarrow>
        pciemu_regbar_write q dev off (ucast v) 4 (get k) = Inr x \<longrightarrow>
        (\<exists>k'. iowrite32 K v (base + off) k = Inr k' \<and> get k' = x)) \<and>
     (\<forall>pd page ofs l dir k. \<exists>k'. dma_map_page K pd page ofs l dir k = (bus page + ofs, k') \<and> get k' = get k) \<and>
     (\<forall>pd h k. \<not> dma_mapping_error K pd h k) \<and>
     (\<forall>pd h l dir k. get (dma_unmap_page K pd h l dir k) = get k) \<and>
     (\<forall>page k. get (put_page K page k) = get k) \<and>
     (\<forall>m k. machine (get k) = raise_machine q AURORA_HW_IRQ_DMA_ENDED_VECTOR dev m \<longrightarrow>
        (\<exists>k' m'. take_irq K n k = Some k' \<and> get k' = (get k)\<lparr>machine := m'\<rparr> \<and>
           ram m' = ram (machine (get k))))"

lemma platformD:
  assumes "platform K get q dev base n bus ram"
  shows "off < PCIEMU_HW_REG_BAR_SIZE \<Longrightarrow> pciemu_regbar_write q dev off (ucast v) 4 (get k) = Inr x \<Longrightarrow>
      \<exists>k'. iowrite32 K v (base + off) k = Inr k' \<and> get k' = x"
    and "\<exists>k'. dma_map_page K pd page ofs l dir k = (bus page + ofs, k') \<and> get k' = get k"
    and "\<not> dma_mapping_error K pd h k"
    and "get (dma_unmap_page K pd h l dir k) = get k" and "get (put_page K page k) = get k"
    and "machine (get k) = raise_machine q AURORA_HW_IRQ_DMA_ENDED_VECTOR dev m \<Longrightarrow>
      \<exists>k' m'. take_irq K n k = Some k' \<and> get k' = (get k)\<lparr>machine := m'\<rparr> \<and> ram m' = ram (machine (get k))"
  using assms unfolding platform_def by - (elim conjE, simp)+

text \<open>A driver object that is ready for a transfer, as a successful probe leaves it.\<close>

definition drv_ready :: "ptr \<Rightarrow> u64 \<Rightarrow> int \<Rightarrow> 'k kworld \<Rightarrow> bool" where
  "drv_ready p base n w \<longleftrightarrow> p \<noteq> NULL \<and>
     (\<exists>d. kdevs w p = Some d \<and> mtx (dev_dma d) = Mutex_unlocked \<and> mmio (regbar d) = base \<and>
        mmio_ack_irq (dev_irq d) = base + PCIEMU_HW_IRQ_DMA_ACK_ADDR \<and> irq_num (dev_irq d) = n)"

lemma probed_ready:
  assumes "dev \<noteq> NULL" and "probed dev pd w w'"
  shows "\<exists>base n. drv_ready dev base n w'"
  using assms by (auto simp: probed_def drv_ready_def)

lemma iowrites_reach_device:
  assumes pf: "platform K get q dev base n bus ram"
    and offs: "list_all (\<lambda>(off, v). off < PCIEMU_HW_REG_BAR_SIZE) xs"
    and run: "regbar_writes q dev (map (\<lambda>(off, v). (off, ucast v)) xs) (get (kern w)) = Inr x"
  shows "\<exists>k. iowrites K base xs w = Inr (w\<lparr>kern := k\<rparr>) \<and> get k = x"
  using offs run
proof (induction xs arbitrary: w)
  case Nil
  then show ?case by (auto simp: iowrites_def regbar_writes_def intro!: exI[of _ "kern w"])
next
  case (Cons y xs)
  obtain off v where y: "y = (off, v)" by (cases y)
  from Cons.prems(2) obtain x1 where
    x1: "pciemu_regbar_write q dev off (ucast v) 4 (get (kern w)) = Inr x1"
    "regbar_writes q dev (map (\<lambda>(off, v). (off, ucast v)) xs) x1 = Inr x"
    by (auto simp: regbar_writes_def y res_simps)
  have "off < PCIEMU_HW_REG_BAR_SIZE" using Cons.prems(1) y by simp
  with platformD(1)[OF pf _ x1(1)] obtain k1 where k1: "iowrite32 K v (base + off) (kern w) = Inr k1" "get k1 = x1"
    by blast
  from Cons.IH[of "w\<lparr>kern := k1\<rparr>"] Cons.prems(1) x1(2) k1(2)
  obtain k where "iowrites K base xs (w\<lparr>kern := k1\<rparr>) = Inr (w\<lparr>kern := k\<rparr>)" "get k = x"
    by auto
  with k1 show ?case by (auto simp: iowrites_def y do_iowrite32_def)
qed

text \<open>The acknowledge register lowers the interrupt and does nothing else to the back end.\<close>

lemma ack_write:
  assumes l: "linked dev adev x"
  obtains y where "pciemu_regbar_write q dev PCIEMU_HW_IRQ_DMA_ACK_ADDR v sz x = Inr y"
    and "linked dev adev y" and "adevs y = adevs x" and "machine y = lower_machine q dev (machine x)"
proof -
  obtain y where y: "pciemu_irq_lower q dev 0 x = Inr y" "linked dev adev y" "adevs y = adevs x"
    "machine y = lower_machine q dev (machine x)"
    using lower_linked[OF l, of q 0] by blast
  have "aurora_write_reg_by_addr q adev PCIEMU_HW_IRQ_DMA_ACK_ADDR v x = Inr (0, y)"
    using y(1) by (simp add: aurora_write_reg_by_addr_def aurora_regbar_valid_access_def hw_defs
        get_pciemu_dev_linked[OF l])
  with y that show thesis by (simp add: regbar_write_linked[OF l])
qed

lemma ram_lower: "guest_ram q ram is_ram \<Longrightarrow> ram (lower_machine q dev m) = ram m"
  by (simp add: guest_ram_def lower_machine_def)

text \<open>The state of a device that a transfer has gone through.\<close>

definition dev_holds :: "ptr \<Rightarrow> ptr \<Rightarrow> u64 list \<Rightarrow> u8 list \<Rightarrow> 'm world \<Rightarrow> bool" where
  "dev_holds dev adev rs bs x \<longleftrightarrow> linked dev adev x \<and>
     (\<exists>a. adevs x adev = Some a \<and> status (dma a) = DMA_STATUS_IDLE \<and> regs a = rs \<and> buff (dma a) = bs)"

lemma interrupt_completes:
  assumes pf: "platform K get q dev base n bus ram" and gr: "guest_ram q ram is_ram"
    and p: "p \<noteq> NULL" and d: "kdevs w p = Some d" "\<not> completion_done (dev_dma d)"
      "mmio_ack_irq (dev_irq d) = base + PCIEMU_HW_IRQ_DMA_ACK_ADDR" "irq_num (dev_irq d) = n"
    and x: "linked dev adev (get (kern w))"
      "machine (get (kern w)) = raise_machine q AURORA_HW_IRQ_DMA_ENDED_VECTOR dev m"
  shows "\<exists>k y. wait_for_completion K p w =
      Inr (w\<lparr>kern := k, kdevs := (kdevs w)(p \<mapsto> dma_fields (\<lambda>x. x\<lparr>completion_done := True\<rparr>) d)\<rparr>) \<and>
    get k = y \<and> linked dev adev y \<and> adevs y = adevs (get (kern w)) \<and>
    ram (machine y) = ram (machine (get (kern w)))"
proof -
  obtain k1 m1 where k1: "take_irq K n (kern w) = Some k1"
    "get k1 = (get (kern w))\<lparr>machine := m1\<rparr>" "ram m1 = ram (machine (get (kern w)))"
    using platformD(6)[OF pf x(2)] by blast
  let ?k2 = "put_page K (dma_page (dev_dma d)) (dma_unmap_page K (pdev d) (dma_handle (dev_dma d))
      (dma_len (dev_dma d)) (direction (dev_dma d)) k1)"
  have g2: "get ?k2 = (get (kern w))\<lparr>machine := m1\<rparr>" by (simp add: platformD(4,5)[OF pf] k1(2))
  with x(1) have "linked dev adev (get ?k2)" by simp
  then obtain y where y: "pciemu_regbar_write q dev PCIEMU_HW_IRQ_DMA_ACK_ADDR (ucast (1::u32)) 4 (get ?k2) = Inr y"
    "linked dev adev y" "adevs y = adevs (get ?k2)" "machine y = lower_machine q dev (machine (get ?k2))"
    by (rule ack_write)
  have "PCIEMU_HW_IRQ_DMA_ACK_ADDR < PCIEMU_HW_REG_BAR_SIZE" by (simp add: hw_defs)
  with platformD(1)[OF pf _ y(1)] obtain k3
    where k3: "iowrite32 K 1 (base + PCIEMU_HW_IRQ_DMA_ACK_ADDR) ?k2 = Inr k3" "get k3 = y"
    by blast
  show ?thesis
    using p d k1 k3 y g2 ram_lower[OF gr, of dev m1]
    by (intro exI[of _ k3] exI[of _ y])
      (simp add: wait_for_completion_def pciemu_irq_handler_def Let_def do_iowrite32_def)
qed

lemma transfer_completes:
  assumes pf: "platform K get q dev base n bus ram" and gr: "guest_ram q ram is_ram"
    and rdy: "drv_ready p base n w"
    and offs: "list_all (\<lambda>(off, v). off < PCIEMU_HW_REG_BAR_SIZE) (prog (bus page + ofs) l)"
    and run: "regbar_writes q dev (map (\<lambda>(off, v). (off, ucast v)) (prog (bus page + ofs) l)) (get (kern w)) = Inr x"
    and dn: "transfer_done q dev adev a bs (get (kern w)) x" and rs: "regs a = rs"
  shows "\<exists>w'. dma_transfer K p page ofs l dir prog w = Inr (0, w') \<and> drv_ready p base n w' \<and>
    dev_holds dev adev rs bs (get (kern w')) \<and> ram (machine (get (kern w'))) = ram (machine x)"
proof -
  from rdy obtain d where p: "p \<noteq> NULL" and d: "kdevs w p = Some d" "mtx (dev_dma d) = Mutex_unlocked"
    "mmio (regbar d) = base" "mmio_ack_irq (dev_irq d) = base + PCIEMU_HW_IRQ_DMA_ACK_ADDR"
    "irq_num (dev_irq d) = n"
    by (auto simp: drv_ready_def)
  obtain k1 where k1: "dma_map_page K (pdev d) page ofs l dir (kern w) = (bus page + ofs, k1)"
    "get k1 = get (kern w)"
    using platformD(2)[OF pf] by blast
  let ?d = "d\<lparr>dev_dma := (dev_dma d)\<lparr>mtx := Mutex_locked, dma_offset := ofs, dma_len := l, direction := dir,
    completion_done := False, dma_handle := bus page + ofs\<rparr>\<rparr>"
  let ?w1 = "w\<lparr>kern := k1, kdevs := (kdevs w)(p \<mapsto> ?d)\<rparr>"
  obtain k2 where k2: "iowrites K base (prog (bus page + ofs) l) ?w1 = Inr (?w1\<lparr>kern := k2\<rparr>)" "get k2 = x"
    using iowrites_reach_device[where w = ?w1, OF pf offs] run k1(2) by auto
  from dn obtain m a' where x: "linked dev adev x" "machine x = raise_machine q AURORA_HW_IRQ_DMA_ENDED_VECTOR dev m"
    "adevs x adev = Some a'" "status (dma a') = DMA_STATUS_IDLE" "buff (dma a') = bs" "regs a' = rs"
    using rs by (auto simp: transfer_done_def)
  obtain k3 y where k3: "wait_for_completion K p (?w1\<lparr>kern := k2\<rparr>) =
      Inr (?w1\<lparr>kern := k3, kdevs := (kdevs w)(p \<mapsto> dma_fields (\<lambda>x. x\<lparr>completion_done := True\<rparr>) ?d)\<rparr>)"
    "get k3 = y" "linked dev adev y" "adevs y = adevs x" "ram (machine y) = ram (machine x)"
    using interrupt_completes[OF pf gr p, of "?w1\<lparr>kern := k2\<rparr>" ?d adev m] d x k2(2) by auto
  note ne = platformD(3)[OF pf]
  let ?d' = "dma_fields (\<lambda>x. x\<lparr>completion_done := True, mtx := Mutex_unlocked\<rparr>) ?d"
  have "dma_transfer K p page ofs l dir prog w = Inr (0, ?w1\<lparr>kern := k3, kdevs := (kdevs w)(p \<mapsto> ?d')\<rparr>)"
    using p d k1 k2 k3 ne
    by (simp add: dma_transfer_def mutex_lock_def mutex_unlock_def pciemu_dma_struct_init_def)
  moreover have "drv_ready p base n (?w1\<lparr>kern := k3, kdevs := (kdevs w)(p \<mapsto> ?d')\<rparr>)"
    using p d by (simp add: drv_ready_def)
  moreover have "dev_holds dev adev rs bs y" using k3 x by (simp add: dev_holds_def)
  ultimately show ?thesis using k3 by auto
qed

section \<open>The two transfers of the driver\<close>

lemma ucast_32_id: "unat x < 2 ^ 32 \<Longrightarrow> ucast (ucast x :: u32) = x" for x :: u64
  by (simp add: word_unat_eq_iff unsigned_ucast_eq unsigned_take_bit_eq take_bit_nat_eq_self)

lemma driver_programs:
  assumes "unat h < 2 ^ 32" and "n \<le> 4096"
  shows "map (\<lambda>(off, v). (off, ucast v)) (transfer_program DMA_TO_DEVICE h (of_nat n)) =
      dma_program h (area_addr 0) (of_nat n) AURORA_HW_DMA_DIRECTION_TO_DEVICE"
    and "map (\<lambda>(off, v). (off, ucast v)) (transfer_program DMA_FROM_DEVICE h (of_nat n)) =
      dma_program (area_addr 0) h (of_nat n) AURORA_HW_DMA_DIRECTION_FROM_DEVICE"
proof -
  have "unat (of_nat n :: u64) < 2 ^ 32" using assms(2) by (simp add: unat_of_nat64)
  note u = ucast_32_id[OF this] ucast_32_id[OF assms(1)]
  show "map (\<lambda>(off, v). (off, ucast v)) (transfer_program DMA_TO_DEVICE h (of_nat n)) =
      dma_program h (area_addr 0) (of_nat n) AURORA_HW_DMA_DIRECTION_TO_DEVICE"
    "map (\<lambda>(off, v). (off, ucast v)) (transfer_program DMA_FROM_DEVICE h (of_nat n)) =
      dma_program (area_addr 0) h (of_nat n) AURORA_HW_DMA_DIRECTION_FROM_DEVICE"
    using u by (simp_all add: transfer_program_def dma_program_def) (simp_all add: hw_defs)
qed

lemma program_offsets:
  "list_all (\<lambda>(off, v). off < PCIEMU_HW_REG_BAR_SIZE) (transfer_program drctn handle n)"
  by (cases drctn) (simp_all add: transfer_program_def hw_defs)

lemma host_to_device:
  assumes pf: "platform K get q dev base n bus ram" and gr: "guest_ram q ram is_ram"
    and rdy: "drv_ready p base n w" and dev: "dev_holds dev adev rs bs (get (kern w))"
    and r: "\<forall>i < l. is_ram (bus page + ofs + of_nat i)" "unat (bus page + ofs) < 2 ^ 32" and l: "l \<le> 4096"
  shows "\<exists>w'. pciemu_dma_from_host_to_device K p page ofs (of_nat l) w = Inr (0, w') \<and>
    drv_ready p base n w' \<and>
    dev_holds dev adev rs (blit 0 (mem_load (ram (machine (get (kern w)))) (bus page + ofs) l) bs) (get (kern w')) \<and>
    ram (machine (get (kern w'))) = ram (machine (get (kern w)))"
proof -
  from dev obtain a where x: "linked dev adev (get (kern w))" "adevs (get (kern w)) adev = Some a"
    "status (dma a) = DMA_STATUS_IDLE" and b: "buff (dma a) = bs" and rs: "regs a = rs"
    by (auto simp: dev_holds_def)
  from transfer_to_device[OF x gr r, of 0] l obtain y where
    y: "regbar_writes q dev (dma_program (bus page + ofs) (area_addr 0) (of_nat l)
          AURORA_HW_DMA_DIRECTION_TO_DEVICE) (get (kern w)) = Inr y"
      "transfer_done q dev adev a (blit 0 (mem_load (ram (machine (get (kern w)))) (bus page + ofs) l) bs)
         (get (kern w)) y"
      "ram (machine y) = ram (machine (get (kern w)))"
    by (auto simp: b)
  show ?thesis
    unfolding pciemu_dma_from_host_to_device_def
    by (rule transfer_completes[OF pf gr rdy _ _ y(2) rs, unfolded y(3)], rule program_offsets,
        unfold driver_programs(1)[OF r(2) l], rule y(1))
qed

lemma device_to_host:
  assumes pf: "platform K get q dev base n bus ram" and gr: "guest_ram q ram is_ram"
    and rdy: "drv_ready p base n w" and dev: "dev_holds dev adev rs bs (get (kern w))"
    and r: "\<forall>i < l. is_ram (bus page + ofs + of_nat i)" "unat (bus page + ofs) < 2 ^ 32" and l: "l \<le> 4096"
  shows "\<exists>w'. pciemu_dma_from_device_to_host K p page ofs (of_nat l) w = Inr (0, w') \<and>
    drv_ready p base n w' \<and> dev_holds dev adev rs bs (get (kern w')) \<and>
    ram (machine (get (kern w'))) = mem_store (bus page + ofs) (slice 0 l bs) (ram (machine (get (kern w))))"
proof -
  from dev obtain a where x: "linked dev adev (get (kern w))" "adevs (get (kern w)) adev = Some a"
    "status (dma a) = DMA_STATUS_IDLE" and b: "buff (dma a) = bs" and rs: "regs a = rs"
    by (auto simp: dev_holds_def)
  from transfer_from_device[OF x gr r, of 0] l obtain y where
    y: "regbar_writes q dev (dma_program (area_addr 0) (bus page + ofs) (of_nat l)
          AURORA_HW_DMA_DIRECTION_FROM_DEVICE) (get (kern w)) = Inr y"
      "transfer_done q dev adev a bs (get (kern w)) y"
      "ram (machine y) = mem_store (bus page + ofs) (slice 0 l bs) (ram (machine (get (kern w))))"
    by (auto simp: b)
  show ?thesis
    unfolding pciemu_dma_from_device_to_host_def
    by (rule transfer_completes[OF pf gr rdy _ _ y(2) rs, unfolded y(3)], rule program_offsets,
        unfold driver_programs(2)[OF r(2) l], rule y(1))
qed

section \<open>The system calls\<close>

text \<open>
  The user's page: pinning one page at \<open>vaddr\<close> succeeds, gives the page \<open>page\<close>, and does not change the
  emulated machine.
\<close>

definition user_page :: "'k kernel \<Rightarrow> ('k \<Rightarrow> 'm world) \<Rightarrow> u64 \<Rightarrow> ptr \<Rightarrow> bool" where
  "user_page K get vaddr page \<longleftrightarrow>
     (\<forall>k. \<exists>k'. get_user_pages_fast K vaddr 1 0 k = (1, Some page, k') \<and> get k' = get k)"

lemma pin_ready:
  assumes u: "user_page K get vaddr page" and rdy: "drv_ready p base n w"
  obtains w1 d where "pin_user_page K p vaddr w = Inr (1, w1)" and "get (kern w1) = get (kern w)"
    and "drv_ready p base n w1" and "kdevs w1 p = Some d" and "dma_page (dev_dma d) = page"
proof -
  from rdy obtain d where p: "p \<noteq> NULL" and d: "kdevs w p = Some d" by (auto simp: drv_ready_def)
  from u obtain k' where k': "get_user_pages_fast K vaddr 1 0 (kern w) = (1, Some page, k')"
    "get k' = get (kern w)"
    unfolding user_page_def by meson
  let ?d = "d\<lparr>dev_dma := (dev_dma d)\<lparr>dma_page := page\<rparr>\<rparr>"
  let ?w1 = "w\<lparr>kern := k', kdevs := (kdevs w)(p \<mapsto> ?d)\<rparr>"
  have "pin_user_page K p vaddr w = Inr (1, ?w1)"
    using k' p d by (simp add: pin_user_page_def)
  moreover have "drv_ready p base n ?w1" using rdy d by (simp add: drv_ready_def)
  ultimately show thesis using that[of ?w1 ?d] k' by simp
qed

lemma ioctl_len_whole:
  "ioctl_ofs K vaddr + 4 \<le> PAGE_SIZE K \<Longrightarrow> ioctl_len K vaddr = of_nat 4"
  by (auto simp: ioctl_len_def dest: leD)

lemma ioctl_to_device:
  assumes pf: "platform K get q dev base n bus ram" and gr: "guest_ram q ram is_ram"
    and rdy: "drv_ready p base n w" and dev: "dev_holds dev adev rs bs (get (kern w))"
    and u: "user_page K get vaddr page" and whole: "ioctl_ofs K vaddr + 4 \<le> PAGE_SIZE K"
    and r: "\<forall>i < 4. is_ram (bus page + ioctl_ofs K vaddr + of_nat i)" "unat (bus page + ioctl_ofs K vaddr) < 2 ^ 32"
  obtains w' where "pciemu_ioctl K p (ioctl_to K) vaddr w = Inr (0, w')" and "drv_ready p base n w'"
    and "dev_holds dev adev rs (blit 0 (mem_load (ram (machine (get (kern w)))) (bus page + ioctl_ofs K vaddr) 4) bs)
      (get (kern w'))"
    and "ram (machine (get (kern w'))) = ram (machine (get (kern w)))"
proof -
  obtain w1 d where w1: "pin_user_page K p vaddr w = Inr (1, w1)" "get (kern w1) = get (kern w)"
    "drv_ready p base n w1" "kdevs w1 p = Some d" "dma_page (dev_dma d) = page"
    by (rule pin_ready[OF u rdy])
  have p: "p \<noteq> NULL" "\<exists>d. kdevs w p = Some d" using rdy by (auto simp: drv_ready_def)
  have "dev_holds dev adev rs bs (get (kern w1))" using dev w1(2) by simp
  from host_to_device[OF pf gr w1(3) this r] obtain w' where
    "pciemu_dma_from_host_to_device K p page (ioctl_ofs K vaddr) (of_nat 4) w1 = Inr (0, w')"
    "drv_ready p base n w'"
    "dev_holds dev adev rs (blit 0 (mem_load (ram (machine (get (kern w)))) (bus page + ioctl_ofs K vaddr) 4) bs)
      (get (kern w'))"
    "ram (machine (get (kern w'))) = ram (machine (get (kern w)))"
    by (auto simp: w1(2))
  with p w1 that show thesis
    by (auto simp: pciemu_ioctl_def Let_def ioctl_len_whole[OF whole])
qed

lemma ioctl_from_device:
  assumes pf: "platform K get q dev base n bus ram" and gr: "guest_ram q ram is_ram"
    and rdy: "drv_ready p base n w" and dev: "dev_holds dev adev rs bs (get (kern w))"
    and u: "user_page K get vaddr page" and whole: "ioctl_ofs K vaddr + 4 \<le> PAGE_SIZE K"
    and r: "\<forall>i < 4. is_ram (bus page + ioctl_ofs K vaddr + of_nat i)" "unat (bus page + ioctl_ofs K vaddr) < 2 ^ 32"
    and ne: "ioctl_from K \<noteq> ioctl_to K"
  obtains w' where "pciemu_ioctl K p (ioctl_from K) vaddr w = Inr (0, w')" and "drv_ready p base n w'"
    and "dev_holds dev adev rs bs (get (kern w'))"
    and "ram (machine (get (kern w'))) =
      mem_store (bus page + ioctl_ofs K vaddr) (slice 0 4 bs) (ram (machine (get (kern w))))"
proof -
  obtain w1 d where w1: "pin_user_page K p vaddr w = Inr (1, w1)" "get (kern w1) = get (kern w)"
    "drv_ready p base n w1" "kdevs w1 p = Some d" "dma_page (dev_dma d) = page"
    by (rule pin_ready[OF u rdy])
  have p: "p \<noteq> NULL" "\<exists>d. kdevs w p = Some d" using rdy by (auto simp: drv_ready_def)
  have "dev_holds dev adev rs bs (get (kern w1))" using dev w1(2) by simp
  from device_to_host[OF pf gr w1(3) this r] obtain w' where
    "pciemu_dma_from_device_to_host K p page (ioctl_ofs K vaddr) (of_nat 4) w1 = Inr (0, w')"
    "drv_ready p base n w'" "dev_holds dev adev rs bs (get (kern w'))"
    "ram (machine (get (kern w'))) =
      mem_store (bus page + ioctl_ofs K vaddr) (slice 0 4 bs) (ram (machine (get (kern w))))"
    by (auto simp: w1(2))
  with p w1 that ne show thesis
    by (auto simp: pciemu_ioctl_def Let_def ioctl_len_whole[OF whole])
qed

text \<open>The integer at \<open>va\<close> goes to the device and comes back at \<open>vb\<close>.\<close>

lemma ioctl_pair:
  assumes pf: "platform K get q dev base n bus ram" and gr: "guest_ram q ram is_ram"
    and rdy: "drv_ready p base n w" and dev: "dev_holds dev adev rs bs (get (kern w))"
    and ne: "ioctl_from K \<noteq> ioctl_to K"
    and a: "user_page K get va pa" "ioctl_ofs K va + 4 \<le> PAGE_SIZE K"
      "\<forall>i < 4. is_ram (bus pa + ioctl_ofs K va + of_nat i)" "unat (bus pa + ioctl_ofs K va) < 2 ^ 32"
    and b: "user_page K get vb pb" "ioctl_ofs K vb + 4 \<le> PAGE_SIZE K"
      "\<forall>i < 4. is_ram (bus pb + ioctl_ofs K vb + of_nat i)" "unat (bus pb + ioctl_ofs K vb) < 2 ^ 32"
  obtains w1 w2 bs' where "pciemu_ioctl K p (ioctl_to K) va w = Inr (0, w1)"
    and "pciemu_ioctl K p (ioctl_from K) vb w1 = Inr (0, w2)"
    and "ram (machine (get (kern w2))) = mem_store (bus pb + ioctl_ofs K vb)
      (mem_load (ram (machine (get (kern w)))) (bus pa + ioctl_ofs K va) 4) (ram (machine (get (kern w))))"
    and "drv_ready p base n w2" and "dev_holds dev adev rs bs' (get (kern w2))"
proof -
  let ?v = "mem_load (ram (machine (get (kern w)))) (bus pa + ioctl_ofs K va) 4"
  obtain w1 where w1: "pciemu_ioctl K p (ioctl_to K) va w = Inr (0, w1)" "drv_ready p base n w1"
    "dev_holds dev adev rs (blit 0 ?v bs) (get (kern w1))"
    "ram (machine (get (kern w1))) = ram (machine (get (kern w)))"
    by (rule ioctl_to_device[OF pf gr rdy dev a])
  from dev have "length bs = 4096" by (auto simp: dev_holds_def linked_def wf_dma_def hw_defs)
  then have sl: "slice 0 4 (blit 0 ?v bs) = ?v" by simp
  obtain w2 where w2: "pciemu_ioctl K p (ioctl_from K) vb w1 = Inr (0, w2)" "drv_ready p base n w2"
    "dev_holds dev adev rs (blit 0 ?v bs) (get (kern w2))"
    "ram (machine (get (kern w2))) = mem_store (bus pb + ioctl_ofs K vb) ?v (ram (machine (get (kern w))))"
    by (rule ioctl_from_device[OF pf gr w1(2,3) b ne, unfolded sl w1(4)])
  with w1 that show thesis by blast
qed

section \<open>A concrete guest\<close>

text \<open>
  The state of this kernel is the emulator itself: the register BAR is mapped at \<open>0x9000\<close>, page
  \<open>p\<close> is at bus address \<open>4096 * p\<close>, and an interrupt is due when the device has sent a message or
  raised its line.
\<close>

definition sample_kernel :: "sample world kernel" where
  "sample_kernel = (plain_kernel 0xD 0x9000)
     \<lparr>iowrite32 := (\<lambda>v a k. pciemu_regbar_write sample_qemu 16 (a - 0x9000) (ucast v) 4 k),
      take_irq := (\<lambda>n k. if s_sent (machine k) \<noteq> [] \<or> s_line (machine k) = 1
                         then Some (k\<lparr>machine := (machine k)\<lparr>s_sent := []\<rparr>\<rparr>) else None),
      dma_map_page := (\<lambda>pd page ofs l dir k. (of_nat (4096 * page) + ofs, k)),
      get_user_pages_fast := (\<lambda>a n f k. (1, Some (unat (drop_bit 12 a)), k))\<rparr>"

definition sample_kdev :: pciemu_dev where
  "sample_kdev = blank_dev
     \<lparr>regbar := zero_bar\<lparr>bar_len := 0x8000000, mmio := 0x9000\<rparr>, dev_irq := \<lparr>mmio_ack_irq = 0x9028, irq_num = 30\<rparr>,
      dev_dma := (dev_dma blank_dev)\<lparr>mtx := Mutex_unlocked\<rparr>\<rparr>"

definition sample_kworld :: "sample world kworld" where
  "sample_kworld = \<lparr>kern = sample_world 3, kdevs = [64 \<mapsto> sample_kdev], drvdata = (\<lambda>_. 64), held = {#}\<rparr>"

lemma sample_platform:
  "platform sample_kernel (\<lambda>k. k) sample_qemu 16 0x9000 30 (\<lambda>page. of_nat (4096 * page)) s_ram"
  by (auto simp: platform_def sample_kernel_def plain_kernel_def raise_machine_def hw_defs
      split: irq_mode.splits intro: exI[of _ "s\<lparr>s_sent := []\<rparr>" for s])

lemma sample_kworld_ready:
  "drv_ready 64 0x9000 30 sample_kworld" "kern sample_kworld = sample_world 3"
  "dev_holds 16 32 [1, 2, 3, 4] (replicate 4096 0) (kern sample_kworld)"
  by (simp_all add: drv_ready_def sample_kworld_def sample_kdev_def zero_bar_def dev_holds_def
      sample_world_linked) (simp_all add: hw_defs sample_engine_def)

lemma sample_user_page: "user_page sample_kernel get va (unat (drop_bit 12 va))"
  by (simp add: user_page_def sample_kernel_def)

lemma sample_kernel_page:
  "PAGE_SIZE sample_kernel = 4096" "ioctl_ofs sample_kernel va = va AND 0xFFF"
  "ioctl_from sample_kernel \<noteq> ioctl_to sample_kernel"
  by (simp_all add: PAGE_SIZE_def ioctl_ofs_def PAGE_MASK_def sample_kernel_def plain_kernel_def)

section \<open>Properties of driver and device together\<close>

text \<open>
  C3. The purpose of the whole system, as the example program states it: after one ioctl that sends the
  integer at \<open>va\<close> to the device and one that fetches it to \<open>vb\<close>, \<open>b == a\<close>. On a guest whose kernel
  and machine behave as documented, with a probed driver, an idle device and two integers that
  do not straddle a page and lie in RAM below 4 GiB, both calls return 0 (in particular the completion
  interrupt arrives and neither call blocks), the four bytes at \<open>b\<close> are those that were at \<open>a\<close>, no other
  byte of memory and no register of the device has changed, and driver and device are ready for the
  next call.
\<close>

theorem ioctl_round_trip:
  assumes pf: "platform K get q dev base n bus ram" and gr: "guest_ram q ram is_ram"
    and rdy: "drv_ready p base n w" and dev: "dev_holds dev adev rs bs (get (kern w))"
    and ne: "ioctl_from K \<noteq> ioctl_to K"
    and a: "user_page K get va pa" "ioctl_ofs K va + 4 \<le> PAGE_SIZE K"
      "\<forall>i < 4. is_ram (bus pa + ioctl_ofs K va + of_nat i)" "unat (bus pa + ioctl_ofs K va) < 2 ^ 32"
    and b: "user_page K get vb pb" "ioctl_ofs K vb + 4 \<le> PAGE_SIZE K"
      "\<forall>i < 4. is_ram (bus pb + ioctl_ofs K vb + of_nat i)" "unat (bus pb + ioctl_ofs K vb) < 2 ^ 32"
  shows "\<exists>w1 w2 bs'. pciemu_ioctl K p (ioctl_to K) va w = Inr (0, w1) \<and>
    pciemu_ioctl K p (ioctl_from K) vb w1 = Inr (0, w2) \<and>
    mem_load (ram (machine (get (kern w2)))) (bus pb + ioctl_ofs K vb) 4 =
      mem_load (ram (machine (get (kern w)))) (bus pa + ioctl_ofs K va) 4 \<and>
    ram (machine (get (kern w2))) = mem_store (bus pb + ioctl_ofs K vb)
      (mem_load (ram (machine (get (kern w)))) (bus pa + ioctl_ofs K va) 4) (ram (machine (get (kern w)))) \<and>
    drv_ready p base n w2 \<and> dev_holds dev adev rs bs' (get (kern w2))"
proof -
  obtain w1 w2 bs' where w: "pciemu_ioctl K p (ioctl_to K) va w = Inr (0, w1)"
    "pciemu_ioctl K p (ioctl_from K) vb w1 = Inr (0, w2)"
    "ram (machine (get (kern w2))) = mem_store (bus pb + ioctl_ofs K vb)
      (mem_load (ram (machine (get (kern w)))) (bus pa + ioctl_ofs K va) 4) (ram (machine (get (kern w))))"
    "drv_ready p base n w2" "dev_holds dev adev rs bs' (get (kern w2))"
    by (rule ioctl_pair[OF assms])
  have "mem_load (ram (machine (get (kern w2)))) (bus pb + ioctl_ofs K vb) 4 =
      mem_load (ram (machine (get (kern w)))) (bus pa + ioctl_ofs K va) 4"
    unfolding w(3) by (rule mem_load_store) simp_all
  with w show ?thesis by blast
qed

theorem ioctl_round_trip_witness:
  "\<exists>w1 w2. pciemu_ioctl sample_kernel 64 (ioctl_to sample_kernel) 0x5008 sample_kworld = Inr (0, w1) \<and>
     pciemu_ioctl sample_kernel 64 (ioctl_from sample_kernel) 0x7010 w1 = Inr (0, w2) \<and>
     mem_load (s_ram (machine (kern w2))) 0x7010 4 = [8, 9, 10, 11]"
proof -
  have va: "unat (drop_bit 12 (0x5008 :: u64)) = 5" "unat (drop_bit 12 (0x7010 :: u64)) = 7" by simp_all
  have "mem_load (s_ram (machine (kern sample_kworld))) 0x5008 4 = [8, 9, 10, 11]"
    by (simp add: sample_kworld_ready(2) mem_load_def upt_rec unsigned_ucast_eq)
  then show ?thesis
    using ioctl_round_trip[OF sample_platform sample_guest_ram sample_kworld_ready(1,3) sample_kernel_page(3)
        sample_user_page[of _ "0x5008"] _ _ _ sample_user_page[of _ "0x7010"]]
    by (auto simp: sample_kernel_page va)
qed

end
