(* ===== verification/Example_Args.thy ===== *)
theory Example_Args
  imports System
begin

text \<open>
  The arguments of the user-space program, \<open>driver/userspace/pciemu_example.c\<close>, and the name of the
  device file it opens. \<open>getopt\<close> is the C library's: its result, the options in order, is an argument.
\<close>

section \<open>Arguments\<close>

definition PCI_DOMAIN_NUMBER_INVALID :: u32 where "PCI_DOMAIN_NUMBER_INVALID = push_bit 16 1"
definition PCI_BUS_NUMBER_INVALID :: u16 where "PCI_BUS_NUMBER_INVALID = push_bit 8 1"
definition PCI_DEVICE_NUMBER_INVALID :: u8 where "PCI_DEVICE_NUMBER_INVALID = push_bit 5 1"
definition PCI_FUNCTION_NUMBER_INVALID :: u8 where "PCI_FUNCTION_NUMBER_INVALID = push_bit 3 1"

lemmas invalid_defs = PCI_DOMAIN_NUMBER_INVALID_def PCI_BUS_NUMBER_INVALID_def
  PCI_DEVICE_NUMBER_INVALID_def PCI_FUNCTION_NUMBER_INVALID_def

text \<open>
  \<open>struct context\<close>. A descriptor is the driver object behind it (\<open>private_data\<close>), \<open>None\<close> is the value \<open>-1\<close>.
\<close>

record example_context =
  virt_addr :: u64
  dev_fd :: "ptr option"
  pci_domain_nb :: u32
  pci_bus_nb :: u16
  pci_hw_bar_len :: u16
  pci_hw_regs_nb :: u8
  pci_device_nb :: u8
  pci_func_nb :: u8
  verbosity :: u8

datatype opt = Opt_b string | Opt_d string | Opt_h | Opt_r string | Opt_s string | Opt_v | Opt_other

text \<open>
  \<open>strtol(s, &endptr, 10)\<close> as the program tests it: \<open>None\<close> when nothing was converted or the number does not
  fit a 64-bit \<open>long\<close> (then \<open>errno\<close> is set).
\<close>

definition strtol10 :: "string \<Rightarrow> int option" where
  "strtol10 s =
     (case dropWhile is_space s of
        [] \<Rightarrow> None
      | c # cs \<Rightarrow>
          let ds = (if c = CHR ''-'' \<or> c = CHR ''+'' then cs else c # cs); v = atoi (c # cs)
          in if ds = [] \<or> \<not> is_digit (hd ds) \<or> v < - (2 ^ 63) \<or> 2 ^ 63 \<le> v then None else Some v)"

text \<open>One option: the number is truncated to the field before it is compared with the limit.\<close>

definition parse_opt :: "opt \<Rightarrow> example_context \<Rightarrow> int + example_context" where
  "parse_opt op ctx =
     (case op of
        Opt_b s \<Rightarrow>
          (case strtol10 s of None \<Rightarrow> Inl (-1)
           | Some v \<Rightarrow> let ctx = ctx\<lparr>pci_bus_nb := of_int v\<rparr>
                      in if PCI_BUS_NUMBER_INVALID \<le> pci_bus_nb ctx then Inl (-1) else Inr ctx)
      | Opt_d s \<Rightarrow>
          (case strtol10 s of None \<Rightarrow> Inl (-1)
           | Some v \<Rightarrow> let ctx = ctx\<lparr>pci_domain_nb := of_int v\<rparr>
                      in if PCI_DOMAIN_NUMBER_INVALID \<le> pci_domain_nb ctx then Inl (-1) else Inr ctx)
      | Opt_h \<Rightarrow> Inl 0
      | Opt_r s \<Rightarrow>
          (case strtol10 s of None \<Rightarrow> Inl (-1)
           | Some v \<Rightarrow> let ctx = ctx\<lparr>pci_hw_regs_nb := of_int v\<rparr>
                      in if pci_hw_regs_nb ctx < 1 \<or> of_nat PCIEMU_HW_REGBAR_REG_CNT < pci_hw_regs_nb ctx
                         then Inl (-1)
                         else Inr (ctx\<lparr>pci_hw_bar_len := ucast (pci_hw_regs_nb ctx) * 8\<rparr>))
      | Opt_s s \<Rightarrow>
          (case strtol10 s of None \<Rightarrow> Inl (-1)
           | Some v \<Rightarrow> let ctx = ctx\<lparr>pci_device_nb := of_int v\<rparr>
                      in if PCI_DEVICE_NUMBER_INVALID \<le> pci_device_nb ctx then Inl (-1) else Inr ctx)
      | Opt_v \<Rightarrow> Inr (ctx\<lparr>verbosity := 1\<rparr>)
      | Opt_other \<Rightarrow> Inl (-1))"

text \<open>The members assigned before the options are read; \<open>ctx\<close> is the uninitialised local struct.\<close>

definition default_context :: "example_context \<Rightarrow> example_context" where
  "default_context ctx = ctx
     \<lparr>pci_domain_nb := 0, pci_device_nb := PCI_DEVICE_NUMBER_INVALID,
      pci_bus_nb := PCI_BUS_NUMBER_INVALID, pci_func_nb := 0,
      pci_hw_regs_nb := of_nat PCIEMU_HW_REGBAR_REG_CNT,
      pci_hw_bar_len := of_nat (PCIEMU_HW_REGBAR_REG_CNT * 8), verbosity := 0\<rparr>"

text \<open>\<open>Inl\<close> is a call of \<open>exit\<close> with its code.\<close>

definition parse_args :: "example_context \<Rightarrow> opt list \<Rightarrow> int + example_context" where
  "parse_args ctx0 ops =
     bindE (foldE parse_opt ops (default_context ctx0)) (\<lambda>ctx.
       if PCI_DEVICE_NUMBER_INVALID \<le> pci_device_nb ctx then Inl (-1)
       else if PCI_BUS_NUMBER_INVALID \<le> pci_bus_nb ctx then Inl (-1)
       else if PCI_DOMAIN_NUMBER_INVALID \<le> pci_domain_nb ctx then Inl (-1)
       else if PCI_FUNCTION_NUMBER_INVALID \<le> pci_func_nb ctx then Inl (-1)
       else Inr ctx)"

section \<open>The device file\<close>

text \<open>The formatted path, and what \<open>snprintf\<close> leaves of it in the buffer of 64 bytes.\<close>

definition file_text :: "nat \<Rightarrow> nat \<Rightarrow> nat \<Rightarrow> nat \<Rightarrow> string" where
  "file_text domain bus slot func =
     ''/dev/pciemu/d'' @ print_base 10 domain @ ''b'' @ print_base 10 bus @ ''d'' @ print_base 10 slot @
     ''f'' @ print_base 10 func @ ''_bar0''"

definition filename :: "example_context \<Rightarrow> string" where
  "filename ctx = take 63 (file_text (unat (pci_domain_nb ctx)) (unat (pci_bus_nb ctx))
     (unat (pci_device_nb ctx)) (unat (pci_func_nb ctx)))"

text \<open>The path under which the driver's device node appears.\<close>

definition node_path :: "nat \<Rightarrow> nat \<Rightarrow> nat \<Rightarrow> nat \<Rightarrow> string" where
  "node_path domain bus slot func =
     ''/dev/'' @ snd (pciemu_devnode True (node_name domain bus slot func))"

section \<open>Printed numbers\<close>

definition char_digit :: "char \<Rightarrow> nat" where
  "char_digit c = (if is_digit c then of_char c - 48 else of_char c - 87)"

definition read_base :: "nat \<Rightarrow> string \<Rightarrow> nat" where
  "read_base b s = foldl (\<lambda>a c. b * a + char_digit c) 0 s"

lemma char_digit_inverse: "n < 16 \<Longrightarrow> char_digit (digit_char n) = n"
  by (auto simp: char_digit_def digit_char_def is_digit_def)

lemma read_base_snoc: "read_base b (s @ [c]) = b * read_base b s + char_digit c"
  by (simp add: read_base_def)

lemma read_print: "2 \<le> b \<Longrightarrow> b \<le> 16 \<Longrightarrow> read_base b (print_base b n) = n"
proof (induction b n rule: print_base.induct)
  case (1 b n)
  show ?case
  proof (cases "n < b")
    case True
    with 1(2,3) show ?thesis
      by (subst print_base.simps) (simp add: read_base_def char_digit_inverse)
  next
    case False
    with 1 have "read_base b (print_base b (n div b)) = n div b" by simp
    moreover have "n mod b < 16" using 1(2,3) by (meson mod_less_divisor order_less_le_trans zero_less_numeral order.strict_trans2)
    ultimately show ?thesis
      using False 1(2,3)
      by (subst print_base.simps) (simp add: read_base_snoc char_digit_inverse)
  qed
qed

lemma print_10_digits: "\<forall>c \<in> set (print_base 10 n). is_digit c"
proof (induction "10 :: nat" n rule: print_base.induct)
  case (1 n)
  have d: "is_digit (digit_char m)" if "m < 10" for m
    using that by (simp add: digit_char_def is_digit_def)
  show ?case
    using 1 d by (subst print_base.simps) auto
qed

text \<open>Read as a hexadecimal number, a decimal numeral of several digits is too large.\<close>

lemma read_16_print_10: "n \<le> read_base 16 (print_base 10 n) \<and> (10 \<le> n \<longrightarrow> n < read_base 16 (print_base 10 n))"
proof (induction "10 :: nat" n rule: print_base.induct)
  case (1 n)
  show ?case
  proof (cases "n < 10")
    case True
    then show ?thesis
      by (subst (1 2) print_base.simps) (simp add: read_base_def char_digit_inverse)
  next
    case False
    with 1 have "n div 10 \<le> read_base 16 (print_base 10 (n div 10))" by simp
    moreover have "print_base 10 n = print_base 10 (n div 10) @ [digit_char (n mod 10)]"
      using False by (subst print_base.simps) simp
    moreover have "10 * (n div 10) + n mod 10 = n" "0 < n div 10" using False by simp_all
    moreover have "char_digit (digit_char (n mod 10)) = n mod 10" by (simp add: char_digit_inverse)
    ultimately have "n < read_base 16 (print_base 10 n)"
      by (simp only: read_base_snoc)
    then show ?thesis by simp
  qed
qed

lemma print_same_iff: "print_base 16 n = print_base 10 n \<longleftrightarrow> n < 10"
proof
  assume "print_base 16 n = print_base 10 n"
  then have "read_base 16 (print_base 10 n) = n" using read_print[of 16 n] by simp
  then show "n < 10" using read_16_print_10[of n] by (cases "10 \<le> n") auto
next
  assume "n < 10"
  then show "print_base 16 n = print_base 10 n"
    by (subst (1 2) print_base.simps) simp
qed

lemma print_zero: "print_base 10 0 = ''0''"
  by code_simp

section \<open>Separators\<close>

abbreviation letters :: "string \<Rightarrow> nat" where
  "letters s \<equiv> length (filter (\<lambda>c. \<not> is_digit c) s)"

lemma letters_0_iff: "letters s = 0 \<longleftrightarrow> (\<forall>c \<in> set s. is_digit c)"
  by (auto simp: filter_empty_conv)

lemma split_digits:
  assumes "\<forall>c \<in> set s. is_digit c" and "\<forall>c \<in> set t. is_digit c" and "\<not> is_digit x"
    and "s @ x # u = t @ x # v"
  shows "s = t \<and> u = v"
proof -
  have "takeWhile is_digit (s @ x # u) = s" "takeWhile is_digit (t @ x # v) = t"
    using assms(1-3) by (simp_all add: takeWhile_append)
  with assms(4) have "s = t" by simp
  with assms(4) show ?thesis by simp
qed

lemma is_digit_letter: "\<not> is_digit CHR ''b''" "\<not> is_digit CHR ''d''" "\<not> is_digit CHR ''f''"
  "\<not> is_digit CHR ''_''"
  by (simp_all add: is_digit_def)

lemma file_text_agrees_iff:
  "file_text domain bus slot func = node_path domain bus slot func \<longleftrightarrow>
     domain < 10 \<and> bus < 10 \<and> slot < 10 \<and> func < 10"
proof
  assume same: "file_text domain bus slot func = node_path domain bus slot func"
  define H where "H = print_base 16"
  define D where "D = print_base 10"
  from same have eq: "D domain @ CHR ''b'' # D bus @ CHR ''d'' # D slot @ CHR ''f'' # D func @ ''_bar0'' =
      H domain @ CHR ''b'' # H bus @ CHR ''d'' # H slot @ CHR ''f'' # H func @ ''_bar0''"
    by (simp add: file_text_def node_path_def pciemu_devnode_def node_name_def print_zero H_def D_def)
  have dig: "\<forall>c \<in> set (D n). is_digit c" for n by (simp add: D_def print_10_digits)
  then have l0: "letters (D n) = 0" for n by (simp add: letters_0_iff)
  from arg_cong[OF eq, of letters] have
    "letters (H domain) + letters (H bus) + letters (H slot) + letters (H func) = 0"
    using l0 by (simp add: is_digit_letter)
  then have hig: "\<forall>c \<in> set (H domain). is_digit c" "\<forall>c \<in> set (H bus). is_digit c"
    "\<forall>c \<in> set (H slot). is_digit c" "\<forall>c \<in> set (H func). is_digit c"
    by (auto simp: filter_empty_conv)
  note 1 = split_digits[OF dig hig(1) is_digit_letter(1) eq]
  note 2 = split_digits[OF dig hig(2) is_digit_letter(2) conjunct2[OF 1]]
  note 3 = split_digits[OF dig hig(3) is_digit_letter(3) conjunct2[OF 2]]
  note 4 = split_digits[OF dig hig(4) is_digit_letter(4) conjunct2[OF 3]]
  have "n < 10" if "D n = H n" for n
    using print_same_iff[THEN iffD1, OF sym] that unfolding D_def H_def by blast
  with 1 2 3 4 show "domain < 10 \<and> bus < 10 \<and> slot < 10 \<and> func < 10" by blast
next
  assume "domain < 10 \<and> bus < 10 \<and> slot < 10 \<and> func < 10"
  then have "print_base 16 domain = print_base 10 domain" "print_base 16 bus = print_base 10 bus"
    "print_base 16 slot = print_base 10 slot" "print_base 16 func = print_base 10 func"
    by (simp_all add: print_same_iff)
  then show "file_text domain bus slot func = node_path domain bus slot func"
    by (simp add: file_text_def node_path_def pciemu_devnode_def node_name_def print_zero)
qed

text \<open>The buffer of 64 bytes is large enough for the widths of the members.\<close>

lemma print_10_length: "0 < k \<Longrightarrow> n < 10 ^ k \<Longrightarrow> length (print_base 10 n) \<le> k"
proof (induction k arbitrary: n)
  case (Suc k)
  show ?case
  proof (cases "n < 10")
    case True
    then show ?thesis by (subst print_base.simps) simp
  next
    case False
    with Suc.prems have "0 < k" "n div 10 < 10 ^ k" by (auto intro: gr0I)
    from Suc.IH[OF this] False show ?thesis by (subst print_base.simps) simp
  qed
qed simp

lemma filename_whole:
  "filename ctx = file_text (unat (pci_domain_nb ctx)) (unat (pci_bus_nb ctx)) (unat (pci_device_nb ctx))
     (unat (pci_func_nb ctx))"
proof -
  have "unat (pci_domain_nb ctx) < 10 ^ 10" "unat (pci_bus_nb ctx) < 10 ^ 5"
    "unat (pci_device_nb ctx) < 10 ^ 3" "unat (pci_func_nb ctx) < 10 ^ 3"
    using unsigned_less[of "pci_domain_nb ctx", where 'a = nat] unsigned_less[of "pci_bus_nb ctx", where 'a = nat]
      unsigned_less[of "pci_device_nb ctx", where 'a = nat] unsigned_less[of "pci_func_nb ctx", where 'a = nat]
    by simp_all
  note l = this[THEN print_10_length[rotated]]
  show ?thesis
    unfolding filename_def by (rule take_all) (use l in \<open>simp add: file_text_def\<close>)
qed

text \<open>
  C38. The program opens the device file the driver has created exactly when domain, bus, slot and
  function number are all below 10: the driver prints them in hexadecimal, the program in
  decimal, so a device in slot 10 or on bus 16 is never found under its name. (The fixed buffer of
  64 bytes never cuts the name.)
\<close>

theorem filename_agrees_iff:
  "filename ctx = node_path (unat (pci_domain_nb ctx)) (unat (pci_bus_nb ctx)) (unat (pci_device_nb ctx))
       (unat (pci_func_nb ctx)) \<longleftrightarrow>
     pci_domain_nb ctx < 10 \<and> pci_bus_nb ctx < 10 \<and> pci_device_nb ctx < 10 \<and> pci_func_nb ctx < 10"
  unfolding filename_whole file_text_agrees_iff by (simp add: word_less_nat_alt)

section \<open>What the parser accepts\<close>

text \<open>The members every option keeps in range.\<close>

definition opts_ok :: "example_context \<Rightarrow> example_context \<Rightarrow> bool" where
  "opts_ok ctx0 ctx \<longleftrightarrow> pci_domain_nb ctx < 2 ^ 16 \<and> pci_func_nb ctx = 0 \<and> 1 \<le> pci_hw_regs_nb ctx \<and>
     pci_hw_regs_nb ctx \<le> of_nat PCIEMU_HW_REGBAR_REG_CNT \<and>
     pci_hw_bar_len ctx = ucast (pci_hw_regs_nb ctx) * 8 \<and>
     virt_addr ctx = virt_addr ctx0 \<and> dev_fd ctx = dev_fd ctx0"

lemma default_opts_ok: "opts_ok ctx0 (default_context ctx0)"
  by (simp add: opts_ok_def default_context_def hw_defs)

lemma one_le_word: "1 \<le> x \<longleftrightarrow> x \<noteq> 0" for x :: u8
  using unat_gt_0[of x] by (simp add: word_le_nat_alt Suc_le_eq)

lemma parse_opt_ok: "opts_ok ctx0 ctx \<Longrightarrow> parse_opt op ctx = Inr ctx' \<Longrightarrow> opts_ok ctx0 ctx'"
  by (auto simp: opts_ok_def parse_opt_def Let_def invalid_defs not_le not_less one_le_word
      split: opt.splits option.splits if_splits)

lemma parse_opts_ok:
  "opts_ok ctx0 ctx \<Longrightarrow> foldE parse_opt ops ctx = Inr ctx' \<Longrightarrow> opts_ok ctx0 ctx'"
  by (induction ops arbitrary: ctx) (auto simp: res_simps dest: parse_opt_ok)

lemma parse_argsE:
  assumes "parse_args ctx0 ops = Inr ctx"
  shows "opts_ok ctx0 ctx" and "pci_bus_nb ctx < 2 ^ 8" and "pci_device_nb ctx < 2 ^ 5"
proof -
  from assms have "foldE parse_opt ops (default_context ctx0) = Inr ctx"
    and "\<not> PCI_BUS_NUMBER_INVALID \<le> pci_bus_nb ctx" "\<not> PCI_DEVICE_NUMBER_INVALID \<le> pci_device_nb ctx"
    by (auto simp: parse_args_def res_simps split: if_splits)
  then show "opts_ok ctx0 ctx" "pci_bus_nb ctx < 2 ^ 8" "pci_device_nb ctx < 2 ^ 5"
    using parse_opts_ok[OF default_opts_ok] by (simp_all add: invalid_defs not_le)
qed

lemma regs_len: "r \<le> 4 \<Longrightarrow> unat (ucast r * 8 :: u16) = 8 * unat r" for r :: u8
  by (simp add: unat_word_ariths unsigned_ucast_eq word_le_nat_alt take_bit_nat_eq_self)

text \<open>
  C39. Whatever the arguments, the context with which the program goes on is well typed as the comments
  of its members promise: a 16-bit domain number, an 8-bit bus number, a 5-bit device number, the
  function 0, between one and four registers, and a length of the mapping that is exactly that many
  64-bit words, so that every \<open>virt_addr[i]\<close> the program uses lies inside the mapping. The
  descriptor and the address of the mapping are not touched.
\<close>

theorem parse_args_ranges:
  assumes "parse_args ctx0 ops = Inr ctx"
  shows "unat (pci_domain_nb ctx) < 2 ^ 16 \<and> unat (pci_bus_nb ctx) < 2 ^ 8 \<and>
    unat (pci_device_nb ctx) < 2 ^ 5 \<and> pci_func_nb ctx = 0 \<and>
    unat (pci_hw_regs_nb ctx) \<in> {1..PCIEMU_HW_REGBAR_REG_CNT} \<and>
    unat (pci_hw_bar_len ctx) = 8 * unat (pci_hw_regs_nb ctx) \<and>
    virt_addr ctx = virt_addr ctx0 \<and> dev_fd ctx = dev_fd ctx0"
  using parse_argsE[OF assms] regs_len[of "pci_hw_regs_nb ctx"]
  by (simp add: opts_ok_def word_less_nat_alt word_le_nat_alt hw_defs)

section \<open>Numbers\<close>

lemma atoi_digits_snoc:
  "\<forall>c \<in> set s. is_digit c \<Longrightarrow> is_digit c \<Longrightarrow>
     atoi_digits acc (s @ [c]) = 10 * atoi_digits acc s + (of_char c - 48)"
  by (induction s arbitrary: acc) auto

lemma digit_char_value:
  assumes "n < 10"
  shows "is_digit (digit_char n)" and "of_char (digit_char n) = (48 + int n)"
proof -
  have "(of_char (digit_char n) :: nat) = 48 + n" using assms by (simp add: digit_char_def)
  with assms show "is_digit (digit_char n)" "of_char (digit_char n) = (48 + int n)"
    using of_nat_of_char[of "digit_char n", where 'a = int] by (simp_all add: is_digit_def)
qed

lemma atoi_print: "atoi_digits 0 (print_base 10 n) = int n"
proof (induction "10 :: nat" n rule: print_base.induct)
  case (1 n)
  show ?case
  proof (cases "n < 10")
    case True
    then show ?thesis by (subst print_base.simps) (simp add: digit_char_value)
  next
    case False
    then have p: "print_base 10 n = print_base 10 (n div 10) @ [digit_char (n mod 10)]"
      by (subst print_base.simps) simp
    from 1 False have "atoi_digits 0 (print_base 10 (n div 10)) = int (n div 10)" by simp
    then have "atoi_digits 0 (print_base 10 n) = 10 * int (n div 10) + int (n mod 10)"
      unfolding p atoi_digits_snoc[OF print_10_digits digit_char_value(1)[of "n mod 10", simplified]]
      by (simp add: digit_char_value)
    then show ?thesis by presburger
  qed
qed

lemma strtol10_print: "n < 2 ^ 63 \<Longrightarrow> strtol10 (print_base 10 n) = Some (int n)"
proof -
  assume n: "n < 2 ^ 63"
  have "print_base 10 n \<noteq> []" by (subst print_base.simps) simp
  then obtain c cs where p: "print_base 10 n = c # cs" by (cases "print_base 10 n") auto
  with print_10_digits[of n] have c: "is_digit c" by simp
  then have "\<not> is_space c" "c \<noteq> CHR ''-''" "c \<noteq> CHR ''+''" by (auto simp: is_digit_def is_space_def)
  with n p c atoi_print[of n] show ?thesis
    by (simp add: strtol10_def atoi_def)
qed

text \<open>The options that must be given, bus and slot, in this order.\<close>

lemma parse_bus_slot:
  assumes "strtol10 b = Some v" and "strtol10 s = Some u"
  shows "parse_args ctx0 [Opt_b b, Opt_s s] =
    (if (of_int v :: u16) < 2 ^ 8 \<and> (of_int u :: u8) < 2 ^ 5
     then Inr ((default_context ctx0)\<lparr>pci_bus_nb := of_int v, pci_device_nb := of_int u\<rparr>) else Inl (-1))"
proof -
  have d: "pci_domain_nb (default_context ctx0) = 0" "pci_func_nb (default_context ctx0) = 0"
    by (simp_all add: default_context_def)
  show ?thesis
    using assms by (auto simp: parse_args_def parse_opt_def Let_def d invalid_defs not_le not_less)
qed

lemma of_int_less_iff:
  "(of_int v :: u16) < 2 ^ 8 \<longleftrightarrow> v mod 2 ^ 16 < 2 ^ 8" "(of_int u :: u8) < 2 ^ 5 \<longleftrightarrow> u mod 2 ^ 8 < 2 ^ 5"
  by (simp_all add: word_less_def unsigned_of_int take_bit_eq_mod)

lemma strtol10_literals: "strtol10 ''65539'' = Some 65539" "strtol10 ''-252'' = Some (-252)"
  by code_simp+

definition blank_context :: example_context where
  "blank_context = \<lparr>virt_addr = 0, dev_fd = None, pci_domain_nb = 0, pci_bus_nb = 0, pci_hw_bar_len = 0,
     pci_hw_regs_nb = 0, pci_device_nb = 0, pci_func_nb = 0, verbosity = 0\<rparr>"

text \<open>
  C40. The range checks look at the number after it has been cut to the width of the member: bus \<open>b\<close> and
  slot \<open>s\<close> are accepted exactly when their values modulo 65536 and modulo 256 are in range, and the
  program goes on with these remainders. Bus 65539 is taken as bus 3 and slot -252 as slot 4, while the
  messages promise that numbers outside [0, 255] and [0, 31] are refused.
\<close>

theorem parse_args_truncates:
  assumes "strtol10 b = Some v" and "strtol10 s = Some u"
  shows "if v mod 2 ^ 16 < 2 ^ 8 \<and> u mod 2 ^ 8 < 2 ^ 5
    then \<exists>ctx. parse_args ctx0 [Opt_b b, Opt_s s] = Inr ctx \<and>
      uint (pci_bus_nb ctx) = v mod 2 ^ 16 \<and> uint (pci_device_nb ctx) = u mod 2 ^ 8
    else parse_args ctx0 [Opt_b b, Opt_s s] = Inl (-1)"
  unfolding parse_bus_slot[OF assms] of_int_less_iff
  by (simp add: unsigned_of_int take_bit_eq_mod)

theorem parse_args_truncates_witness:
  "\<exists>ctx. parse_args blank_context [Opt_b ''65539'', Opt_s ''-252''] = Inr ctx \<and>
     uint (pci_bus_nb ctx) = 3 \<and> uint (pci_device_nb ctx) = 4"
  using parse_args_truncates[OF strtol10_literals] by simp

theorem parse_args_ranges_witness:
  "\<exists>ctx. parse_args blank_context [Opt_b ''65539'', Opt_s ''-252''] = Inr ctx \<and>
     unat (pci_hw_bar_len ctx) = 8 * unat (pci_hw_regs_nb ctx)"
proof -
  obtain ctx where "parse_args blank_context [Opt_b ''65539'', Opt_s ''-252''] = Inr ctx"
    using parse_bus_slot[OF strtol10_literals, of blank_context] by simp
  with parse_args_ranges[OF this] show ?thesis by blast
qed

text \<open>
  Numbers that are printed can be given back: for a bus number below 256, a slot number below 32
  and a domain number below 65536 in decimal the program runs with exactly this address.
\<close>

lemma parse_printed_args:
  assumes "domain < 2 ^ 16" and "bus < 2 ^ 8" and "slot < 2 ^ 5"
  shows "\<exists>ctx. parse_args ctx0 [Opt_d (print_base 10 domain), Opt_b (print_base 10 bus),
      Opt_s (print_base 10 slot)] = Inr ctx \<and>
    filename ctx = file_text domain bus slot 0"
proof -
  have s: "strtol10 (print_base 10 domain) = Some (int domain)" "strtol10 (print_base 10 bus) = Some (int bus)"
    "strtol10 (print_base 10 slot) = Some (int slot)"
    using assms by (simp_all add: strtol10_print)
  have w: "unat (of_nat domain :: u32) = domain" "unat (of_nat bus :: u16) = bus" "unat (of_nat slot :: u8) = slot"
    using assms by (simp_all add: unat_of_nat take_bit_nat_eq_self)
  have "pci_func_nb (default_context ctx0) = 0" by (simp add: default_context_def)
  then show ?thesis
    using s w assms
    by (auto simp: parse_args_def parse_opt_def Let_def invalid_defs filename_whole word_le_nat_alt)
qed

end
