(* ===== verification/Example.thy ===== *)
theory Example
  imports Example_Args
begin

text \<open>
  The user-space program, \<open>driver/userspace/pciemu_example.c\<close>: opening and mapping the device, the
  registers it writes and reads through the mapped BAR, the two DMA transfers with their check,
  and \<open>main\<close>. \<open>rand\<close> and the printing are outside: the random numbers are arguments, the
  values printed are results.
\<close>

section \<open>The process\<close>

text \<open>
  What the operating system gives the process: \<open>open_file\<close> resolves a path to the driver object
  whose \<open>open\<close> is called, \<open>None\<close> when the call fails before it; \<open>mmap_area\<close> chooses the address of a new
  area of a given length, \<open>None\<close> when there is no room; \<open>store64\<close> and \<open>load64\<close> are accesses to 64-bit words
  of the process's memory, \<open>load_int\<close> gives the bytes of an \<open>int\<close> variable.
\<close>

record 'k process =
  open_file :: "string \<Rightarrow> ptr option"
  mmap_area :: "u64 \<Rightarrow> u64 option"
  store64 :: "u64 \<Rightarrow> u64 \<Rightarrow> 'k \<Rightarrow> 'k res"
  load64 :: "u64 \<Rightarrow> 'k \<Rightarrow> u64 res"
  load_int :: "u64 \<Rightarrow> 'k \<Rightarrow> u8 list"

section \<open>Opening and mapping\<close>

definition open_pciemu_dev :: "'k process \<Rightarrow> example_context \<Rightarrow> 'k kworld \<Rightarrow> example_context res" where
  "open_pciemu_dev P ctx w =
     (case open_file P (filename ctx) of
        None \<Rightarrow> Inr (ctx\<lparr>dev_fd := None\<rparr>)
      | Some dev \<Rightarrow> bindE (pciemu_open dev w) (\<lambda>(r, priv).
          Inr (ctx\<lparr>dev_fd := (if r = 0 then priv else None)\<rparr>)))"

text \<open>
  The system call: the kernel rounds the length up to whole pages, chooses an address and calls the
  driver. The value is the address, or -1 (\<open>MAP_FAILED\<close>).
\<close>

definition PAGE_ALIGN :: "'k kernel \<Rightarrow> u64 \<Rightarrow> u64" where
  "PAGE_ALIGN K n = (n + PAGE_SIZE K - 1) AND PAGE_MASK K"

definition mmap_call :: "'k kernel \<Rightarrow> 'k process \<Rightarrow> ptr option \<Rightarrow> u64 \<Rightarrow> 'k kworld \<Rightarrow> (u64 \<times> 'k kworld) res" where
  "mmap_call K P f n w =
     (case (f, mmap_area P (PAGE_ALIGN K n)) of
        (Some dev, Some a) \<Rightarrow> bindE (pciemu_mmap K dev a (a + PAGE_ALIGN K n) w) (\<lambda>(r, w).
          Inr (if r = 0 then a else -1, w))
      | _ \<Rightarrow> Inr (-1, w))"

definition mmap_pciemu_bar :: "'k kernel \<Rightarrow> 'k process \<Rightarrow> example_context \<Rightarrow> 'k kworld
    \<Rightarrow> (int \<times> example_context \<times> 'k kworld) res" where
  "mmap_pciemu_bar K P ctx w =
     bindE (mmap_call K P (dev_fd ctx) (ucast (pci_hw_bar_len ctx)) w) (\<lambda>(a, w).
       let ctx = ctx\<lparr>virt_addr := a\<rparr>
       in if virt_addr ctx = -1 then Inr (-1, ctx, w) else Inr (0, ctx, w))"

section \<open>Registers through the mapping\<close>

text \<open>The values printed; \<open>virt_addr[i]\<close> is the 64-bit word at \<open>8 * i\<close> behind the address.\<close>

definition print_registers :: "'k process \<Rightarrow> example_context \<Rightarrow> 'k kworld \<Rightarrow> u64 list res" where
  "print_registers P ctx w =
     foldE (\<lambda>i vs. bindE (load64 P (virt_addr ctx + of_nat (8 * i)) (kern w)) (\<lambda>v. Inr (vs @ [v])))
       [0..<unat (pci_hw_regs_nb ctx)] []"

definition write_registers_sequential :: "'k process \<Rightarrow> (nat \<Rightarrow> nat) \<Rightarrow> example_context \<Rightarrow> 'k kworld
    \<Rightarrow> 'k kworld res" where
  "write_registers_sequential P rnd ctx w =
     foldE (\<lambda>i w. bindE (store64 P (virt_addr ctx + of_nat (8 * i)) (of_nat (rnd i mod 1024)) (kern w))
                    (\<lambda>k. Inr (w\<lparr>kern := k\<rparr>)))
       [0..<unat (pci_hw_regs_nb ctx)] w"

section \<open>DMA\<close>

text \<open>
  \<open>va\<close> and \<open>vb\<close> are the addresses of the variables \<open>a\<close> and \<open>b\<close>, which hold their random values in the
  state the function is entered with. A system call on a descriptor that is not open fails with \<open>-1\<close>.
\<close>

definition ioctl_call :: "'k kernel \<Rightarrow> ptr option \<Rightarrow> u32 \<Rightarrow> u64 \<Rightarrow> 'k kworld \<Rightarrow> (int \<times> 'k kworld) res" where
  "ioctl_call K f request vaddr w =
     (case f of None \<Rightarrow> Inr (-1, w)
      | Some dev \<Rightarrow> bindE (pciemu_ioctl K dev request vaddr w) (\<lambda>(r, w). Inr (if r < 0 then -1 else r, w)))"

definition ioctl_pciemu :: "'k kernel \<Rightarrow> 'k process \<Rightarrow> u64 \<Rightarrow> u64 \<Rightarrow> example_context \<Rightarrow> 'k kworld
    \<Rightarrow> (int \<times> 'k kworld) res" where
  "ioctl_pciemu K P va vb ctx w =
     bindE (ioctl_call K (dev_fd ctx) (ioctl_to K) va w) (\<lambda>(r, w).
       if r \<noteq> 0 then Inr (-1, w)
       else bindE (ioctl_call K (dev_fd ctx) (ioctl_from K) vb w) (\<lambda>(r, w).
         if r \<noteq> 0 then Inr (-1, w)
         else if load_int P va (kern w) \<noteq> load_int P vb (kern w) then Inr (-2, w) else Inr (0, w)))"

section \<open>The program\<close>

text \<open>
  The exit status and the register values printed (\<open>previous\<close>, then \<open>current\<close>). Closing the descriptor
  calls nothing of the driver, which has no \<open>release\<close> operation.
\<close>

definition main :: "'k kernel \<Rightarrow> 'k process \<Rightarrow> (nat \<Rightarrow> nat) \<Rightarrow> u64 \<Rightarrow> u64 \<Rightarrow> example_context \<Rightarrow> opt list
    \<Rightarrow> 'k kworld \<Rightarrow> (int \<times> u64 list list \<times> 'k kworld) res" where
  "main K P rnd va vb ctx0 ops w =
     (case parse_args ctx0 ops of
        Inl code \<Rightarrow> Inr (code, [], w)
      | Inr ctx \<Rightarrow>
          bindE (open_pciemu_dev P ctx w) (\<lambda>ctx.
          if dev_fd ctx = None then Inr (-1, [], w)
          else bindE (mmap_pciemu_bar K P ctx w) (\<lambda>(r, ctx, w).
          if r \<noteq> 0 then Inr (-1, [], w)
          else bindE (print_registers P ctx w) (\<lambda>previous.
          bindE (write_registers_sequential P rnd ctx w) (\<lambda>w.
          bindE (print_registers P ctx w) (\<lambda>current.
          bindE (ioctl_pciemu K P va vb ctx w) (\<lambda>(r, w).
            Inr (if r \<noteq> 0 then -1 else 0, [previous, current], w))))))))"

section \<open>Registers of a mapped device\<close>

text \<open>
  The mapping of the register BAR at \<open>virt\<close>: a store to a 64-bit word behind it is a 64-bit access of the
  guest to the register BAR of the device, and so is a load.
\<close>

definition bar_mapped :: "'k process \<Rightarrow> ('k \<Rightarrow> 'm world) \<Rightarrow> 'm qemu \<Rightarrow> ptr \<Rightarrow> u64 \<Rightarrow> bool" where
  "bar_mapped P get q dev virt \<longleftrightarrow>
     (\<forall>v off k x. off < PCIEMU_HW_REG_BAR_SIZE \<longrightarrow> pciemu_regbar_write q dev off v 8 (get k) = Inr x \<longrightarrow>
        (\<exists>k'. store64 P (virt + off) v k = Inr k' \<and> get k' = x)) \<and>
     (\<forall>off k. off < PCIEMU_HW_REG_BAR_SIZE \<longrightarrow>
        load64 P (virt + off) k = pciemu_regbar_read dev off 8 (get k))"

lemma register_offset:
  assumes "i < 4"
  shows "reg_index (of_nat (8 * i)) = Some i" and "of_nat (8 * i) < PCIEMU_HW_REG_BAR_SIZE"
proof -
  from assms consider "i = 0" | "i = 1" | "i = 2" | "i = 3" by linarith
  then show "reg_index (of_nat (8 * i)) = Some i" "of_nat (8 * i) < PCIEMU_HW_REG_BAR_SIZE"
    by (cases, simp_all add: reg_index_def hw_defs)+
qed

lemma foldE_collect:
  "(\<And>x. x \<in> set xs \<Longrightarrow> f x = Inr (g x)) \<Longrightarrow>
     foldE (\<lambda>x vs. bindE (f x) (\<lambda>v. Inr (vs @ [v]))) xs vs = Inr (vs @ map g xs)"
  by (induction xs arbitrary: vs) auto

lemma holds_lengths: "dev_holds dev adev rs bs x \<Longrightarrow> length rs = 4 \<and> length bs = 4096"
  by (auto simp: dev_holds_def linked_def wf_dma_def hw_defs)

lemma store_holds:
  assumes bm: "bar_mapped P get q dev virt" and dev: "dev_holds dev adev rs bs (get k)" and i: "i < 4"
  obtains k' where "store64 P (virt + of_nat (8 * i)) v k = Inr k'"
    and "dev_holds dev adev (rs[i := v]) bs (get k')" and "machine (get k') = machine (get k)"
proof -
  from dev obtain a where a: "linked dev adev (get k)" "adevs (get k) adev = Some a"
    "status (dma a) = DMA_STATUS_IDLE" "regs a = rs" "buff (dma a) = bs"
    by (auto simp: dev_holds_def)
  let ?x = "(get k)\<lparr>adevs := (adevs (get k))(adev \<mapsto> set_reg i v a)\<rparr>"
  have wr: "pciemu_regbar_write q dev (of_nat (8 * i)) v 8 (get k) = Inr ?x"
    unfolding regbar_write_linked[OF a(1)] write_scratch[OF a(1,2) register_offset(1)[OF i]] by simp
  then obtain k' where k': "store64 P (virt + of_nat (8 * i)) v k = Inr k'" "get k' = ?x"
    using bm register_offset(2)[OF i] unfolding bar_mapped_def by blast
  have "linked dev adev ?x" using regbar_write_effect[OF a(1,2) wr] by blast
  with a k' that show thesis by (simp add: dev_holds_def)
qed

lemma load_holds:
  assumes bm: "bar_mapped P get q dev virt" and dev: "dev_holds dev adev rs bs (get k)" and i: "i < 4"
  shows "load64 P (virt + of_nat (8 * i)) k = Inr (rs ! i)"
proof -
  from dev obtain a where a: "linked dev adev (get k)" "adevs (get k) adev = Some a" "regs a = rs"
    by (auto simp: dev_holds_def)
  have "load64 P (virt + of_nat (8 * i)) k = pciemu_regbar_read dev (of_nat (8 * i)) 8 (get k)"
    using bm register_offset(2)[OF i] unfolding bar_mapped_def by blast
  also have "\<dots> = Inr (rs ! i)"
    unfolding regbar_read_linked[OF a(1,2)] reg_read_value_def register_offset(1)[OF i] by (simp add: a(3))
  finally show ?thesis .
qed

lemma print_mapped:
  assumes bm: "bar_mapped P get q dev (virt_addr ctx)" and dev: "dev_holds dev adev rs bs (get (kern w))"
    and n: "unat (pci_hw_regs_nb ctx) \<le> 4"
  shows "print_registers P ctx w = Inr (take (unat (pci_hw_regs_nb ctx)) rs)"
proof -
  let ?n = "unat (pci_hw_regs_nb ctx)"
  have "load64 P (virt_addr ctx + of_nat (8 * i)) (kern w) = Inr (rs ! i)" if "i \<in> set [0..<?n]" for i
    by (rule load_holds[OF bm dev]) (use that n in simp)
  then have "print_registers P ctx w = Inr ([] @ map (\<lambda>i. rs ! i) [0..<?n])"
    unfolding print_registers_def by (rule foldE_collect)
  then show ?thesis using n holds_lengths[OF dev] by (simp add: list_eq_iff_nth_eq)
qed

lemma write_mapped:
  assumes bm: "bar_mapped P get q dev (virt_addr ctx)" and dev: "dev_holds dev adev rs bs (get (kern w))"
    and n: "unat (pci_hw_regs_nb ctx) \<le> 4"
  obtains k rs' where "write_registers_sequential P rnd ctx w = Inr (w\<lparr>kern := k\<rparr>)"
    and "dev_holds dev adev rs' bs (get k)" and "machine (get k) = machine (get (kern w))"
    and "take (unat (pci_hw_regs_nb ctx)) rs' = map (\<lambda>i. of_nat (rnd i mod 1024)) [0..<unat (pci_hw_regs_nb ctx)]"
proof -
  define val :: "nat \<Rightarrow> u64" where "val i = of_nat (rnd i mod 1024)" for i
  define body :: "nat \<Rightarrow> 'a kworld \<Rightarrow> 'a kworld res" where "body = (\<lambda>i w. bindE
    (store64 P (virt_addr ctx + of_nat (8 * i)) (val i) (kern w)) (\<lambda>k. Inr (w\<lparr>kern := k\<rparr>)))"
  have "\<exists>k rs. foldE body [0..<m] w = Inr (w\<lparr>kern := k\<rparr>) \<and> dev_holds dev adev rs bs (get k) \<and>
      machine (get k) = machine (get (kern w)) \<and> take m rs = map val [0..<m]" if "m \<le> 4" for m
    using that
  proof (induction m)
    case 0
    show ?case using dev by (intro exI[of _ "kern w"] exI[of _ rs]) simp
  next
    case (Suc m)
    then obtain k rs where k: "foldE body [0..<m] w = Inr (w\<lparr>kern := k\<rparr>)" "dev_holds dev adev rs bs (get k)"
      "machine (get k) = machine (get (kern w))" "take m rs = map val [0..<m]" and m: "m < 4" by auto
    obtain k' where k': "store64 P (virt_addr ctx + of_nat (8 * m)) (val m) k = Inr k'"
      "dev_holds dev adev (rs[m := val m]) bs (get k')" "machine (get k') = machine (get k)"
      by (rule store_holds[OF bm k(2) m])
    have "take (Suc m) (rs[m := val m]) = map val [0..<Suc m]"
      using k(4) m holds_lengths[OF k(2)] by (simp add: take_Suc_conv_app_nth)
    with k k' show ?case
      by (intro exI[of _ k'] exI[of _ "rs[m := val m]"]) (simp add: foldE_append body_def)
  qed
  from this[OF n] that show thesis
    unfolding write_registers_sequential_def val_def body_def by blast
qed

section \<open>The whole program\<close>

text \<open>
  A variable of type \<open>int\<close> at the address \<open>va\<close> of the process and at \<open>A\<close> on the bus: its page can be
  pinned, it does not straddle two pages, and it lies in RAM below 4 GiB.
\<close>

definition user_int :: "'k kernel \<Rightarrow> 'k process \<Rightarrow> ('k \<Rightarrow> 'm world) \<Rightarrow> (ptr \<Rightarrow> u64) \<Rightarrow> ('m \<Rightarrow> u64 \<Rightarrow> u8)
    \<Rightarrow> (u64 \<Rightarrow> bool) \<Rightarrow> u64 \<Rightarrow> u64 \<Rightarrow> bool" where
  "user_int K P get bus ram is_ram va A \<longleftrightarrow>
     (\<exists>page. user_page K get va page \<and> A = bus page + ioctl_ofs K va) \<and>
     ioctl_ofs K va + 4 \<le> PAGE_SIZE K \<and> (\<forall>i < 4. is_ram (A + of_nat i)) \<and> unat A < 2 ^ 32 \<and>
     (\<forall>k. load_int P va k = mem_load (ram (machine (get k))) A 4)"

lemma ioctl_pciemu_succeeds:
  assumes pf: "platform K get q dev base n bus ram" and gr: "guest_ram q ram is_ram"
    and rdy: "drv_ready p base n w" and dev: "dev_holds dev adev rs bs (get (kern w))"
    and ne: "ioctl_from K \<noteq> ioctl_to K" and f: "dev_fd ctx = Some p"
    and a: "user_int K P get bus ram is_ram va A" and b: "user_int K P get bus ram is_ram vb B"
    and ap: "\<And>i j. i < 4 \<Longrightarrow> j < 4 \<Longrightarrow> A + of_nat i \<noteq> B + of_nat j"
  shows "\<exists>w'. ioctl_pciemu K P va vb ctx w = Inr (0, w') \<and> drv_ready p base n w' \<and>
    ram (machine (get (kern w'))) = mem_store B (mem_load (ram (machine (get (kern w)))) A 4)
      (ram (machine (get (kern w))))"
proof -
  let ?r = "ram (machine (get (kern w)))" let ?v = "mem_load ?r A 4"
  from a obtain pa where a: "user_page K get va pa" "ioctl_ofs K va + 4 \<le> PAGE_SIZE K"
      "\<forall>i < 4. is_ram (bus pa + ioctl_ofs K va + of_nat i)" "unat (bus pa + ioctl_ofs K va) < 2 ^ 32"
    and A: "bus pa + ioctl_ofs K va = A" and la: "\<And>k. load_int P va k = mem_load (ram (machine (get k))) A 4"
    unfolding user_int_def by blast
  from b obtain pb where b: "user_page K get vb pb" "ioctl_ofs K vb + 4 \<le> PAGE_SIZE K"
      "\<forall>i < 4. is_ram (bus pb + ioctl_ofs K vb + of_nat i)" "unat (bus pb + ioctl_ofs K vb) < 2 ^ 32"
    and B: "bus pb + ioctl_ofs K vb = B" and lb: "\<And>k. load_int P vb k = mem_load (ram (machine (get k))) B 4"
    unfolding user_int_def by blast
  obtain w1 w2 where w: "pciemu_ioctl K p (ioctl_to K) va w = Inr (0, w1)"
    "pciemu_ioctl K p (ioctl_from K) vb w1 = Inr (0, w2)"
    "ram (machine (get (kern w2))) = mem_store B ?v ?r" "drv_ready p base n w2"
    by (rule ioctl_pair[OF pf gr rdy dev ne a b, unfolded A B])
  have "mem_load (mem_store B ?v ?r) B 4 = ?v" by (rule mem_load_store) simp_all
  moreover have "mem_load (mem_store B ?v ?r) A 4 = ?v" by (rule mem_load_store_apart) (simp add: ap)
  ultimately have "load_int P va (kern w2) = load_int P vb (kern w2)" by (simp add: la lb w(3))
  with w f show ?thesis by (simp add: ioctl_pciemu_def ioctl_call_def)
qed

lemma open_and_map:
  assumes o: "open_file P (filename ctx) = Some p" and nn: "p \<noteq> NULL" and d: "kdevs w p = Some d"
    and len: "bar_len (regbar d) \<noteq> 0" "PAGE_ALIGN K (ucast (pci_hw_bar_len ctx)) \<le> bar_len (regbar d)"
    and m: "mmap_area P (PAGE_ALIGN K (ucast (pci_hw_bar_len ctx))) = Some virt" "virt \<noteq> -1"
    and r: "\<And>pfn l k. \<exists>k'. io_remap_pfn_range K virt pfn l k = (0, k') \<and> get k' = get k"
  shows "open_pciemu_dev P ctx w = Inr (ctx\<lparr>dev_fd := Some p\<rparr>)"
    and "\<exists>k. mmap_pciemu_bar K P (ctx\<lparr>dev_fd := Some p\<rparr>) w =
      Inr (0, ctx\<lparr>dev_fd := Some p, virt_addr := virt\<rparr>, w\<lparr>kern := k\<rparr>) \<and> get k = get (kern w)"
proof -
  show "open_pciemu_dev P ctx w = Inr (ctx\<lparr>dev_fd := Some p\<rparr>)"
    using o nn d len(1) by (simp add: open_pciemu_dev_def pciemu_open_def)
  let ?l = "PAGE_ALIGN K (ucast (pci_hw_bar_len ctx))"
  obtain k where "io_remap_pfn_range K virt (drop_bit (page_shift K) (bar_start (regbar d))) ?l (kern w) = (0, k)"
    "get k = get (kern w)"
    using r by blast
  then show "\<exists>k. mmap_pciemu_bar K P (ctx\<lparr>dev_fd := Some p\<rparr>) w =
      Inr (0, ctx\<lparr>dev_fd := Some p, virt_addr := virt\<rparr>, w\<lparr>kern := k\<rparr>) \<and> get k = get (kern w)"
    using nn d leD[OF len(2)] m
    by (intro exI[of _ k]) (simp add: mmap_pciemu_bar_def mmap_call_def pciemu_mmap_def Let_def)
qed

text \<open>
  C10. The example program succeeds on a working system. When its arguments are accepted, the name it
  builds is the device file of a probed driver whose register BAR is at least as long as the mapping,
  device and machine behave as documented and its two variables lie in different places of RAM below
  4 GiB, each within one page, then the program does not fault or block and exits with status 0. It prints
  the old values of the registers and then exactly the random numbers it has just written, and at the end
  \<open>b\<close> has the value of \<open>a\<close> while no other byte of memory has changed.
\<close>

theorem main_succeeds:
  assumes args: "parse_args ctx0 ops = Inr ctx" and node: "open_file P (filename ctx) = Some p"
    and pf: "platform K get q dev base n bus ram" and gr: "guest_ram q ram is_ram"
    and rdy: "drv_ready p base n w" and dev: "dev_holds dev adev old bs (get (kern w))"
    and ne: "ioctl_from K \<noteq> ioctl_to K"
    and d: "kdevs w p = Some d" "bar_len (regbar d) \<noteq> 0"
      "PAGE_ALIGN K (ucast (pci_hw_bar_len ctx)) \<le> bar_len (regbar d)"
    and m: "mmap_area P (PAGE_ALIGN K (ucast (pci_hw_bar_len ctx))) = Some virt" "virt \<noteq> -1"
      "\<And>pfn l k. \<exists>k'. io_remap_pfn_range K virt pfn l k = (0, k') \<and> get k' = get k"
    and bm: "bar_mapped P get q dev virt"
    and ab: "user_int K P get bus ram is_ram va A" "user_int K P get bus ram is_ram vb B"
      "\<And>i j. i < 4 \<Longrightarrow> j < 4 \<Longrightarrow> A + of_nat i \<noteq> B + of_nat j"
  shows "\<exists>w'. main K P rnd va vb ctx0 ops w =
      Inr (0, [take (unat (pci_hw_regs_nb ctx)) old,
               map (\<lambda>i. of_nat (rnd i mod 1024)) [0..<unat (pci_hw_regs_nb ctx)]], w') \<and>
    ram (machine (get (kern w'))) = mem_store B (mem_load (ram (machine (get (kern w)))) A 4)
      (ram (machine (get (kern w))))"
proof -
  from rdy have nn: "p \<noteq> NULL" by (simp add: drv_ready_def)
  note om = open_and_map[OF node nn d m]
  let ?c = "ctx\<lparr>dev_fd := Some p, virt_addr := virt\<rparr>"
  from om(2) obtain k1 where k1: "mmap_pciemu_bar K P (ctx\<lparr>dev_fd := Some p\<rparr>) w = Inr (0, ?c, w\<lparr>kern := k1\<rparr>)"
    "get k1 = get (kern w)" by blast
  with dev have dev1: "dev_holds dev adev old bs (get (kern (w\<lparr>kern := k1\<rparr>)))" by simp
  have r4: "unat (pci_hw_regs_nb ?c) \<le> 4"
    using parse_argsE(1)[OF args] by (simp add: opts_ok_def hw_defs word_le_nat_alt)
  have bm: "bar_mapped P get q dev (virt_addr ?c)" using bm by simp
  have p1: "print_registers P ?c (w\<lparr>kern := k1\<rparr>) = Inr (take (unat (pci_hw_regs_nb ctx)) old)"
    using print_mapped[OF bm dev1 r4] by simp
  obtain k2 rs where k2: "write_registers_sequential P rnd ?c (w\<lparr>kern := k1\<rparr>) = Inr (w\<lparr>kern := k2\<rparr>)"
    "dev_holds dev adev rs bs (get (kern (w\<lparr>kern := k2\<rparr>)))" "machine (get k2) = machine (get (kern w))"
    "take (unat (pci_hw_regs_nb ctx)) rs = map (\<lambda>i. of_nat (rnd i mod 1024)) [0..<unat (pci_hw_regs_nb ctx)]"
    by (rule write_mapped[OF bm dev1 r4, of rnd]) (use k1 in auto)
  have p2: "print_registers P ?c (w\<lparr>kern := k2\<rparr>) = Inr (take (unat (pci_hw_regs_nb ctx)) rs)"
    using print_mapped[OF bm k2(2) r4] by simp
  have "drv_ready p base n (w\<lparr>kern := k2\<rparr>)" using rdy by (simp add: drv_ready_def)
  then obtain w3 where w3: "ioctl_pciemu K P va vb ?c (w\<lparr>kern := k2\<rparr>) = Inr (0, w3)"
    "ram (machine (get (kern w3))) = mem_store B (mem_load (ram (machine (get (kern w)))) A 4)
      (ram (machine (get (kern w))))"
    using ioctl_pciemu_succeeds[OF pf gr _ k2(2) ne _ ab, of p ?c] k2(3) by auto
  with args om(1) k1(1) p1 k2 p2 show ?thesis by (simp add: main_def)
qed

text \<open>A process on the concrete guest: the device file exists and the BAR is mapped at \<open>0x40000000\<close>.\<close>

definition sample_process :: "sample world process" where
  "sample_process =
     \<lparr>open_file = [''/dev/pciemu/d0b3d4f0_bar0'' \<mapsto> 64], mmap_area = (\<lambda>n. Some 0x40000000),
      store64 = (\<lambda>a v k. pciemu_regbar_write sample_qemu 16 (a - 0x40000000) v 8 k),
      load64 = (\<lambda>a k. pciemu_regbar_read 16 (a - 0x40000000) 8 k),
      load_int = (\<lambda>a k. mem_load (s_ram (machine k)) a 4)\<rparr>"

lemma sample_bar_mapped: "bar_mapped sample_process (\<lambda>k. k) sample_qemu 16 0x40000000"
  by (simp add: bar_mapped_def sample_process_def)

lemma sample_user_int:
  "user_int sample_kernel sample_process (\<lambda>k. k) (\<lambda>page. of_nat (4096 * page)) s_ram (\<lambda>_. True) 0x5008 0x5008"
  "user_int sample_kernel sample_process (\<lambda>k. k) (\<lambda>page. of_nat (4096 * page)) s_ram (\<lambda>_. True) 0x7010 0x7010"
  using sample_user_page[of "\<lambda>k. k" "0x5008"] sample_user_page[of "\<lambda>k. k" "0x7010"]
  by (auto simp: user_int_def sample_process_def sample_kernel_page)

definition sample_context :: example_context where
  "sample_context = (default_context blank_context)\<lparr>pci_bus_nb := 3, pci_device_nb := 4\<rparr>"

lemma sample_context_facts:
  "parse_args blank_context [Opt_b ''3'', Opt_s ''4''] = Inr sample_context"
  "filename sample_context = ''/dev/pciemu/d0b3d4f0_bar0''" "pci_hw_regs_nb sample_context = 4"
  "pci_hw_bar_len sample_context = 32"
proof -
  have "strtol10 ''3'' = Some 3" "strtol10 ''4'' = Some 4" by code_simp+
  from parse_bus_slot[OF this, of blank_context]
  show "parse_args blank_context [Opt_b ''3'', Opt_s ''4''] = Inr sample_context"
    by (simp add: sample_context_def)
  have "file_text 0 3 4 0 = ''/dev/pciemu/d0b3d4f0_bar0''" by code_simp
  then show "filename sample_context = ''/dev/pciemu/d0b3d4f0_bar0''"
    by (simp add: filename_whole sample_context_def default_context_def)
  show "pci_hw_regs_nb sample_context = 4" "pci_hw_bar_len sample_context = 32"
    by (simp_all add: sample_context_def default_context_def hw_defs)
qed

lemma sample_apart: "i < 4 \<Longrightarrow> j < 4 \<Longrightarrow> (0x5008 :: u64) + of_nat i \<noteq> 0x7010 + of_nat j"
proof
  assume "i < 4" "j < 4" "(0x5008 :: u64) + of_nat i = 0x7010 + of_nat j"
  then have "unat (of_nat (0x5008 + i) :: u64) = unat (of_nat (0x7010 + j) :: u64)" by simp
  moreover have "unat (of_nat (0x5008 + i) :: u64) = 0x5008 + i" "unat (of_nat (0x7010 + j) :: u64) = 0x7010 + j"
    by (rule unat_of_nat64, use \<open>i < 4\<close> \<open>j < 4\<close> in simp)+
  ultimately show False using \<open>i < 4\<close> by simp
qed

lemma sample_run_facts:
  "open_file sample_process ''/dev/pciemu/d0b3d4f0_bar0'' = Some 64" "kdevs sample_kworld 64 = Some sample_kdev"
  "bar_len (regbar sample_kdev) = 0x8000000" "mmap_area sample_process l = Some 0x40000000"
  "io_remap_pfn_range sample_kernel a pfn l k = (0, k)" "PAGE_ALIGN sample_kernel 32 = 4096"
  by (simp_all add: sample_process_def sample_kworld_def sample_kdev_def sample_kernel_def plain_kernel_def
      PAGE_ALIGN_def PAGE_MASK_def PAGE_SIZE_def)

theorem main_succeeds_witness:
  "\<exists>w'. main sample_kernel sample_process (\<lambda>i. 1000 + 10 * i) 0x5008 0x7010 blank_context
      [Opt_b ''3'', Opt_s ''4''] sample_kworld = Inr (0, [[1, 2, 3, 4], [1000, 1010, 1020, 6]], w')"
proof -
  have "map (\<lambda>i. of_nat ((1000 + 10 * i) mod 1024)) [0..<4] = ([1000, 1010, 1020, 6] :: u64 list)"
    by (simp add: upt_rec)
  then show ?thesis
    using main_succeeds[OF sample_context_facts(1) _ sample_platform sample_guest_ram sample_kworld_ready(1,3)
      sample_kernel_page(3) _ _ _ _ _ _ sample_bar_mapped sample_user_int sample_apart,
      of sample_kdev "\<lambda>i. 1000 + 10 * i"]
    by (auto simp: sample_context_facts sample_run_facts)
qed

end
