(* ===== verification/User_Device.thy ===== *)
theory User_Device
  imports Example
begin

text \<open>
  What a process sees of the whole stack, through the device file: an abstract device with four
  registers and one stored integer, next to its own memory. The ioctls of the driver and the accesses to
  the mapped registers implement it.
\<close>

section \<open>Specification\<close>

record user_dev =
  u_regs :: "u64 list"
  u_int :: "u8 list"
  u_ram :: "u64 \<Rightarrow> u8"

datatype user_op = Send u64 | Fetch u64 | Store nat u64 | Load nat

text \<open>\<open>loc\<close> gives the place of a variable of the process in memory.\<close>

definition user_spec :: "(u64 \<Rightarrow> u64) \<Rightarrow> user_op \<Rightarrow> user_dev \<Rightarrow> u64 \<times> user_dev" where
  "user_spec loc x s =
     (case x of
        Send va \<Rightarrow> (0, s\<lparr>u_int := mem_load (u_ram s) (loc va) 4\<rparr>)
      | Fetch va \<Rightarrow> (0, s\<lparr>u_ram := mem_store (loc va) (u_int s) (u_ram s)\<rparr>)
      | Store i v \<Rightarrow> (0, s\<lparr>u_regs := (u_regs s)[i := v]\<rparr>)
      | Load i \<Rightarrow> (u_regs s ! i, s))"

section \<open>Implementation\<close>

text \<open>
  \<open>p\<close> is the driver object behind the descriptor, \<open>virt\<close> the address of the mapping. The result is the value
  returned by the ioctl or by the load.
\<close>

definition user_step :: "'k kernel \<Rightarrow> 'k process \<Rightarrow> ptr \<Rightarrow> u64 \<Rightarrow> user_op \<Rightarrow> 'k kworld \<Rightarrow> (u64 \<times> 'k kworld) res" where
  "user_step K P p virt x w =
     (case x of
        Send va \<Rightarrow> bindE (pciemu_ioctl K p (ioctl_to K) va w) (\<lambda>(r, w). Inr (of_int r, w))
      | Fetch va \<Rightarrow> bindE (pciemu_ioctl K p (ioctl_from K) va w) (\<lambda>(r, w). Inr (of_int r, w))
      | Store i v \<Rightarrow> bindE (store64 P (virt + of_nat (8 * i)) v (kern w)) (\<lambda>k. Inr (0, w\<lparr>kern := k\<rparr>))
      | Load i \<Rightarrow> bindE (load64 P (virt + of_nat (8 * i)) (kern w)) (\<lambda>v. Inr (v, w)))"

definition user_abs :: "('k \<Rightarrow> 'm world) \<Rightarrow> ptr \<Rightarrow> ('m \<Rightarrow> u64 \<Rightarrow> u8) \<Rightarrow> 'k kworld \<Rightarrow> user_dev" where
  "user_abs get adev ram w =
     (case adevs (get (kern w)) adev of
        Some a \<Rightarrow> \<lparr>u_regs = regs a, u_int = slice 0 4 (buff (dma a)), u_ram = ram (machine (get (kern w)))\<rparr>
      | None \<Rightarrow> \<lparr>u_regs = [], u_int = [], u_ram = ram (machine (get (kern w)))\<rparr>)"

text \<open>The environment behaves as documented, the driver is ready and the device idle.\<close>

definition user_inv :: "'k kernel \<Rightarrow> 'k process \<Rightarrow> ('k \<Rightarrow> 'm world) \<Rightarrow> 'm qemu \<Rightarrow> ptr \<Rightarrow> ptr \<Rightarrow> ptr \<Rightarrow> u64 \<Rightarrow> int
    \<Rightarrow> (ptr \<Rightarrow> u64) \<Rightarrow> ('m \<Rightarrow> u64 \<Rightarrow> u8) \<Rightarrow> (u64 \<Rightarrow> bool) \<Rightarrow> u64 \<Rightarrow> 'k kworld \<Rightarrow> bool" where
  "user_inv K P get q dev adev p base n bus ram is_ram virt w \<longleftrightarrow>
     platform K get q dev base n bus ram \<and> guest_ram q ram is_ram \<and> ioctl_from K \<noteq> ioctl_to K \<and>
     bar_mapped P get q dev virt \<and> drv_ready p base n w \<and> (\<exists>rs bs. dev_holds dev adev rs bs (get (kern w)))"

definition user_ok :: "'k kernel \<Rightarrow> 'k process \<Rightarrow> ('k \<Rightarrow> 'm world) \<Rightarrow> (ptr \<Rightarrow> u64) \<Rightarrow> ('m \<Rightarrow> u64 \<Rightarrow> u8) \<Rightarrow> (u64 \<Rightarrow> bool)
    \<Rightarrow> (u64 \<Rightarrow> u64) \<Rightarrow> user_op \<Rightarrow> bool" where
  "user_ok K P get bus ram is_ram loc x \<longleftrightarrow>
     (case x of
        Send va \<Rightarrow> user_int K P get bus ram is_ram va (loc va)
      | Fetch va \<Rightarrow> user_int K P get bus ram is_ram va (loc va)
      | Store i v \<Rightarrow> i < 4
      | Load i \<Rightarrow> i < 4)"

section \<open>Simulation\<close>

lemma user_abs_holds:
  "dev_holds dev adev rs bs (get (kern w)) \<Longrightarrow>
     user_abs get adev ram w = \<lparr>u_regs = rs, u_int = slice 0 4 bs, u_ram = ram (machine (get (kern w)))\<rparr>"
  by (auto simp: dev_holds_def user_abs_def)

lemma user_invE:
  assumes "user_inv K P get q dev adev p base n bus ram is_ram virt w"
  obtains rs bs where "platform K get q dev base n bus ram" and "guest_ram q ram is_ram"
    and "ioctl_from K \<noteq> ioctl_to K" and "bar_mapped P get q dev virt" and "drv_ready p base n w"
    and "dev_holds dev adev rs bs (get (kern w))"
  using assms by (auto simp: user_inv_def)

lemma user_intE:
  assumes "user_int K P get bus ram is_ram va A"
  obtains page where "user_page K get va page" and "ioctl_ofs K va + 4 \<le> PAGE_SIZE K"
    and "\<forall>i < 4. is_ram (bus page + ioctl_ofs K va + of_nat i)" and "unat (bus page + ioctl_ofs K va) < 2 ^ 32"
    and "A = bus page + ioctl_ofs K va"
  using assms by (auto simp: user_int_def)

lemma user_simulation:
  assumes inv: "user_inv K P get q dev adev p base n bus ram is_ram virt w"
    and ok: "user_ok K P get bus ram is_ram loc x"
  shows "\<exists>r w'. user_step K P p virt x w = Inr (r, w') \<and>
    user_spec loc x (user_abs get adev ram w) = (r, user_abs get adev ram w') \<and>
    user_inv K P get q dev adev p base n bus ram is_ram virt w'"
proof -
  from inv obtain rs bs where h: "platform K get q dev base n bus ram" "guest_ram q ram is_ram"
    "ioctl_from K \<noteq> ioctl_to K" "bar_mapped P get q dev virt" "drv_ready p base n w"
    and dev: "dev_holds dev adev rs bs (get (kern w))"
    by (rule user_invE)
  note ab = user_abs_holds[where get = get and w = w, OF dev]
  have keep: "user_inv K P get q dev adev p base n bus ram is_ram virt w'"
    if "drv_ready p base n w'" "dev_holds dev adev rs' bs' (get (kern w'))" for w' rs' bs'
    using h that by (auto simp: user_inv_def)
  show ?thesis
  proof (cases x)
    case (Send va)
    with ok obtain page where u: "user_page K get va page" "ioctl_ofs K va + 4 \<le> PAGE_SIZE K"
      "\<forall>i < 4. is_ram (bus page + ioctl_ofs K va + of_nat i)" "unat (bus page + ioctl_ofs K va) < 2 ^ 32"
      and A: "loc va = bus page + ioctl_ofs K va"
      by (auto simp: user_ok_def elim: user_intE)
    from ioctl_to_device[OF h(1,2,5) dev u] obtain w' where
      "pciemu_ioctl K p (ioctl_to K) va w = Inr (0, w')" "drv_ready p base n w'"
      "dev_holds dev adev rs (blit 0 (mem_load (ram (machine (get (kern w)))) (loc va) 4) bs) (get (kern w'))"
      "ram (machine (get (kern w'))) = ram (machine (get (kern w)))"
      unfolding A by blast
    with Send holds_lengths[OF dev] keep show ?thesis
      by (simp add: user_step_def user_spec_def ab user_abs_holds[where get = get])
  next
    case (Fetch va)
    with ok obtain page where u: "user_page K get va page" "ioctl_ofs K va + 4 \<le> PAGE_SIZE K"
      "\<forall>i < 4. is_ram (bus page + ioctl_ofs K va + of_nat i)" "unat (bus page + ioctl_ofs K va) < 2 ^ 32"
      and A: "loc va = bus page + ioctl_ofs K va"
      by (auto simp: user_ok_def elim: user_intE)
    from ioctl_from_device[OF h(1,2,5) dev u h(3)] obtain w' where
      "pciemu_ioctl K p (ioctl_from K) va w = Inr (0, w')" "drv_ready p base n w'"
      "dev_holds dev adev rs bs (get (kern w'))"
      "ram (machine (get (kern w'))) = mem_store (loc va) (slice 0 4 bs) (ram (machine (get (kern w))))"
      unfolding A by blast
    with Fetch keep show ?thesis
      by (simp add: user_step_def user_spec_def ab user_abs_holds[where get = get])
  next
    case (Store i v)
    with ok have "i < 4" by (simp add: user_ok_def)
    from store_holds[OF h(4) dev this] obtain k where
      "store64 P (virt + of_nat (8 * i)) v (kern w) = Inr k"
      "dev_holds dev adev (rs[i := v]) bs (get (kern (w\<lparr>kern := k\<rparr>)))"
      "machine (get k) = machine (get (kern w))"
      by auto
    moreover have "drv_ready p base n (w\<lparr>kern := k\<rparr>)" using h(5) by (simp add: drv_ready_def)
    ultimately show ?thesis
      using Store keep[of "w\<lparr>kern := k\<rparr>"] user_abs_holds[of dev adev "rs[i := v]" bs get "w\<lparr>kern := k\<rparr>"]
      by (simp add: user_step_def user_spec_def ab)
  next
    case (Load i)
    with ok have "load64 P (virt + of_nat (8 * i)) (kern w) = Inr (rs ! i)"
      by (intro load_holds[OF h(4) dev]) (simp add: user_ok_def)
    with Load inv show ?thesis
      by (simp add: user_step_def user_spec_def ab)
  qed
qed

interpretation user_device: simulation
  "user_step K P p virt" "user_spec loc" "user_abs get adev ram"
  "user_inv K P get q dev adev p base n bus ram is_ram virt" "user_ok K P get bus ram is_ram loc"
  for K P p virt loc get adev ram q dev base n bus is_ram
  by unfold_locales (rule user_simulation)

section \<open>Property of the whole stack\<close>

text \<open>
  C1. Program, driver and device together implement the abstract device. On a working system, every
  sequence of ioctls of either direction and of loads and stores to the mapped registers, in any
  order and of any length, runs to its end without a fault and without blocking. Every ioctl returns 0,
  every load and every byte of memory is what the abstract device prescribes: a register holds what was
  stored to it last, and a fetch delivers the integer that was sent last, whatever happened in
  between.
\<close>

theorem user_device_refines:
  assumes "user_inv K P get q dev adev p base n bus ram is_ram virt w"
    and "list_all (user_ok K P get bus ram is_ram loc) xs"
  shows "\<exists>rs w'. runE (user_step K P p virt) xs w = Inr (rs, w') \<and>
    run_spec (user_spec loc) xs (user_abs get adev ram w) = (rs, user_abs get adev ram w') \<and>
    user_inv K P get q dev adev p base n bus ram is_ram virt w'"
  using assms by (rule user_device.runs)

lemma sample_user_inv:
  "user_inv sample_kernel sample_process (\<lambda>k. k) sample_qemu 16 32 64 0x9000 30
     (\<lambda>page. of_nat (4096 * page)) s_ram (\<lambda>_. True) 0x40000000 sample_kworld"
  using sample_platform sample_guest_ram sample_kernel_page(3) sample_bar_mapped sample_kworld_ready(1,3)
  by (auto simp: user_inv_def)

theorem user_device_refines_witness:
  "\<exists>w'. runE (user_step sample_kernel sample_process 64 0x40000000)
      [Store 1 77, Send 0x5008, Load 1, Store 2 5, Fetch 0x7010, Load 2] sample_kworld = Inr ([0, 0, 77, 0, 0, 5], w') \<and>
    u_ram (user_abs (\<lambda>k. k) 32 s_ram w') 0x7012 = 10"
proof -
  let ?xs = "[Store 1 77, Send 0x5008, Load 1, Store 2 5, Fetch 0x7010, Load 2]"
  have "list_all (user_ok sample_kernel sample_process (\<lambda>k. k) (\<lambda>page. of_nat (4096 * page)) s_ram (\<lambda>_. True) (\<lambda>a. a)) ?xs"
    using sample_user_int by (simp add: user_ok_def)
  from user_device_refines[OF sample_user_inv this] obtain rs w' where
    w': "runE (user_step sample_kernel sample_process 64 0x40000000) ?xs sample_kworld = Inr (rs, w')"
    "run_spec (user_spec (\<lambda>a. a)) ?xs (user_abs (\<lambda>k. k) 32 s_ram sample_kworld) = (rs, user_abs (\<lambda>k. k) 32 s_ram w')"
    by blast
  have "rs = [0, 0, 77, 0, 0, 5]" and u: "u_ram (user_abs (\<lambda>k. k) 32 s_ram w') =
      mem_store 0x7010 (mem_load s_ram' 0x5008 4) s_ram'" if "s_ram' = (\<lambda>a. ucast a)" for s_ram' :: "u64 \<Rightarrow> u8"
    using w'(2) that user_abs_holds[where get = "\<lambda>k. k" and ram = s_ram, OF sample_kworld_ready(3)]
    by (auto simp: user_spec_def sample_kworld_ready(2) dest: sym)
  moreover have "mem_store 0x7010 (mem_load (\<lambda>a. ucast a) 0x5008 4) (\<lambda>a. ucast a) 0x7012 = (10 :: u8)"
    by (simp add: mem_store_def mem_load_def)
  ultimately show ?thesis using w'(1) by auto
qed

end
