(* ===== verification/Drv_Lifecycle.thy ===== *)
theory Drv_Lifecycle
  imports Drv_Probe Interfaces
begin

text \<open>
  The life of the module: it is loaded, devices come and go in any order and number, and it is
  unloaded. The kernel core calls \<open>probe\<close> for a device that is not bound, \<open>remove\<close> for one that is, and removes
  all devices before it unregisters a driver.
\<close>

section \<open>Steps\<close>

text \<open>\<open>bound\<close> is the kernel core's record: the PCI devices bound to the driver, each with its object.\<close>

record 'k mstate =
  mw :: "'k kworld"
  loaded :: bool
  bound :: "ptr \<rightharpoonup> ptr"

text \<open>
  What the probe relies on: a device with MSI or MSI-X and the register BAR among its memory BARs, and a
  fresh object whose memory happens to be clear where the BAR addresses are.
\<close>

definition probeable :: "'k kernel \<Rightarrow> ptr \<Rightarrow> bool" where
  "probeable K pd \<longleftrightarrow> has_vectors K pd \<and> (\<forall>k. pci_select_bars K pd k AND push_bit PCIEMU_HW_REG_BAR 1 \<noteq> 0)"

definition fresh :: "ptr \<Rightarrow> pciemu_dev \<Rightarrow> 'k kworld \<Rightarrow> bool" where
  "fresh dev c w \<longleftrightarrow> dev \<noteq> NULL \<and> kdevs w dev = None \<and> mmio (membar c) = 0 \<and> mmio (internal_bar c) = 0"

inductive mod_step :: "'k kernel \<Rightarrow> 'k mstate \<Rightarrow> 'k mstate \<Rightarrow> bool" for K :: "'k kernel" where
  load: "\<not> loaded s \<Longrightarrow> pciemu_module_init K (mw s) = Inr (err, w) \<Longrightarrow>
    mod_step K s (s\<lparr>mw := w, loaded := (err = 0)\<rparr>)"
| probe_no_memory: "loaded s \<Longrightarrow> bound s pd = None \<Longrightarrow> pciemu_probe K None pd (mw s) = Inr (err, w) \<Longrightarrow>
    mod_step K s (s\<lparr>mw := w\<rparr>)"
| probe: "loaded s \<Longrightarrow> bound s pd = None \<Longrightarrow> probeable K pd \<Longrightarrow> fresh dev c (mw s) \<Longrightarrow>
    pciemu_probe K (Some (dev, c)) pd (mw s) = Inr (err, w) \<Longrightarrow>
    mod_step K s (s\<lparr>mw := w, bound := (if err = 0 then (bound s)(pd \<mapsto> dev) else bound s)\<rparr>)"
| remove: "bound s pd = Some dev \<Longrightarrow> pciemu_remove pd (mw s) = Inr w \<Longrightarrow>
    mod_step K s (s\<lparr>mw := w, bound := (bound s)(pd := None)\<rparr>)"
| unload: "loaded s \<Longrightarrow> bound s = Map.empty \<Longrightarrow> pciemu_module_exit (mw s) = Inr w \<Longrightarrow>
    mod_step K s (s\<lparr>mw := w, loaded := False\<rparr>)"
| other: "mod_step K s (s\<lparr>mw := (mw s)\<lparr>kern := k\<rparr>\<rparr>)"

inductive_cases mod_stepE: "mod_step K s s'"

definition mod_start :: "'k mstate \<Rightarrow> bool" where
  "mod_start s \<longleftrightarrow> \<not> loaded s \<and> bound s = Map.empty \<and> held (mw s) = {#} \<and> kdevs (mw s) = Map.empty"

section \<open>The account of resources\<close>

definition dev_share :: "'k kworld \<Rightarrow> ptr \<Rightarrow> ptr \<Rightarrow> resource multiset" where
  "dev_share w pd dev = (case kdevs w dev of None \<Rightarrow> {#} | Some d \<Rightarrow> all_held dev pd d {#})"

definition account :: "'k mstate \<Rightarrow> resource multiset" where
  "account s = (if loaded s then {#R_driver, R_class#} else {#}) +
     (\<Sum>pd \<in> dom (bound s). dev_share (mw s) pd (the (bound s pd)))"

definition mod_inv :: "'k mstate \<Rightarrow> bool" where
  "mod_inv s \<longleftrightarrow> finite (dom (bound s)) \<and> inj_on (bound s) (dom (bound s)) \<and> dom (kdevs (mw s)) = ran (bound s) \<and>
     (\<not> loaded s \<longrightarrow> bound s = Map.empty) \<and> held (mw s) = account s \<and>
     (\<forall>pd dev. bound s pd = Some dev \<longrightarrow> dev \<noteq> NULL \<and> drvdata (mw s) pd = dev \<and>
        (\<exists>d. kdevs (mw s) dev = Some d \<and> mapped d \<and>
           mmio_ack_irq (dev_irq d) = mmio (regbar d) + PCIEMU_HW_IRQ_DMA_ACK_ADDR))"

lemma all_held_add: "all_held dev pd d M = all_held dev pd d {#} + M"
  by (simp add: all_held_def)

lemma mod_start_inv: "mod_start s \<Longrightarrow> mod_inv s"
  by (simp add: mod_start_def mod_inv_def account_def)

text \<open>A change of one object leaves the shares of the devices bound to other objects alone.\<close>

lemma shares_other:
  assumes "\<And>pd. pd \<in> A \<Longrightarrow> the (f pd) \<noteq> dev" and "\<And>p. p \<noteq> dev \<Longrightarrow> kdevs w' p = kdevs w p"
  shows "(\<Sum>pd \<in> A. dev_share w' pd (the (f pd))) = (\<Sum>pd \<in> A. dev_share w pd (the (f pd)))"
  using assms by (intro sum.cong) (simp_all add: dev_share_def)

lemma inv_bind:
  assumes inv: "mod_inv s" and ld: "loaded s" and b: "bound s pd = None" and f: "fresh dev c (mw s)"
    and p: "probed dev pd (mw s) w"
  shows "mod_inv (s\<lparr>mw := w, bound := (bound s)(pd \<mapsto> dev)\<rparr>)"
proof -
  from p obtain d where d: "kdevs w = (kdevs (mw s))(dev \<mapsto> d)" "mapped d"
    "held w = all_held dev pd d (held (mw s))" "drvdata w = (drvdata (mw s))(pd := dev)"
    "mmio_ack_irq (dev_irq d) = mmio (regbar d) + PCIEMU_HW_IRQ_DMA_ACK_ADDR"
    by (auto simp: probed_def)
  from f have nn: "dev \<noteq> NULL" and new: "dev \<notin> ran (bound s)" using inv by (auto simp: fresh_def mod_inv_def)
  let ?b = "(bound s)(pd \<mapsto> dev)"
  have dom: "dom ?b = insert pd (dom (bound s))" "pd \<notin> dom (bound s)" using b by auto
  have "(\<Sum>q \<in> dom (bound s). dev_share w q (the (?b q))) = (\<Sum>q \<in> dom (bound s). dev_share w q (the (bound s q)))"
    using b by (intro sum.cong) auto
  also have "\<dots> = (\<Sum>q \<in> dom (bound s). dev_share (mw s) q (the (bound s q)))"
    by (rule shares_other[of _ _ dev]) (use new d(1) in \<open>auto simp: ran_def\<close>)
  finally have "(\<Sum>q \<in> dom ?b. dev_share w q (the (?b q))) = all_held dev pd d {#} +
      (\<Sum>q \<in> dom (bound s). dev_share (mw s) q (the (bound s q)))"
    using inv dom d(1) by (simp add: mod_inv_def dev_share_def)
  then have "held w = account (s\<lparr>mw := w, bound := ?b\<rparr>)"
    using inv ld d(3) all_held_add[of dev pd d "held (mw s)"] by (simp add: mod_inv_def account_def ac_simps)
  moreover have "inj_on ?b (dom ?b)" using inv new b by (auto simp: mod_inv_def inj_on_def ran_def)
  moreover have "dom (kdevs w) = ran ?b" using inv d(1) b by (auto simp: mod_inv_def)
  moreover have "q \<noteq> pd \<Longrightarrow> bound s q = Some e \<Longrightarrow> e \<noteq> dev" for q e using new by (auto simp: ran_def)
  ultimately show ?thesis using inv nn ld d by (auto simp: mod_inv_def)
qed

text \<open>What is held is the share of a bound device and the rest.\<close>

definition rest_held :: "ptr \<Rightarrow> 'k mstate \<Rightarrow> resource multiset" where
  "rest_held pd s = (if loaded s then {#R_driver, R_class#} else {#}) +
     (\<Sum>q \<in> dom (bound s) - {pd}. dev_share (mw s) q (the (bound s q)))"

lemma bound_share:
  assumes inv: "mod_inv s" and b: "bound s pd = Some dev" and d: "kdevs (mw s) dev = Some d"
  shows "held (mw s) = all_held dev pd d (rest_held pd s)"
proof -
  have "(\<Sum>q \<in> dom (bound s). dev_share (mw s) q (the (bound s q))) = all_held dev pd d {#} +
      (\<Sum>q \<in> dom (bound s) - {pd}. dev_share (mw s) q (the (bound s q)))"
    using inv b d by (subst sum.remove[of _ pd]) (auto simp: mod_inv_def dev_share_def)
  then show ?thesis
    using inv all_held_add[of dev pd d "rest_held pd s"] by (simp add: mod_inv_def account_def rest_held_def ac_simps)
qed

text \<open>Removing a bound device never fails and leaves the account of the others.\<close>

lemma inv_unbind:
  assumes inv: "mod_inv s" and b: "bound s pd = Some dev"
  obtains w where "pciemu_remove pd (mw s) = Inr w" and "mod_inv (s\<lparr>mw := w, bound := (bound s)(pd := None)\<rparr>)"
    and "kdevs w = (kdevs (mw s))(dev := None)" and "kern w = kern (mw s)"
proof -
  from inv b obtain d where d: "dev \<noteq> NULL" "kdevs (mw s) dev = Some d" "mapped d" "drvdata (mw s) pd = dev"
    unfolding mod_inv_def by blast
  let ?b = "(bound s)(pd := None)"
  let ?rest = "\<Sum>q \<in> dom (bound s) - {pd}. dev_share (mw s) q (the (bound s q))"
  define M where "M = rest_held pd s"
  have "held (mw s) = all_held dev pd d M" unfolding M_def by (rule bound_share[OF inv b d(2)])
  from remove_bound[OF d this] have rm: "pciemu_remove pd (mw s) = Inr (gone dev M (mw s))" .
  have other: "the (bound s q) \<noteq> dev" if "q \<in> dom (bound s) - {pd}" for q
    using that inv b by (auto simp: mod_inv_def inj_on_def domI)
  have "(\<Sum>q \<in> dom ?b. dev_share (gone dev M (mw s)) q (the (?b q))) =
      (\<Sum>q \<in> dom (bound s) - {pd}. dev_share (gone dev M (mw s)) q (the (bound s q)))"
    by (intro sum.cong) auto
  also have "\<dots> = ?rest" by (rule shares_other[of _ _ dev]) (use other in simp_all)
  finally have "(\<Sum>q \<in> dom ?b. dev_share (gone dev M (mw s)) q (the (?b q))) = ?rest" .
  then have "held (gone dev M (mw s)) = account (s\<lparr>mw := gone dev M (mw s), bound := ?b\<rparr>)"
    by (simp add: account_def M_def rest_held_def)
  moreover have "inj_on ?b (dom ?b)" using inv by (auto simp: mod_inv_def inj_on_def)
  moreover have ne: "q \<noteq> pd \<Longrightarrow> bound s q = Some e \<Longrightarrow> e \<noteq> dev" for q e using other[of q] by auto
  moreover have "ran ?b = ran (bound s) - {dev}"
  proof
    show "ran ?b \<subseteq> ran (bound s) - {dev}" using ne by (auto simp: ran_def split: if_splits)
    show "ran (bound s) - {dev} \<subseteq> ran ?b"
    proof
      fix e assume "e \<in> ran (bound s) - {dev}"
      then obtain q where q: "bound s q = Some e" "e \<noteq> dev" by (auto simp: ran_def)
      with b have "?b q = Some e" by auto
      then show "e \<in> ran ?b" by (rule ranI)
    qed
  qed
  ultimately have "mod_inv (s\<lparr>mw := gone dev M (mw s), bound := ?b\<rparr>)"
    using inv by (auto simp: mod_inv_def)
  with rm show thesis by (rule that) simp_all
qed

lemma inv_unchanged:
  assumes inv: "mod_inv s" and w: "held w = held (mw s)" "kdevs w = kdevs (mw s)"
    and dd: "\<And>p. bound s p \<noteq> None \<Longrightarrow> drvdata w p = drvdata (mw s) p"
  shows "mod_inv (s\<lparr>mw := w\<rparr>)"
proof -
  have "account (s\<lparr>mw := w\<rparr>) = account s" by (simp add: account_def dev_share_def w(2))
  with inv w dd show ?thesis by (auto simp: mod_inv_def)
qed

lemma probe_result:
  assumes "probeable K pd" and "fresh dev c w"
  shows "\<exists>err w'. pciemu_probe K (Some (dev, c)) pd w = Inr (err, w') \<and>
    (if err = 0 then probed dev pd w w' else unprobed dev pd w w')"
  using probe_cases[of dev c K pd w] assms by (auto simp: probeable_def fresh_def)

lemma inv_probe:
  assumes inv: "mod_inv s" and "loaded s" and b: "bound s pd = None" and "probeable K pd" and f: "fresh dev c (mw s)"
    and run: "pciemu_probe K (Some (dev, c)) pd (mw s) = Inr (err, w)"
  shows "mod_inv (s\<lparr>mw := w, bound := (if err = 0 then (bound s)(pd \<mapsto> dev) else bound s)\<rparr>)"
proof (cases "err = 0")
  case True
  with probe_result[OF assms(4) f] run have "probed dev pd (mw s) w" by auto
  from inv_bind[OF inv assms(2) b f this] True show ?thesis by simp
next
  case False
  with probe_result[OF assms(4) f] run have "unprobed dev pd (mw s) w" by auto
  then have "held w = held (mw s)" "kdevs w = kdevs (mw s)" "\<And>p. p \<noteq> pd \<Longrightarrow> drvdata w p = drvdata (mw s) p"
    using f by (auto simp: unprobed_def fresh_def fun_upd_idem)
  with inv_unchanged[OF inv] b have "mod_inv (s\<lparr>mw := w\<rparr>)" by metis
  with False show ?thesis by simp
qed

lemma init_result:
  assumes "pciemu_module_init K w = Inr (err, w')"
  shows "held w' = (if err = 0 then {#R_driver, R_class#} else {#}) + held w \<and> kdevs w' = kdevs w \<and> drvdata w' = drvdata w"
proof -
  obtain e1 k1 where 1: "class_create K ''pciemu'' (kern w) = (e1, k1)" by (cases "class_create K ''pciemu'' (kern w)")
  obtain e2 k2 where 2: "pci_register_driver K k1 = (e2, k2)" by (cases "pci_register_driver K k1")
  show ?thesis
    using assms 1 2 by (auto simp: pciemu_module_init_def Let_def split: if_splits)
qed

lemma inv_load:
  assumes inv: "mod_inv s" and "\<not> loaded s" and "pciemu_module_init K (mw s) = Inr (err, w)"
  shows "mod_inv (s\<lparr>mw := w, loaded := (err = 0)\<rparr>)"
  using init_result[OF assms(3)] inv assms(2) by (auto simp: mod_inv_def account_def)

lemma exit_result:
  assumes inv: "mod_inv s" and "loaded s" and "bound s = Map.empty"
  shows "pciemu_module_exit (mw s) = Inr ((mw s)\<lparr>held := {#}\<rparr>)"
  using assms by (simp add: mod_inv_def account_def pciemu_module_exit_def)

lemma mod_inv_step: "mod_step K s s' \<Longrightarrow> mod_inv s \<Longrightarrow> mod_inv s'"
proof (induction rule: mod_step.induct)
  case (load s err w)
  then show ?case by (intro inv_load)
next
  case (probe_no_memory s pd err w)
  then show ?case by (auto simp: pciemu_probe_def err_pciemu_alloc_def)
next
  case (probe s pd dev c err w)
  then show ?case by (intro inv_probe)
next
  case (remove s pd dev w)
  then show ?case by (auto elim: inv_unbind)
next
  case (unload s w)
  with exit_result[of s] show ?case by (auto simp: mod_inv_def account_def)
next
  case (other s k)
  then show ?case by (rule inv_unchanged) simp_all
qed

interpretation module_life: invariant_system mod_start "mod_step K" mod_inv for K
  by unfold_locales (auto intro: mod_start_inv mod_inv_step)

section \<open>Property of the life cycle\<close>


definition empty_module :: "unit mstate" where
  "empty_module = \<lparr>mw = plain_world\<lparr>held := {#}\<rparr>, loaded = False, bound = Map.empty\<rparr>"

lemma empty_module_start: "mod_start empty_module"
  by (simp add: mod_start_def empty_module_def plain_world_def)

lemma plain_kernel_bus: "plain_kernel bars reg\<lparr>iowrite32 := \<lambda>v a. Inr\<rparr> = plain_kernel bars reg"
  by (simp add: plain_kernel_def)

text \<open>One device is bound, whatever the bus does with register writes.\<close>

lemma plain_module_run:
  obtains s d where "(mod_step (plain_kernel 0xD 0x9000\<lparr>iowrite32 := f\<rparr>))\<^sup>*\<^sup>* empty_module s" and "bound s = [16 \<mapsto> 32]"
    and "kdevs (mw s) 32 = Some d" and "mmio (regbar d) = 0x9000"
proof -
  let ?K = "plain_kernel 0xD 0x9000\<lparr>iowrite32 := f\<rparr> :: unit kernel"
  have "pciemu_module_init ?K (mw empty_module) = Inr (0, plain_world)"
    by (simp add: pciemu_module_init_def plain_kernel_def empty_module_def plain_world_def hold_def add_mset_commute)
  then have 1: "mod_step ?K empty_module (empty_module\<lparr>mw := plain_world, loaded := True\<rparr>)"
    using mod_step.load[of empty_module ?K 0 plain_world] by (simp add: empty_module_def)
  obtain w d where w: "pciemu_probe ?K (Some (32, blank_dev)) 16 plain_world = Inr (0, w)"
    "kdevs w 32 = Some d" "mmio (regbar d) = 0x9000"
    using plain_probe_succeeds[of 32 f 16 plain_world] by auto
  have "probeable ?K 16" by (simp add: probeable_def has_vectors_def plain_kernel_def hw_defs)
  with w(1) have 2: "mod_step ?K (empty_module\<lparr>mw := plain_world, loaded := True\<rparr>)
      (empty_module\<lparr>mw := w, loaded := True, bound := [16 \<mapsto> 32]\<rparr>)"
    using mod_step.probe[of "empty_module\<lparr>mw := plain_world, loaded := True\<rparr>" 16 ?K 32 blank_dev 0 w]
    by (simp add: empty_module_def fresh_def plain_kernel_facts)
  from 1 2 have "(mod_step ?K)\<^sup>*\<^sup>* empty_module (empty_module\<lparr>mw := w, loaded := True, bound := [16 \<mapsto> 32]\<rparr>)"
    by (meson converse_rtranclp_into_rtranclp r_into_rtranclp)
  then show thesis by (rule that[of _ d]) (simp_all add: w)
qed


end
