(* ===== verification/Boot.thy ===== *)
theory Boot
  imports User_Device Drv_Lifecycle
begin

text \<open>
  From power-on to a working system: QEMU realises the device, the guest's kernel probes it, and the state
  the process finds is one in which the abstract device of \<open>User_Device\<close> is implemented.
\<close>

section \<open>Kernel calls of the probe\<close>

text \<open>A property of the kernel's state that the calls made while probing keep.\<close>

definition probe_keeps :: "'k kernel \<Rightarrow> ('k \<Rightarrow> bool) \<Rightarrow> bool" where
  "probe_keeps K I \<longleftrightarrow> (\<forall>k. I k \<longrightarrow>
     (\<forall>pd. I (snd (pci_enable_device K pd k))) \<and> (\<forall>pd m. I (snd (dma_set_mask_and_coherent K pd m k))) \<and>
     (\<forall>pd b. I (snd (pci_request_selected_regions K pd b k))) \<and> (\<forall>pd n l. I (snd (pci_iomap K pd n l k))) \<and>
     I (snd (snd (snd (alloc_chrdev_region K k)))) \<and> (\<forall>dev ma mi. I (snd (cdev_add K dev ma mi k))) \<and>
     (\<forall>pd ma mi name. I (snd (device_create K pd ma mi name k))) \<and>
     (\<forall>pd lo hi kind. I (snd (pci_alloc_irq_vectors K pd lo hi kind k))) \<and>
     (\<forall>n f dev. I (snd (request_irq K n f dev k))))"

text \<open>Computations that end, if they end, in a state with the property; one rule per construct.\<close>

definition kw :: "('k \<Rightarrow> bool) \<Rightarrow> 'k kworld res \<Rightarrow> bool" where
  "kw I m \<longleftrightarrow> (\<forall>w. m = Inr w \<longrightarrow> I (kern w))"

definition kr :: "('k \<Rightarrow> bool) \<Rightarrow> (int \<times> 'k kworld) res \<Rightarrow> bool" where
  "kr I m \<longleftrightarrow> (\<forall>r w. m = Inr (r, w) \<longrightarrow> I (kern w))"

named_theorems keeps \<open>computations that keep a property of the kernel state\<close>

lemma kr_binds [keeps]:
  "kw I m \<Longrightarrow> (\<And>w. I (kern w) \<Longrightarrow> kr I (f w)) \<Longrightarrow> kr I (bindE m f)"
  "kr I n \<Longrightarrow> (\<And>r w. I (kern w) \<Longrightarrow> kr I (g (r, w))) \<Longrightarrow> kr I (bindE n g)"
  "(\<And>d. kr I (h d)) \<Longrightarrow> kr I (bindE (deref hp p) h)"
  by (auto simp: kr_def kw_def res_simps)

lemma kw_binds [keeps]:
  "kw I m \<Longrightarrow> (\<And>w. I (kern w) \<Longrightarrow> kw I (f w)) \<Longrightarrow> kw I (bindE m f)"
  "(\<And>d. kw I (h d)) \<Longrightarrow> kw I (bindE (deref hp p) h)"
  by (auto simp: kw_def res_simps)

lemma kr_ends [keeps]:
  "I (kern w) \<Longrightarrow> kr I (Inr (r, w))" "kr I (Inl e)" "kr I m \<Longrightarrow> kr I n \<Longrightarrow> kr I (if b then m else n)"
  by (auto simp: kr_def)

lemma kw_ends [keeps]: "I (kern w) \<Longrightarrow> kw I (Inr w)" "kw I m \<Longrightarrow> kw I n \<Longrightarrow> kw I (if b then m else n)"
  by (auto simp: kw_def)

lemma kw_driver_state [keeps]:
  "I (kern w) \<Longrightarrow> kw I (release r w)" "I (kern w) \<Longrightarrow> kw I (upd_kdev p f w)"
  by (auto simp: kw_def release_def upd_kdev_def res_simps split: if_splits)

lemma kw_kfree [keeps]: "I (kern w) \<Longrightarrow> kw I (kfree p w)"
  unfolding kfree_def by (intro keeps) simp_all

lemma kw_clean [keeps]: "I (kern w) \<Longrightarrow> kw I (pciemu_dev_clean dev w)"
  unfolding pciemu_dev_clean_def iounmap_if_def by (intro keeps)

lemma kr_unwind [keeps]:
  "I (kern w) \<Longrightarrow> kr I (err_pciemu_alloc err w)" "I (kern w) \<Longrightarrow> kr I (err_pci_enable dev err w)"
  "I (kern w) \<Longrightarrow> kr I (err_dma_set_mask dev pd err w)" "I (kern w) \<Longrightarrow> kr I (err_req_region dev pd err w)"
  "I (kern w) \<Longrightarrow> kr I (err_dev_init dev pd err w)" "I (kern w) \<Longrightarrow> kr I (err_alloc_chrdev dev pd err w)"
  "I (kern w) \<Longrightarrow> kr I (err_cdev_add dev pd err w)" "I (kern w) \<Longrightarrow> kr I (err_device_create dev pd err w)"
  "I (kern w) \<Longrightarrow> kr I (err_irq_enable dev pd err w)"
  unfolding err_pciemu_alloc_def err_pci_enable_def err_dma_set_mask_def err_req_region_def err_dev_init_def
    err_alloc_chrdev_def err_cdev_add_def err_device_create_def err_irq_enable_def
  by (intro keeps; assumption)+

lemmas kernel_calls = Let_def case_prod_unfold

lemma map_bar_keeps:
  "probe_keeps K I \<Longrightarrow> I (kern w) \<Longrightarrow> I (kern (snd (map_bar K pd n w)))"
  by (simp add: map_bar_def kernel_calls probe_keeps_def)

lemma dev_init_keeps:
  "probe_keeps K I \<Longrightarrow> I (kern w) \<Longrightarrow> kr I (pciemu_dev_init K dev pd w)"
  unfolding pciemu_dev_init_def kernel_calls by (intro keeps) (simp_all add: map_bar_keeps)

lemma request_vector_keeps:
  "probe_keeps K I \<Longrightarrow> I (kern w) \<Longrightarrow> kr I (request_vector K dev d w)"
  unfolding request_vector_def kernel_calls by (intro keeps) (simp_all add: probe_keeps_def)

lemma irq_enable_keeps:
  assumes "probe_keeps K I" and "I (kern w)"
  shows "kr I (pciemu_irq_enable K dev w)"
  unfolding pciemu_irq_enable_def pciemu_irq_enable_msi_def pciemu_irq_enable_msix_def irq_enable_kind_def kernel_calls
  by (intro keeps request_vector_keeps[OF assms(1)]) (use assms in \<open>simp_all add: probe_keeps_def\<close>)

lemma probe_irq_keeps:
  "probe_keeps K I \<Longrightarrow> I (kern w) \<Longrightarrow> kr I (probe_irq K dev pd w)"
  unfolding probe_irq_def mutex_init_def kernel_calls
  by (intro keeps irq_enable_keeps) simp_all

lemma probe_chrdev_keeps:
  assumes "probe_keeps K I" and "I (kern w)"
  shows "kr I (probe_chrdev K dev pd w)"
  unfolding probe_chrdev_def kernel_calls
  by (intro keeps probe_irq_keeps[OF assms(1)]) (use assms in \<open>simp_all add: probe_keeps_def\<close>)

lemma probe_keeps_state:
  assumes k: "probe_keeps K I" and "I (kern w)"
  shows "kr I (pciemu_probe K (Some (dev, c)) pd w)"
  unfolding pciemu_probe_def kernel_calls option.case prod.case fst_conv snd_conv
  by (intro keeps probe_chrdev_keeps[OF k] dev_init_keeps[OF k]) (use assms in \<open>simp_all add: probe_keeps_def\<close>)

section \<open>Power-on\<close>

text \<open>A device that has just been realised: idle, its buffer cleared, its registers as \<open>malloc\<close> left them.\<close>

lemma realised_holds:
  assumes "heap_ok x0" and "pdevs x0 dev = Some d" and "backend d = NULL" and m: "malloc_ok x0 (Some (adev, c))"
    and init: "pciemu_device_init q (Some (adev, c)) dev errp x0 = Inr x"
  shows "dev_holds dev adev (regs c) (replicate 4096 0) (x\<lparr>machine := m'\<rparr>)"
proof -
  obtain x' where "pciemu_device_init q (Some (adev, c)) dev errp x0 = Inr x'" "linked dev adev x'"
    "adevs x' = (adevs x0)(adev \<mapsto> c\<lparr>parent := dev, dma := fresh_engine (dma c)\<rparr>)"
    by (rule init_linked[OF assms(1-4)])
  with init show ?thesis by (simp add: dev_holds_def fresh_engine_eq[OF m])
qed

text \<open>
  C2. The system works from power-on. QEMU realises the device, the guest boots, and the driver's probe
  of the device returns 0; then, if the machine behaves as documented at the addresses the probe has
  obtained, the invariant of the whole stack holds (driver ready, device idle, interrupt and registers
  where the driver expects them), so the refinement of the abstract device applies from there on. The stored
  integer is 0 at first; the registers show what the emulator's heap contained.
\<close>

theorem boot_establishes_stack:
  assumes heap: "heap_ok x0" "pdevs x0 dev = Some d" "backend d = NULL" "malloc_ok x0 (Some (adev, c))"
    and init: "pciemu_device_init q (Some (adev, c)) dev errp x0 = Inr x"
    and boot: "get (kern w0) = x\<lparr>machine := m\<rparr>" "probe_keeps K (\<lambda>k. \<exists>m. get k = x\<lparr>machine := m\<rparr>)"
    and probe: "probeable K pd" "fresh p cont w0" "pciemu_probe K (Some (p, cont)) pd w0 = Inr (0, w)"
    and env: "\<And>ob. kdevs w p = Some ob \<Longrightarrow> platform K get q dev (mmio (regbar ob)) (irq_num (dev_irq ob)) bus ram"
      "guest_ram q ram is_ram" "ioctl_from K \<noteq> ioctl_to K" "bar_mapped P get q dev virt"
  shows "\<exists>base n. user_inv K P get q dev adev p base n bus ram is_ram virt w \<and>
    user_abs get adev ram w = \<lparr>u_regs = regs c, u_int = [0, 0, 0, 0], u_ram = ram (machine (get (kern w)))\<rparr>"
proof -
  have "probed p pd w0 w" using probe_result[OF probe(1,2)] probe(3) by auto
  then obtain ob where ob: "kdevs w p = Some ob" "mtx (dev_dma ob) = Mutex_unlocked"
    "mmio_ack_irq (dev_irq ob) = mmio (regbar ob) + PCIEMU_HW_IRQ_DMA_ACK_ADDR"
    by (auto simp: probed_def)
  from probe(2) ob have rdy: "drv_ready p (mmio (regbar ob)) (irq_num (dev_irq ob)) w"
    by (simp add: drv_ready_def fresh_def)
  have "\<exists>m. get (kern w) = x\<lparr>machine := m\<rparr>"
    using probe_keeps_state[OF boot(2), of w0 p cont pd] boot(1) probe(3) by (auto simp: kr_def)
  then have dev: "dev_holds dev adev (regs c) (replicate 4096 0) (get (kern w))"
    using realised_holds[OF heap init] by auto
  have "slice 0 4 (replicate 4096 (0 :: u8)) = [0, 0, 0, 0]" by (simp add: slice_def numeral_eq_Suc)
  with user_abs_holds[where get = get and w = w and ram = ram, OF dev] rdy dev env(1)[OF ob(1)] env(2-4) show ?thesis
    by (auto simp: user_inv_def)
qed

section \<open>A concrete boot\<close>

definition bare_world :: "sample world" where
  "bare_world = (sample_world 3)\<lparr>pdevs := [16 \<mapsto> zero_device], adevs := Map.empty\<rparr>"

definition bare_malloc :: AURORADevice where
  "bare_malloc = sample_adev\<lparr>regs := [9, 9, 9, 9]\<rparr>"

lemma bare_world_ok: "heap_ok bare_world" "pdevs bare_world 16 = Some zero_device" "backend zero_device = NULL"
  "malloc_ok bare_world (Some (32, bare_malloc))"
  by (auto simp: heap_ok_def bare_world_def bare_malloc_def zero_device_def wf_irq_def malloc_ok_def sample_adev_def
      sample_engine_def hw_defs split: if_splits)

definition boot_world :: "sample world \<Rightarrow> sample world kworld" where
  "boot_world x = \<lparr>kern = x, kdevs = Map.empty, drvdata = (\<lambda>_. NULL), held = {#R_class, R_driver#}\<rparr>"

lemma sample_probe_keeps: "probe_keeps sample_kernel I"
  by (simp add: probe_keeps_def sample_kernel_def plain_kernel_def)

lemma sample_probeable: "probeable sample_kernel 8" "fresh 64 blank_dev (boot_world x)"
  by (simp_all add: probeable_def has_vectors_def fresh_def sample_kernel_def plain_kernel_def boot_world_def
      blank_dev_def zero_bar_def hw_defs)

lemma sample_probe:
  "\<exists>w ob. pciemu_probe sample_kernel (Some (64, blank_dev)) 8 (boot_world x) = Inr (0, w) \<and> kdevs w 64 = Some ob \<and>
     mmio (regbar ob) = 0x9000 \<and> irq_num (dev_irq ob) = 30"
  by (simp add: pciemu_probe_def sample_kernel_def plain_kernel_def Let_def hw_defs pciemu_dev_init_def map_bar_def
      probe_chrdev_def probe_irq_def pciemu_irq_enable_def pciemu_irq_enable_msix_def irq_enable_kind_def
      request_vector_def mutex_init_def)

theorem boot_establishes_stack_witness:
  "\<exists>x w base n. pciemu_device_init sample_qemu (Some (32, bare_malloc)) 16 0 bare_world = Inr x \<and>
     pciemu_probe sample_kernel (Some (64, blank_dev)) 8 (boot_world x) = Inr (0, w) \<and>
     user_inv sample_kernel sample_process (\<lambda>k. k) sample_qemu 16 32 64 base n (\<lambda>page. of_nat (4096 * page))
       s_ram (\<lambda>_. True) 0x40000000 w \<and>
     u_regs (user_abs (\<lambda>k. k) 32 s_ram w) = [9, 9, 9, 9]"
proof -
  obtain x where x: "pciemu_device_init sample_qemu (Some (32, bare_malloc)) 16 0 bare_world = Inr x"
    by (rule init_linked[OF bare_world_ok])
  obtain w ob where w: "pciemu_probe sample_kernel (Some (64, blank_dev)) 8 (boot_world x) = Inr (0, w)"
    "kdevs w 64 = Some ob" "mmio (regbar ob) = 0x9000" "irq_num (dev_irq ob) = 30"
    using sample_probe by blast
  have k: "kern (boot_world x) = x\<lparr>machine := machine x\<rparr>" by (simp add: boot_world_def)
  have "platform sample_kernel (\<lambda>k. k) sample_qemu 16 (mmio (regbar ob')) (irq_num (dev_irq ob'))
      (\<lambda>page. of_nat (4096 * page)) s_ram" if "kdevs w 64 = Some ob'" for ob'
    using that w(2-4) sample_platform by simp
  from boot_establishes_stack[OF bare_world_ok x k sample_probe_keeps sample_probeable w(1) this
      sample_guest_ram sample_kernel_page(3) sample_bar_mapped] x w(1)
  show ?thesis by (fastforce simp: bare_malloc_def)
qed

end
