(* ===== verification/Drv_Threads.thy ===== *)
theory Drv_Threads
  imports Drv_Module Interfaces
begin

text \<open>
  Several callers of the ioctl at the same time, and interrupts at any moment. The steps of the
  system call are cut where another thread or the interrupt handler can come in between: the
  pinning of the page, the read of \<open>dma.page\<close> for the call, the lock, the set-up of the structure, the mapping,
  each register write, the wait, and the unlock.
\<close>

section \<open>Threads\<close>

text \<open>
  Where a thread stands; the arguments are its local variables. \<open>At_program d h n i\<close> has done the first
  \<open>i\<close> register writes of its transfer.
\<close>

datatype thread_pc =
    Outside
  | At_pin dma_data_direction u64
  | At_call dma_data_direction u64
  | At_lock dma_data_direction ptr u64 u64
  | At_init dma_data_direction ptr u64 u64
  | At_map dma_data_direction ptr
  | At_program dma_data_direction u64 u64 nat
  | At_wait
  | At_unlock
  | Returned int

definition enter_pc :: "'k kernel \<Rightarrow> u32 \<Rightarrow> u64 \<Rightarrow> thread_pc" where
  "enter_pc K request vaddr =
     (if request = ioctl_to K then At_pin DMA_TO_DEVICE vaddr
      else if request = ioctl_from K then At_pin DMA_FROM_DEVICE vaddr
      else Returned (- ENOTTY))"

text \<open>
  The mapping of the page and the test of its result.
\<close>

definition map_step :: "'k kernel \<Rightarrow> ptr \<Rightarrow> dma_data_direction \<Rightarrow> ptr \<Rightarrow> 'k kworld \<Rightarrow> (thread_pc \<times> 'k kworld) res" where
  "map_step K dev drctn page w =
     bindE (deref (kdevs w) dev) (\<lambda>d.
       let (handle, k) = dma_map_page K (pdev d) page (dma_offset (dev_dma d)) (dma_len (dev_dma d))
                           (direction (dev_dma d)) (kern w)
       in bindE (upd_kdev dev (dma_fields (\<lambda>x. x\<lparr>dma_handle := handle\<rparr>)) (w\<lparr>kern := k\<rparr>)) (\<lambda>w.
            Inr (if dma_mapping_error K (pdev d) handle (kern w) then At_unlock
                 else At_program drctn handle (dma_len (dev_dma d)) 0, w)))"

text \<open>
  One step of a thread: \<open>None\<close> when it cannot move (the lock is taken, the transfer is not complete, or
  it is not in the ioctl), otherwise its next position, the register writes of the step, and the state.
\<close>

definition thread_step :: "'k kernel \<Rightarrow> ptr \<Rightarrow> thread_pc \<Rightarrow> 'k kworld
    \<Rightarrow> (thread_pc \<times> (u64 \<times> u32) list \<times> 'k kworld) res option" where
  "thread_step K dev pc w =
     (case pc of
        Outside \<Rightarrow> None
      | At_pin drctn vaddr \<Rightarrow>
          Some (bindE (pin_user_page K dev vaddr w) (\<lambda>(pinned, w).
            Inr (if pinned = 1 then At_call drctn vaddr else Returned 0, [], w)))
      | At_call drctn vaddr \<Rightarrow>
          Some (bindE (deref (kdevs w) dev) (\<lambda>d.
            Inr (At_lock drctn (dma_page (dev_dma d)) (ioctl_ofs K vaddr) (ioctl_len K vaddr), [], w)))
      | At_lock drctn page ofs n \<Rightarrow>
          (case mutex_lock dev w of
             Inl e \<Rightarrow> if e = Deadlock then None else Some (Inl e)
           | Inr w \<Rightarrow> Some (Inr (At_init drctn page ofs n, [], w)))
      | At_init drctn page ofs n \<Rightarrow>
          Some (bindE (upd_kdev dev (dma_fields (pciemu_dma_struct_init ofs n drctn)) w) (\<lambda>w.
            Inr (At_map drctn page, [], w)))
      | At_map drctn page \<Rightarrow> Some (bindE (map_step K dev drctn page w) (\<lambda>(pc, w). Inr (pc, [], w)))
      | At_program drctn handle n i \<Rightarrow>
          (if i < length (transfer_program drctn handle n) then
             let (off, v) = transfer_program drctn handle n ! i
             in Some (bindE (deref (kdevs w) dev) (\<lambda>d.
                bindE (do_iowrite32 K v (mmio (regbar d) + off) w) (\<lambda>w.
                  Inr (At_program drctn handle n (Suc i), [(off, v)], w))))
           else Some (Inr (At_wait, [], w)))
      | At_wait \<Rightarrow>
          (case deref (kdevs w) dev of
             Inl e \<Rightarrow> Some (Inl e)
           | Inr d \<Rightarrow> if completion_done (dev_dma d) then Some (Inr (At_unlock, [], w)) else None)
      | At_unlock \<Rightarrow> Some (bindE (mutex_unlock dev w) (\<lambda>w. Inr (Returned 0, [], w)))
      | Returned r \<Rightarrow> None)"

text \<open>The interrupt: the handler runs to its end.\<close>

definition irq_step :: "'k kernel \<Rightarrow> ptr \<Rightarrow> 'k kworld \<Rightarrow> 'k kworld res option" where
  "irq_step K dev w =
     (case deref (kdevs w) dev of
        Inl e \<Rightarrow> Some (Inl e)
      | Inr d \<Rightarrow> map_option (\<lambda>k. pciemu_irq_handler K dev (w\<lparr>kern := k\<rparr>)) (take_irq K (irq_num (dev_irq d)) (kern w)))"

section \<open>Interleaving\<close>

text \<open>\<open>wlog\<close> is a history variable: the register writes so far, with the thread that made them.\<close>

record 'k dstate =
  dw :: "'k kworld"
  pcs :: "nat \<Rightarrow> thread_pc"
  wlog :: "(nat \<times> u64 \<times> u32) list"

inductive drv_step :: "'k kernel \<Rightarrow> ptr \<Rightarrow> 'k dstate \<Rightarrow> 'k dstate \<Rightarrow> bool"
  for K :: "'k kernel" and dev :: ptr where
  enter: "pcs s t = Outside \<Longrightarrow> drv_step K dev s (s\<lparr>pcs := (pcs s)(t := enter_pc K request vaddr)\<rparr>)"
| thread: "thread_step K dev (pcs s t) (dw s) = Some (Inr (pc, ws, w)) \<Longrightarrow>
    drv_step K dev s (s\<lparr>dw := w, pcs := (pcs s)(t := pc), wlog := wlog s @ map (Pair t) ws\<rparr>)"
| interrupt: "irq_step K dev (dw s) = Some (Inr w) \<Longrightarrow> drv_step K dev s (s\<lparr>dw := w\<rparr>)"
| leave: "pcs s t = Returned r \<Longrightarrow> drv_step K dev s (s\<lparr>pcs := (pcs s)(t := Outside)\<rparr>)"

inductive_cases drv_stepE: "drv_step K dev s s'"

definition mutex_of :: "ptr \<Rightarrow> 'k kworld \<Rightarrow> mutex option" where
  "mutex_of dev w = map_option (\<lambda>d. mtx (dev_dma d)) (kdevs w dev)"

definition drv_start :: "ptr \<Rightarrow> 'k dstate \<Rightarrow> bool" where
  "drv_start dev s \<longleftrightarrow> dev \<noteq> NULL \<and> mutex_of dev (dw s) = Some Mutex_unlocked \<and> (\<forall>t. pcs s t = Outside) \<and>
     wlog s = []"

section \<open>The lock\<close>

fun critical :: "thread_pc \<Rightarrow> bool" where
  "critical (At_init drctn page ofs n) = True"
| "critical (At_map drctn page) = True"
| "critical (At_program drctn handle n i) = True"
| "critical At_wait = True"
| "critical At_unlock = True"
| "critical _ = False"

fun busy :: "thread_pc \<Rightarrow> bool" where
  "busy Outside = False"
| "busy (Returned r) = False"
| "busy _ = True"

lemma critical_busy: "critical pc \<Longrightarrow> busy pc"
  by (cases pc) simp_all

lemma step_busy: "thread_step K dev pc w = Some r \<Longrightarrow> busy pc"
  by (cases pc) (simp_all add: thread_step_def)

lemma upd_kdev_mutex:
  "upd_kdev dev f w = Inr w' \<Longrightarrow> (\<And>d. mtx (dev_dma (f d)) = mtx (dev_dma d)) \<Longrightarrow> mutex_of dev w' = mutex_of dev w"
  by (auto simp: upd_kdev_def mutex_of_def deref_def res_simps split: if_splits option.splits)

lemma upd_kdev_mutex_set:
  "upd_kdev dev (dma_fields (\<lambda>x. x\<lparr>mtx := m\<rparr>)) w = Inr w' \<Longrightarrow> mutex_of dev w' = Some m"
  by (auto simp: upd_kdev_def mutex_of_def deref_def res_simps split: if_splits option.splits)

lemma mutex_of_kern [simp]: "mutex_of dev (w\<lparr>kern := k\<rparr>) = mutex_of dev w"
  by (simp add: mutex_of_def)

lemma pin_mutex: "pin_user_page K dev va w = Inr (r, w') \<Longrightarrow> mutex_of dev w' = mutex_of dev w"
  by (auto simp: pin_user_page_def Let_def res_simps case_prod_unfold split: option.splits dest!: upd_kdev_mutex)

lemma iowrite_mutex: "do_iowrite32 K v a w = Inr w' \<Longrightarrow> mutex_of dev w' = mutex_of dev w"
  by (auto simp: do_iowrite32_def res_simps)

lemma handler_mutex: "pciemu_irq_handler K dev w = Inr w' \<Longrightarrow> mutex_of dev w' = mutex_of dev w"
  by (auto simp: pciemu_irq_handler_def Let_def res_simps dest!: upd_kdev_mutex iowrite_mutex[where dev = dev])

lemma irq_step_mutex: "irq_step K dev w = Some (Inr w') \<Longrightarrow> mutex_of dev w' = mutex_of dev w"
  by (auto simp: irq_step_def split: sum.splits dest!: handler_mutex)

lemma map_step_result:
  "map_step K dev drctn page w = Inr (pc, w') \<Longrightarrow> mutex_of dev w' = mutex_of dev w \<and>
     (pc = At_unlock \<or> (\<exists>handle n. pc = At_program drctn handle n 0))"
  by (auto simp: map_step_def Let_def res_simps case_prod_unfold split: if_splits dest!: upd_kdev_mutex)

lemma lock_mutex:
  assumes "mutex_lock dev w = Inr w'"
  shows "mutex_of dev w = Some Mutex_unlocked" and "mutex_of dev w' = Some Mutex_locked"
proof -
  from assms obtain d where d: "dev \<noteq> NULL" "kdevs w dev = Some d"
    by (auto simp: mutex_lock_def res_simps)
  with assms have "mtx (dev_dma d) = Mutex_unlocked" "w' = w\<lparr>kdevs := (kdevs w)(dev \<mapsto> dma_fields (\<lambda>x. x\<lparr>mtx := Mutex_locked\<rparr>) d)\<rparr>"
    by (cases "mtx (dev_dma d)"; simp add: mutex_lock_def)+
  with d show "mutex_of dev w = Some Mutex_unlocked" "mutex_of dev w' = Some Mutex_locked"
    by (simp_all add: mutex_of_def)
qed

text \<open>A step keeps the lock, takes it, or gives it back; the position of the thread tells which.\<close>

lemma thread_step_mutex:
  assumes "thread_step K dev pc w = Some (Inr (pc', ws, w'))"
  shows "critical pc' = critical pc \<and> mutex_of dev w' = mutex_of dev w \<or>
    \<not> critical pc \<and> critical pc' \<and> mutex_of dev w = Some Mutex_unlocked \<and> mutex_of dev w' = Some Mutex_locked \<or>
    critical pc \<and> \<not> critical pc' \<and> mutex_of dev w' = Some Mutex_unlocked"
proof (cases pc)
  case (At_lock drctn page ofs n)
  with assms have "mutex_lock dev w = Inr w'" "pc' = At_init drctn page ofs n"
    by (auto simp: thread_step_def split: sum.splits if_splits)
  with lock_mutex[of dev w w'] At_lock show ?thesis by simp
next
  case At_unlock
  with assms have "mutex_unlock dev w = Inr w'" "pc' = Returned 0"
    by (auto simp: thread_step_def res_simps)
  with At_unlock show ?thesis by (auto simp: mutex_unlock_def dest: upd_kdev_mutex_set)
qed (use assms in \<open>auto simp: thread_step_def res_simps case_prod_unfold Let_def pciemu_dma_struct_init_def
       split: if_splits sum.splits dest: pin_mutex upd_kdev_mutex iowrite_mutex map_step_result\<close>)

text \<open>The register writes of a step.\<close>

lemma thread_step_writes:
  assumes "thread_step K dev pc w = Some (Inr (pc', ws, w'))"
  shows "(\<exists>drctn handle n i. pc = At_program drctn handle n i \<and> i < 5 \<and>
      pc' = At_program drctn handle n (Suc i) \<and> ws = [transfer_program drctn handle n ! i]) \<or>
    ws = [] \<and> ((\<exists>drctn handle n i. pc = At_program drctn handle n i \<and> 5 \<le> i \<and> pc' = At_wait) \<or>
      (\<forall>drctn handle n i. pc \<noteq> At_program drctn handle n i) \<and>
      (\<forall>drctn handle n i. pc' = At_program drctn handle n i \<longrightarrow> i = 0 \<and> critical pc))"
  using assms
  by (cases pc) (auto simp: thread_step_def res_simps case_prod_unfold Let_def
      split: if_splits sum.splits dest: map_step_result)

section \<open>Invariants\<close>

text \<open>The mutex is locked exactly when one thread is between its lock and its unlock.\<close>

definition lock_inv :: "ptr \<Rightarrow> 'k dstate \<Rightarrow> bool" where
  "lock_inv dev s \<longleftrightarrow> dev \<noteq> NULL \<and>
     (mutex_of dev (dw s) = Some Mutex_unlocked \<and> (\<forall>t. \<not> critical (pcs s t)) \<or>
      mutex_of dev (dw s) = Some Mutex_locked \<and> (\<exists>t. critical (pcs s t) \<and> (\<forall>u. critical (pcs s u) \<longrightarrow> u = t)))"

text \<open>The programs of whole transfers, one after the other, each by one thread.\<close>

definition blocks :: "(nat \<times> dma_data_direction \<times> u64 \<times> u64) list \<Rightarrow> (nat \<times> u64 \<times> u32) list" where
  "blocks ps = concat (map (\<lambda>(t, drctn, handle, n). map (Pair t) (transfer_program drctn handle n)) ps)"

definition log_inv :: "'k dstate \<Rightarrow> bool" where
  "log_inv s \<longleftrightarrow> (\<exists>ps part. wlog s = blocks ps @ part \<and>
     (\<forall>t drctn handle n i. pcs s t = At_program drctn handle n i \<longrightarrow>
        i \<le> 5 \<and> part = map (Pair t) (take i (transfer_program drctn handle n))) \<and>
     ((\<forall>t drctn handle n i. pcs s t \<noteq> At_program drctn handle n i) \<longrightarrow> part = []))"

lemma enter_pc_cases: "\<not> critical (enter_pc K request vaddr)" "enter_pc K request vaddr \<noteq> At_program drctn handle n i"
  by (simp_all add: enter_pc_def)

lemma lock_inv_idle_change:
  assumes "lock_inv dev s" and "\<not> critical (pcs s t)" and "\<not> critical pc"
  shows "lock_inv dev (s\<lparr>pcs := (pcs s)(t := pc)\<rparr>)"
  using assms by (auto simp: lock_inv_def)

lemma lock_inv_step:
  assumes inv: "lock_inv dev s" and step: "drv_step K dev s s'"
  shows "lock_inv dev s'"
  using step
proof cases
  case (enter t request vaddr)
  then show ?thesis using lock_inv_idle_change[OF inv, of t] by (simp add: enter_pc_cases)
next
  case (thread t pc ws w)
  from thread_step_mutex[OF thread(2)] inv show ?thesis
    unfolding thread(1) lock_inv_def by auto
next
  case (interrupt w)
  with inv show ?thesis by (simp add: lock_inv_def irq_step_mutex[OF interrupt(2)])
next
  case (leave t r)
  then show ?thesis using lock_inv_idle_change[OF inv, of t Outside] by simp
qed

lemma critical_unique: "lock_inv dev s \<Longrightarrow> critical (pcs s t) \<Longrightarrow> critical (pcs s u) \<Longrightarrow> u = t"
  by (auto simp: lock_inv_def)

lemma log_inv_idle_change:
  assumes "log_inv s" and "\<And>drctn handle n i. pcs s t \<noteq> At_program drctn handle n i"
    and "\<And>drctn handle n i. pc \<noteq> At_program drctn handle n i" and "wlog s' = wlog s" and "pcs s' = (pcs s)(t := pc)"
  shows "log_inv s'"
proof -
  from assms(2,3) have "pcs s' u = At_program a b c i \<longleftrightarrow> pcs s u = At_program a b c i" for u a b c i
    using assms(5) by simp
  with assms(1,4) show ?thesis by (simp add: log_inv_def)
qed

lemma log_inv_write:
  assumes log: "log_inv s" and lock: "lock_inv dev s" and pc: "pcs s t = At_program drctn handle n i" "i < 5"
    and s': "wlog s' = wlog s @ [(t, transfer_program drctn handle n ! i)]"
      "pcs s' = (pcs s)(t := At_program drctn handle n (Suc i))"
  shows "log_inv s'"
proof -
  from log pc obtain ps where ps: "wlog s = blocks ps @ map (Pair t) (take i (transfer_program drctn handle n))"
    unfolding log_inv_def by metis
  have "u = t" if "pcs s u = At_program a b c j" for u a b c j
    using critical_unique[OF lock, of t u] pc that by simp
  then have only: "pcs s' u = At_program a b c j \<longleftrightarrow> u = t \<and> a = drctn \<and> b = handle \<and> c = n \<and> j = Suc i"
    for u a b c j using s'(2) by auto
  have "wlog s' = blocks ps @ map (Pair t) (take (Suc i) (transfer_program drctn handle n))"
    using ps s'(1) pc(2) by (simp add: take_Suc_conv_app_nth)
  with pc(2) show ?thesis unfolding log_inv_def only by (intro exI[of _ ps]) simp
qed

lemma log_inv_done:
  assumes log: "log_inv s" and lock: "lock_inv dev s" and pc: "pcs s t = At_program drctn handle n i" "5 \<le> i"
    and s': "wlog s' = wlog s" "pcs s' = (pcs s)(t := At_wait)"
  shows "log_inv s'"
proof -
  from log pc obtain ps where ps: "wlog s = blocks ps @ map (Pair t) (take i (transfer_program drctn handle n))"
    unfolding log_inv_def by metis
  have "u = t" if "pcs s u = At_program a b c j" for u a b c j
    using critical_unique[OF lock, of t u] pc that by simp
  then have "pcs s' u \<noteq> At_program a b c j" for u a b c j using s'(2) by auto
  then show ?thesis
    unfolding log_inv_def
    by (intro exI[of _ "ps @ [(t, drctn, handle, n)]"] exI[of _ "[]"]) (use ps s' pc in \<open>simp add: blocks_def\<close>)
qed

lemma log_inv_begin:
  assumes log: "log_inv s" and lock: "lock_inv dev s" and c: "critical (pcs s t)"
    and no: "\<And>drctn handle n i. pcs s t \<noteq> At_program drctn handle n i"
    and s': "wlog s' = wlog s" "pcs s' = (pcs s)(t := At_program drctn handle n 0)"
  shows "log_inv s'"
proof -
  have "pcs s u \<noteq> At_program a b c j" for u a b c j
    using critical_unique[OF lock c, of u] no by (cases "pcs s u") auto
  then obtain ps where "wlog s = blocks ps" using log unfolding log_inv_def by auto
  with s' \<open>\<And>u a b c j. pcs s u \<noteq> At_program a b c j\<close> show ?thesis
    unfolding log_inv_def by (intro exI[of _ ps] exI[of _ "[]"]) auto
qed

lemma log_inv_step:
  assumes log: "log_inv s" and lock: "lock_inv dev s" and step: "drv_step K dev s s'"
  shows "log_inv s'"
  using step
proof cases
  case (enter t request vaddr)
  then show ?thesis by (intro log_inv_idle_change[OF log]) (simp_all add: enter_pc_cases)
next
  case (thread t pc ws w)
  consider (wr) drctn handle n i where "pcs s t = At_program drctn handle n i" "i < 5"
      "pc = At_program drctn handle n (Suc i)" "ws = [transfer_program drctn handle n ! i]"
    | (finish) drctn handle n i where "ws = []" "pcs s t = At_program drctn handle n i" "5 \<le> i" "pc = At_wait"
    | (first) drctn handle n where "ws = []" "critical (pcs s t)" "\<And>a b c j. pcs s t \<noteq> At_program a b c j"
      "pc = At_program drctn handle n 0"
    | (other) "ws = []" "\<And>a b c j. pcs s t \<noteq> At_program a b c j" "\<And>a b c j. pc \<noteq> At_program a b c j"
    using thread_step_writes[OF thread(2)] by metis
  then show ?thesis
  proof cases
    case wr
    then show ?thesis using thread by (intro log_inv_write[OF log lock]) simp_all
  next
    case finish
    then show ?thesis using thread by (intro log_inv_done[OF log lock]) simp_all
  next
    case first
    then show ?thesis using thread by (intro log_inv_begin[OF log lock]) simp_all
  next
    case other
    then show ?thesis using thread by (intro log_inv_idle_change[OF log]) simp_all
  qed
next
  case (interrupt w)
  with log show ?thesis by (simp add: log_inv_def)
next
  case (leave t r)
  then show ?thesis by (intro log_inv_idle_change[OF log]) simp_all
qed

interpretation threads: invariant_system "drv_start dev" "drv_step K dev" "\<lambda>s. lock_inv dev s \<and> log_inv s"
  for K :: "'k kernel" and dev
proof
  show "lock_inv dev s \<and> log_inv s" if "drv_start dev s" for s :: "'k dstate"
    using that by (auto simp: drv_start_def lock_inv_def log_inv_def blocks_def intro: exI[of _ "[]"])
  show "lock_inv dev t \<and> log_inv t" if "lock_inv dev s \<and> log_inv s" "drv_step K dev s t" for s t
    using that lock_inv_step log_inv_step by blast
qed

section \<open>Schedules\<close>

text \<open>A given interleaving can be executed.\<close>

datatype event = Enter nat u32 u64 | Thread nat | Interrupt | Leave nat

definition exec :: "'k kernel \<Rightarrow> ptr \<Rightarrow> event \<Rightarrow> 'k dstate \<Rightarrow> 'k dstate option" where
  "exec K dev e s =
     (case e of
        Enter t request vaddr \<Rightarrow>
          (if pcs s t = Outside then Some (s\<lparr>pcs := (pcs s)(t := enter_pc K request vaddr)\<rparr>) else None)
      | Thread t \<Rightarrow>
          (case thread_step K dev (pcs s t) (dw s) of
             Some (Inr (pc, ws, w)) \<Rightarrow>
               Some (s\<lparr>dw := w, pcs := (pcs s)(t := pc), wlog := wlog s @ map (Pair t) ws\<rparr>)
           | _ \<Rightarrow> None)
      | Interrupt \<Rightarrow> (case irq_step K dev (dw s) of Some (Inr w) \<Rightarrow> Some (s\<lparr>dw := w\<rparr>) | _ \<Rightarrow> None)
      | Leave t \<Rightarrow> (case pcs s t of Returned r \<Rightarrow> Some (s\<lparr>pcs := (pcs s)(t := Outside)\<rparr>) | _ \<Rightarrow> None))"

fun execs :: "'k kernel \<Rightarrow> ptr \<Rightarrow> event list \<Rightarrow> 'k dstate \<Rightarrow> 'k dstate option" where
  "execs K dev [] s = Some s"
| "execs K dev (e # es) s = (case exec K dev e s of None \<Rightarrow> None | Some s' \<Rightarrow> execs K dev es s')"

lemma exec_step: "exec K dev e s = Some s' \<Longrightarrow> drv_step K dev s s'"
  by (auto simp: exec_def split: event.splits if_splits option.splits sum.splits thread_pc.splits intro: drv_step.intros)

lemma execs_reach: "execs K dev es s = Some s' \<Longrightarrow> (drv_step K dev)\<^sup>*\<^sup>* s s'"
  by (induction es arbitrary: s)
    (auto split: option.splits intro: converse_rtranclp_into_rtranclp dest!: exec_step)

section \<open>Progress\<close>

lemma pin_total:
  "dev \<noteq> NULL \<Longrightarrow> kdevs w dev = Some d \<Longrightarrow> \<exists>r w'. pin_user_page K dev va w = Inr (r, w')"
  by (simp add: pin_user_page_def Let_def case_prod_unfold split: option.split)

lemma map_step_total:
  "dev \<noteq> NULL \<Longrightarrow> kdevs w dev = Some d \<Longrightarrow> \<exists>pc w'. map_step K dev drctn page w = Inr (pc, w')"
  by (simp add: map_step_def Let_def case_prod_unfold)

lemma thread_step_outside [simp]: "thread_step K dev Outside w = None"
  by (simp add: thread_step_def)

lemma irq_step_total:
  assumes d: "dev \<noteq> NULL" "kdevs w dev = Some d" and io: "\<And>v a k. \<exists>k'. iowrite32 K v a k = Inr k'"
  shows "irq_step K dev w \<noteq> Some (Inl e)"
proof -
  have "\<exists>w'. pciemu_irq_handler K dev (w\<lparr>kern := k\<rparr>) = Inr w'" for k
  proof -
    obtain k' where "iowrite32 K 1 (mmio_ack_irq (dev_irq d)) (put_page K (dma_page (dev_dma d))
        (dma_unmap_page K (pdev d) (dma_handle (dev_dma d)) (dma_len (dev_dma d)) (direction (dev_dma d)) k)) = Inr k'"
      using io by blast
    with d show ?thesis by (simp add: pciemu_irq_handler_def do_iowrite32_def)
  qed
  then show ?thesis
    using d by (auto simp: irq_step_def) (metis sum.distinct(1))
qed

lemma thread_step_total:
  assumes d: "dev \<noteq> NULL" "kdevs w dev = Some d" and m: "mtx (dev_dma d) \<noteq> Mutex_garbage"
    and io: "\<And>v a k. \<exists>k'. iowrite32 K v a k = Inr k'"
  shows "if pc = Outside \<or> (\<exists>r. pc = Returned r) \<or> pc = At_wait \<and> \<not> completion_done (dev_dma d) \<or>
      (\<exists>a b c e. pc = At_lock a b c e) \<and> mtx (dev_dma d) = Mutex_locked
    then thread_step K dev pc w = None else \<exists>x. thread_step K dev pc w = Some (Inr x)"
proof (cases pc)
  case (At_pin drctn vaddr)
  obtain r w' where "pin_user_page K dev vaddr w = Inr (r, w')" using pin_total[OF d] by blast
  with At_pin show ?thesis by (simp add: thread_step_def)
next
  case (At_lock drctn page ofs n)
  with d m show ?thesis by (cases "mtx (dev_dma d)") (simp_all add: thread_step_def mutex_lock_def)
next
  case (At_map drctn page)
  obtain pc w' where "map_step K dev drctn page w = Inr (pc, w')" using map_step_total[OF d] by blast
  with At_map show ?thesis by (simp add: thread_step_def)
next
  case (At_program drctn handle n i)
  obtain off v where x: "transfer_program drctn handle n ! i = (off, v)" by fastforce
  obtain k' where "iowrite32 K v (mmio (regbar d) + off) (kern w) = Inr k'" using io by blast
  with At_program d x show ?thesis by (simp add: thread_step_def do_iowrite32_def)
qed (use d in \<open>simp_all add: thread_step_def mutex_unlock_def\<close>)

text \<open>
  Under the invariant no caller faults; and while one is inside, one can move, unless the holder of the lock
  waits for the interrupt.
\<close>

lemma callers_progress:
  assumes inv: "lock_inv dev s" and io: "\<And>v a k. \<exists>k'. iowrite32 K v a k = Inr k'"
  shows "thread_step K dev (pcs s t) (dw s) \<noteq> Some (Inl e)"
    and "busy (pcs s t) \<Longrightarrow> (\<exists>u x. thread_step K dev (pcs s u) (dw s) = Some (Inr x)) \<or>
      (\<exists>u d. pcs s u = At_wait \<and> kdevs (dw s) dev = Some d \<and> \<not> completion_done (dev_dma d))"
proof -
  from inv obtain d where d: "dev \<noteq> NULL" "kdevs (dw s) dev = Some d" "mtx (dev_dma d) \<noteq> Mutex_garbage"
    by (auto simp: lock_inv_def mutex_of_def)
  note total = thread_step_total[OF d io]
  show "thread_step K dev (pcs s t) (dw s) \<noteq> Some (Inl e)"
    using total[of "pcs s t"] by (metis option.distinct(1) option.inject sum.distinct(1))
  have "\<exists>u x. thread_step K dev (pcs s u) (dw s) = Some (Inr x)"
    if b: "busy (pcs s t)" and no: "\<not> (\<exists>u. pcs s u = At_wait \<and> \<not> completion_done (dev_dma d))"
  proof -
    obtain u where u: "busy (pcs s u)" "mtx (dev_dma d) = Mutex_locked \<Longrightarrow> critical (pcs s u)"
      using b inv d(2) critical_busy by (auto simp: lock_inv_def mutex_of_def)
    with total[of "pcs s u"] no have "\<exists>x. thread_step K dev (pcs s u) (dw s) = Some (Inr x)"
      by (cases "pcs s u") (auto split: if_splits)
    then show ?thesis by blast
  qed
  then show "(\<exists>u x. thread_step K dev (pcs s u) (dw s) = Some (Inr x)) \<or>
      (\<exists>u d. pcs s u = At_wait \<and> kdevs (dw s) dev = Some d \<and> \<not> completion_done (dev_dma d))" if "busy (pcs s t)"
    using that d(2) by blast
qed

text \<open>Whole register programs, and at the end at most one unfinished.\<close>

lemma log_inv_whole:
  assumes "log_inv s"
  shows "\<exists>ps t drctn handle n i. wlog s = blocks ps @ map (Pair t) (take i (transfer_program drctn handle n))"
proof (cases "\<exists>t drctn handle n i. pcs s t = At_program drctn handle n i")
  case True
  with assms show ?thesis unfolding log_inv_def by metis
next
  case False
  with assms obtain ps where "wlog s = blocks ps" unfolding log_inv_def by auto
  then have "wlog s = blocks ps @ map (Pair 0) (take 0 (transfer_program DMA_TO_DEVICE 0 0))" by simp
  then show ?thesis by blast
qed

end
