(* ===== verification/Drv_Schedules.thy ===== *)
theory Drv_Schedules
  imports Drv_Threads
begin

text \<open>
  Particular interleavings of the driver: a caller that is alone, where the steps of
  \<open>Drv_Threads\<close> give exactly the system call of \<open>Drv_Module\<close>, and two callers whose steps overlap before
  the lock.
\<close>

section \<open>One caller\<close>

text \<open>A thread at a position, after the register writes \<open>ws\<close>.\<close>

definition at :: "'k dstate \<Rightarrow> nat \<Rightarrow> thread_pc \<Rightarrow> 'k kworld \<Rightarrow> (u64 \<times> u32) list \<Rightarrow> 'k dstate" where
  "at s t pc w ws = s\<lparr>dw := w, pcs := (pcs s)(t := pc), wlog := wlog s @ map (Pair t) ws\<rparr>"

lemma at_simps [simp]:
  "dw (at s t pc w ws) = w" "pcs (at s t pc w ws) u = (if u = t then pc else pcs s u)"
  "wlog (at s t pc w ws) = wlog s @ map (Pair t) ws"
  "(at s t pc w ws)\<lparr>dw := w'\<rparr> = at s t pc w' ws"
  by (cases s; simp add: at_def)+

lemma at_step:
  assumes "thread_step K dev pc w = Some (Inr (pc', ws', w'))"
  shows "drv_step K dev (at s t pc w ws) (at s t pc' w' (ws @ ws'))"
proof -
  have "thread_step K dev (pcs (at s t pc w ws) t) (dw (at s t pc w ws)) = Some (Inr (pc', ws', w'))"
    using assms by simp
  from drv_step.thread[OF this] show ?thesis by (cases s) (simp add: at_def)
qed

lemma at_quiet_step:
  "thread_step K dev pc w = Some (Inr (pc', [], w')) \<Longrightarrow> drv_step K dev (at s t pc w ws) (at s t pc' w' ws)"
  using at_step[of K dev pc w pc' "[]" w'] by simp

lemma iowrites_kdevs: "iowrites K base xs w = Inr w' \<Longrightarrow> kdevs w' = kdevs w"
  by (induction xs arbitrary: w) (auto simp: iowrites_def res_simps do_iowrite32_def)

lemma program_run:
  assumes d: "dev \<noteq> NULL" "kdevs w dev = Some d"
    and run: "iowrites K (mmio (regbar d)) (drop i (transfer_program drctn handle n)) w = Inr w'" and i: "i \<le> 5"
  shows "(drv_step K dev)\<^sup>*\<^sup>* (at s t (At_program drctn handle n i) w ws)
    (at s t At_wait w' (ws @ drop i (transfer_program drctn handle n)))"
  using i d(2) run
proof (induction i arbitrary: w ws rule: inc_induct)
  case base
  then have "thread_step K dev (At_program drctn handle n 5) w = Some (Inr (At_wait, [], w'))"
    by (simp add: thread_step_def iowrites_def)
  from at_quiet_step[OF this] show ?case by auto
next
  case (step i)
  obtain off v where x: "transfer_program drctn handle n ! i = (off, v)" by fastforce
  have dr: "drop i (transfer_program drctn handle n) = (off, v) # drop (Suc i) (transfer_program drctn handle n)"
    using step.hyps(2) x by (metis Cons_nth_drop_Suc length_transfer_program)
  with step.prems(2) obtain w1 where w1: "do_iowrite32 K v (mmio (regbar d) + off) w = Inr w1"
    "iowrites K (mmio (regbar d)) (drop (Suc i) (transfer_program drctn handle n)) w1 = Inr w'"
    by (auto simp: iowrites_def res_simps)
  then have "kdevs w1 dev = Some d" using step.prems(1) by (auto simp: do_iowrite32_def res_simps)
  note rest = step.IH[OF this w1(2)]
  have "thread_step K dev (At_program drctn handle n i) w =
      Some (Inr (At_program drctn handle n (Suc i), [(off, v)], w1))"
    using step.hyps(2) x w1(1) d(1) step.prems(1) by (simp add: thread_step_def)
  from converse_rtranclp_into_rtranclp[OF at_step[OF this] rest] show ?case
    by (simp add: dr)
qed

lemma wait_run:
  assumes "wait_for_completion K dev w = Inr w'"
  shows "(drv_step K dev)\<^sup>*\<^sup>* (at s t At_wait w ws) (at s t At_unlock w' ws)"
proof -
  from assms obtain d where d: "dev \<noteq> NULL" "kdevs w dev = Some d"
    by (auto simp: wait_for_completion_def res_simps)
  show ?thesis
  proof (cases "completion_done (dev_dma d)")
    case True
    with d assms have "w' = w" "thread_step K dev At_wait w = Some (Inr (At_unlock, [], w))"
      by (simp_all add: wait_for_completion_def thread_step_def)
    with at_quiet_step[OF this(2)] show ?thesis by auto
  next
    case False
    with d assms obtain k where k: "take_irq K (irq_num (dev_irq d)) (kern w) = Some k"
      and h: "pciemu_irq_handler K dev (w\<lparr>kern := k\<rparr>) = Inr w'"
      and done': "bindE (deref (kdevs w') dev) (\<lambda>d. if completion_done (dev_dma d) then Inr w' else Inl Deadlock) = Inr w'"
      by (auto simp: wait_for_completion_def res_simps split: option.splits if_splits)
    have "irq_step K dev w = Some (Inr w')" using d k h by (simp add: irq_step_def)
    with drv_step.interrupt[of K dev "at s t At_wait w ws" w']
    have 1: "drv_step K dev (at s t At_wait w ws) (at s t At_wait w' ws)" by simp
    from done' have "thread_step K dev At_wait w' = Some (Inr (At_unlock, [], w'))"
      by (auto simp: thread_step_def res_simps split: if_splits)
    from at_quiet_step[OF this] 1 show ?thesis by (meson converse_rtranclp_into_rtranclp r_into_rtranclp)
  qed
qed

lemma quiet_run:
  assumes "thread_step K dev pc w = Some (Inr (pc', [], w'))" and "(drv_step K dev)\<^sup>*\<^sup>* (at s t pc' w' ws) x"
  shows "(drv_step K dev)\<^sup>*\<^sup>* (at s t pc w ws) x"
  by (rule converse_rtranclp_into_rtranclp[OF at_quiet_step[OF assms(1)] assms(2)])

lemma unlock_run:
  assumes "mutex_unlock dev w = Inr w'"
  shows "(drv_step K dev)\<^sup>*\<^sup>* (at s t At_unlock w ws) (at s t (Returned 0) w' ws)"
  by (rule quiet_run[OF _ rtranclp.rtrancl_refl]) (simp add: thread_step_def assms)

text \<open>After the page has been read for the call, the steps up to the return are the whole transfer.\<close>

lemma transfer_run:
  assumes d: "kdevs w dev = Some d"
    and run: "dma_transfer K dev (dma_page (dev_dma d)) (ioctl_ofs K va) (ioctl_len K va) drctn
      (transfer_program drctn) w = Inr (r, w')"
  shows "\<exists>ws. (drv_step K dev)\<^sup>*\<^sup>* (at s t (At_call drctn va) w []) (at s t (Returned 0) w' ws)"
proof -
  let ?pg = "dma_page (dev_dma d)" let ?o = "ioctl_ofs K va" let ?n = "ioctl_len K va"
  from run d have nn: "dev \<noteq> NULL" by (auto simp: dma_transfer_def res_simps)
  with run d have m: "mtx (dev_dma d) = Mutex_unlocked"
    by (cases "mtx (dev_dma d)") (simp_all add: dma_transfer_def mutex_lock_def)
  let ?d1 = "dma_fields (\<lambda>x. x\<lparr>mtx := Mutex_locked\<rparr>) d" let ?w1 = "w\<lparr>kdevs := (kdevs w)(dev \<mapsto> ?d1)\<rparr>"
  let ?d2 = "dma_fields (pciemu_dma_struct_init ?o ?n drctn) ?d1" let ?w2 = "w\<lparr>kdevs := (kdevs w)(dev \<mapsto> ?d2)\<rparr>"
  obtain h k where map: "dma_map_page K (pdev d) ?pg ?o ?n drctn (kern w) = (h, k)"
    by (cases "dma_map_page K (pdev d) ?pg ?o ?n drctn (kern w)")
  let ?d3 = "dma_fields (\<lambda>x. x\<lparr>dma_handle := h\<rparr>) ?d2"
  let ?w3 = "w\<lparr>kern := k, kdevs := (kdevs w)(dev \<mapsto> ?d3)\<rparr>"
  have lock: "mutex_lock dev w = Inr ?w1" using nn d m by (simp add: mutex_lock_def)
  have steps: "thread_step K dev (At_call drctn va) w = Some (Inr (At_lock drctn ?pg ?o ?n, [], w))"
    "thread_step K dev (At_lock drctn ?pg ?o ?n) w = Some (Inr (At_init drctn ?pg ?o ?n, [], ?w1))"
    "thread_step K dev (At_init drctn ?pg ?o ?n) ?w1 = Some (Inr (At_map drctn ?pg, [], ?w2))"
    "thread_step K dev (At_map drctn ?pg) ?w2 =
      Some (Inr (if dma_mapping_error K (pdev d) h k then At_unlock else At_program drctn h ?n 0, [], ?w3))"
    using nn d lock map
    by (simp_all add: thread_step_def map_step_def pciemu_dma_struct_init_def)
  have "\<exists>ws. (drv_step K dev)\<^sup>*\<^sup>*
      (at s t (if dma_mapping_error K (pdev d) h k then At_unlock else At_program drctn h ?n 0) ?w3 [])
      (at s t (Returned 0) w' ws)"
  proof (cases "dma_mapping_error K (pdev d) h k")
    case True
    with run nn d lock map have "mutex_unlock dev ?w3 = Inr w'"
      by (auto simp: dma_transfer_def pciemu_dma_struct_init_def res_simps)
    from unlock_run[OF this, of K s t "[]"] True show ?thesis by auto
  next
    case False
    with run nn d lock map obtain w4 w5 where w4: "iowrites K (mmio (regbar d)) (transfer_program drctn h ?n) ?w3 = Inr w4"
      "wait_for_completion K dev w4 = Inr w5" "mutex_unlock dev w5 = Inr w'"
      by (auto simp: dma_transfer_def pciemu_dma_struct_init_def res_simps)
    have "(drv_step K dev)\<^sup>*\<^sup>* (at s t (At_program drctn h ?n 0) ?w3 []) (at s t At_wait w4 (transfer_program drctn h ?n))"
      using program_run[OF nn, of ?w3 ?d3 K 0 drctn h ?n w4 s t "[]"] w4(1) by simp
    also have "(drv_step K dev)\<^sup>*\<^sup>* \<dots> (at s t At_unlock w5 (transfer_program drctn h ?n))"
      by (rule wait_run[OF w4(2)])
    also have "(drv_step K dev)\<^sup>*\<^sup>* \<dots> (at s t (Returned 0) w' (transfer_program drctn h ?n))"
      by (rule unlock_run[OF w4(3)])
    finally show ?thesis using False by auto
  qed
  then obtain ws where "(drv_step K dev)\<^sup>*\<^sup>*
      (at s t (if dma_mapping_error K (pdev d) h k then At_unlock else At_program drctn h ?n 0) ?w3 [])
      (at s t (Returned 0) w' ws)" by blast
  then have "(drv_step K dev)\<^sup>*\<^sup>* (at s t (At_call drctn va) w []) (at s t (Returned 0) w' ws)"
    by (rule quiet_run[OF steps(1) quiet_run[OF steps(2) quiet_run[OF steps(3) quiet_run[OF steps(4)]]]])
  then show ?thesis by blast
qed

section \<open>A kernel that keeps account of pages\<close>

text \<open>
  Its state records the pages pinned, mapped for DMA and released, in order, and whether an interrupt is
  pending, which ringing the doorbell causes.
\<close>

record page_log =
  pins :: "ptr list"
  maps :: "ptr list"
  puts :: "ptr list"
  pending :: bool

definition log_kernel :: "page_log kernel" where
  "log_kernel = (plain_kernel 0xD 0x9000)
     \<lparr>iowrite32 := (\<lambda>v a k. Inr (if a = 0x9000 + PCIEMU_HW_REG_DMA_DOORBELL_RING then k\<lparr>pending := True\<rparr> else k)),
      take_irq := (\<lambda>n k. if pending k then Some (k\<lparr>pending := False\<rparr>) else None),
      get_user_pages_fast := (\<lambda>a n f k. (1, Some (unat (drop_bit 12 a)), k\<lparr>pins := pins k @ [unat (drop_bit 12 a)]\<rparr>)),
      dma_map_page := (\<lambda>pd page ofs n dir k. (of_nat (4096 * page) + ofs, k\<lparr>maps := maps k @ [page]\<rparr>)),
      put_page := (\<lambda>p k. k\<lparr>puts := puts k @ [p]\<rparr>)\<rparr>"

definition log_dev :: pciemu_dev where
  "log_dev = blank_dev\<lparr>regbar := zero_bar\<lparr>bar_len := 0x8000000, mmio := 0x9000\<rparr>,
     dev_irq := \<lparr>mmio_ack_irq = 0x9028, irq_num = 30\<rparr>, dev_dma := (dev_dma blank_dev)\<lparr>mtx := Mutex_unlocked\<rparr>\<rparr>"

definition log_world :: "page_log \<Rightarrow> pciemu_dev \<Rightarrow> page_log kworld" where
  "log_world k d = \<lparr>kern = k, kdevs = [64 \<mapsto> d], drvdata = (\<lambda>_. 64), held = {#}\<rparr>"

definition log_state :: "page_log dstate" where
  "log_state = \<lparr>dw = log_world \<lparr>pins = [], maps = [], puts = [], pending = False\<rparr> log_dev,
     pcs = (\<lambda>_. Outside), wlog = []\<rparr>"

lemma log_state_start: "drv_start 64 log_state"
  by (simp add: drv_start_def log_state_def log_world_def log_dev_def mutex_of_def)

lemma log_kernel_simps:
  "iowrite32 log_kernel v a k = Inr (if a = 0x9000 + PCIEMU_HW_REG_DMA_DOORBELL_RING then k\<lparr>pending := True\<rparr> else k)"
  "take_irq log_kernel n k = (if pending k then Some (k\<lparr>pending := False\<rparr>) else None)"
  "get_user_pages_fast log_kernel a m f k = (1, Some (unat (drop_bit 12 a)), k\<lparr>pins := pins k @ [unat (drop_bit 12 a)]\<rparr>)"
  "dma_map_page log_kernel pd page ofs l dir k = (of_nat (4096 * page) + ofs, k\<lparr>maps := maps k @ [page]\<rparr>)"
  "put_page log_kernel p k = k\<lparr>puts := puts k @ [p]\<rparr>" "dma_mapping_error log_kernel pd h k = False"
  "dma_unmap_page log_kernel pd h l dir k = k" "ioctl_to log_kernel = 1" "ioctl_from log_kernel = 2"
  by (simp_all add: log_kernel_def plain_kernel_def)

lemma log_world_simps [simp]:
  "kern (log_world k d) = k" "kdevs (log_world k d) 64 = Some d"
  "(log_world k d)\<lparr>kern := k'\<rparr> = log_world k' d"
  "(log_world k d)\<lparr>kdevs := (kdevs (log_world k d))(64 \<mapsto> d')\<rparr> = log_world k d'"
  by (simp_all add: log_world_def)

lemma log_upd: "upd_kdev 64 f (log_world k d) = Inr (log_world k (f d))"
  by (subst upd_kdev_live[of _ _ d]) simp_all

lemma log_iowrites:
  "iowrites log_kernel 0x9000 (transfer_program drctn h n) (log_world k d) = Inr (log_world (k\<lparr>pending := True\<rparr>) d)"
  by (cases drctn)
    (simp_all add: iowrites_def do_iowrite32_def transfer_program_def log_kernel_simps hw_defs)

lemma log_handler:
  "mmio_ack_irq (dev_irq d) = 0x9028 \<Longrightarrow> pciemu_irq_handler log_kernel 64 (log_world k d) =
     Inr (log_world (k\<lparr>puts := puts k @ [dma_page (dev_dma d)]\<rparr>) (dma_fields (\<lambda>x. x\<lparr>completion_done := True\<rparr>) d))"
  by (simp add: pciemu_irq_handler_def Let_def do_iowrite32_def log_kernel_simps log_upd hw_defs)

text \<open>A transfer maps the page it is called with, and releases the one that is stored in the device object.\<close>

definition log_ready :: "ptr \<Rightarrow> pciemu_dev \<Rightarrow> bool" where
  "log_ready pg d \<longleftrightarrow> mtx (dev_dma d) = Mutex_unlocked \<and> mmio (regbar d) = 0x9000 \<and>
     mmio_ack_irq (dev_irq d) = 0x9028 \<and> dma_page (dev_dma d) = pg"

lemma log_transfer:
  assumes "log_ready pg d"
  obtains d' where "dma_transfer log_kernel 64 page ofs n drctn (transfer_program drctn) (log_world k d) =
      Inr (0, log_world (k\<lparr>maps := maps k @ [page], pending := False, puts := puts k @ [pg]\<rparr>) d')"
    and "log_ready pg d'"
proof -
  let ?d = "dma_fields (\<lambda>x. x\<lparr>dma_offset := ofs, dma_len := n, direction := drctn,
    dma_handle := 4096 * of_nat page + ofs, completion_done := True, mtx := Mutex_unlocked\<rparr>) d"
  have "dma_transfer log_kernel 64 page ofs n drctn (transfer_program drctn) (log_world k d) =
      Inr (0, log_world (k\<lparr>maps := maps k @ [page], pending := False, puts := puts k @ [pg]\<rparr>) ?d)"
    using assms
    by (simp add: log_ready_def dma_transfer_def mutex_lock_def mutex_unlock_def log_upd log_kernel_simps log_iowrites
        wait_for_completion_def log_handler pciemu_dma_struct_init_def)
  then show thesis by (rule that) (use assms in \<open>simp add: log_ready_def\<close>)
qed

lemma transfer_from:
  assumes "pcs s t = At_call drctn va" and "kdevs (dw s) dev = Some d"
    and "dma_transfer K dev (dma_page (dev_dma d)) (ioctl_ofs K va) (ioctl_len K va) drctn
      (transfer_program drctn) (dw s) = Inr (r, w')"
  shows "\<exists>ws. (drv_step K dev)\<^sup>*\<^sup>* s (at s t (Returned 0) w' ws)"
proof -
  have "at s t (At_call drctn va) (dw s) [] = s" using assms(1) by (cases s) (simp add: at_def fun_upd_idem)
  with transfer_run[OF assms(2,3), of s t] show ?thesis by simp
qed

lemma log_call:
  assumes "pcs s t = At_call drctn va" and "dw s = log_world k d" and "log_ready pg d"
  obtains s' d' where "(drv_step log_kernel 64)\<^sup>*\<^sup>* s s'" and "pcs s' = (pcs s)(t := Returned 0)"
    and "dw s' = log_world (k\<lparr>maps := maps k @ [pg], pending := False, puts := puts k @ [pg]\<rparr>) d'" and "log_ready pg d'"
proof -
  obtain d' where t: "dma_transfer log_kernel 64 pg (ioctl_ofs log_kernel va) (ioctl_len log_kernel va) drctn
      (transfer_program drctn) (dw s) =
      Inr (0, log_world (k\<lparr>maps := maps k @ [pg], pending := False, puts := puts k @ [pg]\<rparr>) d')" and d': "log_ready pg d'"
    unfolding assms(2) by (rule log_transfer[OF assms(3)])
  have "kdevs (dw s) 64 = Some d" "dma_page (dev_dma d) = pg" using assms(2,3) by (simp_all add: log_ready_def)
  with transfer_from[OF assms(1), of 64 d log_kernel] t obtain ws where
    "(drv_step log_kernel 64)\<^sup>*\<^sup>* s
       (at s t (Returned 0) (log_world (k\<lparr>maps := maps k @ [pg], pending := False, puts := puts k @ [pg]\<rparr>) d') ws)"
    by blast
  then show thesis by (rule that) (use d' in \<open>auto simp: fun_eq_iff\<close>)
qed

section \<open>Two callers\<close>

text \<open>Both callers pin their page before either reads it back.\<close>

definition two_pins :: "event list" where
  "two_pins = [Enter 0 1 0x5008, Enter 1 1 0x7010, Thread 0, Thread 1]"

definition pinned_dev :: pciemu_dev where
  "pinned_dev = dma_fields (\<lambda>x. x\<lparr>dma_page := 7\<rparr>) log_dev"

lemma two_pins_run:
  obtains s where "execs log_kernel 64 two_pins log_state = Some s"
    and "dw s = log_world \<lparr>pins = [5, 7], maps = [], puts = [], pending = False\<rparr> pinned_dev"
    and "pcs s 0 = At_call DMA_TO_DEVICE 0x5008" and "pcs s 1 = At_call DMA_TO_DEVICE 0x7010"
proof -
  have pin: "pin_user_page log_kernel 64 va (log_world k d) =
      Inr (1, log_world (k\<lparr>pins := pins k @ [unat (drop_bit 12 va)]\<rparr>) (dma_fields (\<lambda>x. x\<lparr>dma_page := unat (drop_bit 12 va)\<rparr>) d))"
    for va k d by (simp add: pin_user_page_def log_kernel_simps log_upd)
  have "execs log_kernel 64 two_pins log_state =
      Some \<lparr>dw = log_world \<lparr>pins = [5, 7], maps = [], puts = [], pending = False\<rparr> pinned_dev,
        pcs = (\<lambda>_. Outside)(0 := At_call DMA_TO_DEVICE 0x5008, 1 := At_call DMA_TO_DEVICE 0x7010), wlog = []\<rparr>"
    by (simp add: two_pins_def exec_def log_state_def enter_pc_def thread_step_def pin log_kernel_simps pinned_dev_def
        fun_upd_twist)
  then show thesis by (rule that) simp_all
qed

text \<open>
  C33. The page a caller has pinned is kept in the device object before the lock is taken, so two callers
  can swap their pages. There is an interleaving in which thread 0 sends the integer at \<open>0x5008\<close> (page 5) and
  thread 1 the one at \<open>0x7010\<close> (page 7), both ioctls return 0, but page 7 is mapped for both transfers: thread 0
  has sent memory of the other caller. Page 7 is released twice and page 5, which stays pinned, never.
\<close>

theorem page_race:
  "\<exists>s. (drv_step log_kernel 64)\<^sup>*\<^sup>* log_state s \<and> pcs s 0 = Returned 0 \<and> pcs s 1 = Returned 0 \<and>
     pins (kern (dw s)) = [5, 7] \<and> maps (kern (dw s)) = [7, 7] \<and> puts (kern (dw s)) = [7, 7]"
proof -
  obtain s1 where e: "execs log_kernel 64 two_pins log_state = Some s1" and
    w1: "dw s1 = log_world \<lparr>pins = [5, 7], maps = [], puts = [], pending = False\<rparr> pinned_dev" and
    p1: "pcs s1 0 = At_call DMA_TO_DEVICE 0x5008" "pcs s1 1 = At_call DMA_TO_DEVICE 0x7010"
    by (rule two_pins_run)
  have "log_ready 7 pinned_dev" by (simp add: log_ready_def pinned_dev_def log_dev_def)
  then obtain s2 d2 where s2: "(drv_step log_kernel 64)\<^sup>*\<^sup>* s1 s2" "pcs s2 = (pcs s1)(0 := Returned 0)"
    "dw s2 = log_world \<lparr>pins = [5, 7], maps = [7], puts = [7], pending = False\<rparr> d2" "log_ready 7 d2"
    by (rule log_call[OF p1(1) w1]) auto
  have "pcs s2 1 = At_call DMA_TO_DEVICE 0x7010" using s2(2) p1(2) by simp
  then obtain s3 d3 where s3: "(drv_step log_kernel 64)\<^sup>*\<^sup>* s2 s3" "pcs s3 = (pcs s2)(1 := Returned 0)"
    "dw s3 = log_world \<lparr>pins = [5, 7], maps = [7, 7], puts = [7, 7], pending = False\<rparr> d3"
    by (rule log_call[OF _ s2(3,4)]) auto
  have "(drv_step log_kernel 64)\<^sup>*\<^sup>* log_state s1" by (rule execs_reach[OF e])
  with s2(1,2) s3 show ?thesis by (intro exI[of _ s3]) simp
qed

section \<open>Properties of every interleaving\<close>

text \<open>One device with its callers, the case of a single device of \<open>Drv_Fleet\<close>.\<close>

lemma threads_exclusive_progress:
  assumes "drv_start dev s0" and "(drv_step K dev)\<^sup>*\<^sup>* s0 s"
    and io: "\<And>v a k. \<exists>k'. iowrite32 K v a k = Inr k'"
  shows "(\<forall>t u. critical (pcs s t) \<and> critical (pcs s u) \<longrightarrow> t = u) \<and>
    (\<forall>t e. thread_step K dev (pcs s t) (dw s) \<noteq> Some (Inl e)) \<and>
    ((\<forall>t. \<not> busy (pcs s t)) \<or> (\<exists>t x. thread_step K dev (pcs s t) (dw s) = Some (Inr x)) \<or>
     (\<exists>t d. pcs s t = At_wait \<and> kdevs (dw s) dev = Some d \<and> \<not> completion_done (dev_dma d)))"
proof -
  have inv: "lock_inv dev s" using threads.reachable_inv[OF assms(1,2)] by blast
  show ?thesis using callers_progress[OF inv io] critical_unique[OF inv] by blast
qed

lemma register_programs_whole:
  assumes "drv_start dev s0" and "(drv_step K dev)\<^sup>*\<^sup>* s0 s"
  shows "\<exists>ps t drctn handle n i. wlog s = blocks ps @ map (Pair t) (take i (transfer_program drctn handle n))"
  using threads.reachable_inv[OF assms] log_inv_whole by blast

text \<open>
  C11. The steps of the threads are those of the system call: whenever the sequential \<open>pciemu_ioctl\<close> returns
  from some state, there is an interleaving in which a thread that enters the ioctl in that state, with
  the interrupt handler running where the call waits for it, comes out with the same result and the same
  state, whatever positions the other threads are in.
\<close>

theorem ioctl_is_interleaving:
  assumes "pcs s t = Outside" and run: "pciemu_ioctl K dev request va (dw s) = Inr (r, w')"
  shows "\<exists>ws. (drv_step K dev)\<^sup>*\<^sup>* s (at s t (Returned r) w' ws)"
proof -
  have "s\<lparr>pcs := (pcs s)(t := pc)\<rparr> = at s t pc (dw s) []" for pc by (cases s) (simp add: at_def)
  then have enter: "drv_step K dev s (at s t (enter_pc K request va) (dw s) [])"
    using drv_step.enter[OF assms(1), of K dev request va] by simp
  have pin: "\<exists>ws. (drv_step K dev)\<^sup>*\<^sup>* s (at s t (Returned r) w' ws)"
    if pc: "enter_pc K request va = At_pin drctn va"
      and eq: "bindE (pin_user_page K dev va (dw s)) (\<lambda>(pinned, w).
          if pinned = 1 then bindE (deref (kdevs w) dev) (\<lambda>d. bindE (dma_transfer K dev (dma_page (dev_dma d))
            (ioctl_ofs K va) (ioctl_len K va) drctn (transfer_program drctn) w) (\<lambda>(_, w). Inr (0, w)))
          else Inr (0, w)) = Inr (r, w')" for drctn
  proof -
    from eq obtain pinned w1 where p: "pin_user_page K dev va (dw s) = Inr (pinned, w1)"
      by (auto simp: res_simps)
    have step: "thread_step K dev (At_pin drctn va) (dw s) =
        Some (Inr (if pinned = 1 then At_call drctn va else Returned 0, [], w1))"
      using p by (simp add: thread_step_def)
    have "\<exists>ws. (drv_step K dev)\<^sup>*\<^sup>* (at s t (if pinned = 1 then At_call drctn va else Returned 0) w1 [])
        (at s t (Returned r) w' ws)"
    proof (cases "pinned = 1")
      case True
      with eq p obtain d r' where "kdevs w1 dev = Some d" "r = 0" "dma_transfer K dev (dma_page (dev_dma d))
          (ioctl_ofs K va) (ioctl_len K va) drctn (transfer_program drctn) w1 = Inr (r', w')"
        by (auto simp: res_simps)
      with transfer_run True show ?thesis by simp
    next
      case False
      with eq p show ?thesis by auto
    qed
    then show ?thesis
      using enter quiet_run[OF step] unfolding pc by (meson converse_rtranclp_into_rtranclp)
  qed
  from run obtain d where d: "deref (kdevs (dw s)) dev = Inr d" by (auto simp: pciemu_ioctl_def res_simps)
  consider "request = ioctl_to K" | "request \<noteq> ioctl_to K" "request = ioctl_from K"
    | "request \<noteq> ioctl_to K" "request \<noteq> ioctl_from K" by blast
  then show ?thesis
  proof cases
    case 1
    with run show ?thesis
      by (intro pin[of DMA_TO_DEVICE])
        (simp_all add: enter_pc_def pciemu_ioctl_def Let_def d pciemu_dma_from_host_to_device_def cong: if_cong)
  next
    case 2
    with run show ?thesis
      by (intro pin[of DMA_FROM_DEVICE])
        (simp_all add: enter_pc_def pciemu_ioctl_def Let_def d pciemu_dma_from_device_to_host_def cong: if_cong)
  next
    case 3
    with run enter show ?thesis
      by (auto simp: enter_pc_def pciemu_ioctl_def Let_def d)
  qed
qed

theorem ioctl_is_interleaving_witness:
  "\<exists>w' ws. (drv_step log_kernel 64)\<^sup>*\<^sup>* log_state (at log_state 3 (Returned 0) w' ws)"
proof -
  let ?d = "dma_fields (\<lambda>x. x\<lparr>dma_page := 5\<rparr>) log_dev"
  have d: "log_ready 5 ?d" by (simp add: log_ready_def log_dev_def)
  have pin: "pin_user_page log_kernel 64 0x5008 (dw log_state) =
      Inr (1, log_world \<lparr>pins = [5], maps = [], puts = [], pending = False\<rparr> ?d)"
    by (simp add: pin_user_page_def log_kernel_simps log_upd log_state_def)
  obtain w' where "dma_transfer log_kernel 64 5 (ioctl_ofs log_kernel 0x5008) (ioctl_len log_kernel 0x5008) DMA_TO_DEVICE
      (transfer_program DMA_TO_DEVICE) (log_world \<lparr>pins = [5], maps = [], puts = [], pending = False\<rparr> ?d) = Inr (0, w')"
    by (rule log_transfer[OF d])
  with pin have "pciemu_ioctl log_kernel 64 1 0x5008 (dw log_state) = Inr (0, w')"
    by (simp add: pciemu_ioctl_def Let_def log_kernel_simps log_state_def pciemu_dma_from_host_to_device_def)
  moreover have "pcs log_state 3 = Outside" by (simp add: log_state_def)
  ultimately show ?thesis using ioctl_is_interleaving[of log_state 3 log_kernel 64 1 "0x5008" 0 w'] by blast
qed

end
