(* ===== verification/Drv_Fleet.thy ===== *)
theory Drv_Fleet
  imports Drv_Lifecycle Drv_Threads
begin

text \<open>
  The whole driver at work: devices are bound and unbound (\<open>Drv_Lifecycle\<close>) while any number of callers
  are inside the ioctl of any of them and interrupts arrive at any moment (\<open>Drv_Threads\<close>). The state of
  one device is a projection of the state of all; the invariants of one device are lifted through it.
\<close>

section \<open>Steps\<close>

text \<open>
  Each caller has the device whose file it uses and its position; \<open>flog\<close> is a history variable, the
  register writes to each device so far.
\<close>

record 'k fstate =
  drv :: "'k mstate"
  users :: "nat \<Rightarrow> ptr \<times> thread_pc"
  flog :: "ptr \<Rightarrow> (nat \<times> u64 \<times> u32) list"

abbreviation fw :: "'k fstate \<Rightarrow> 'k kworld" where
  "fw s \<equiv> mw (drv s)"

text \<open>
  A step of the module may be any of those of \<open>Drv_Lifecycle\<close>, except that it does not take a device away
  from a caller that is inside.
\<close>

inductive fleet_step :: "'k kernel \<Rightarrow> 'k fstate \<Rightarrow> 'k fstate \<Rightarrow> bool" for K :: "'k kernel" where
  module: "mod_step K (drv s) m \<Longrightarrow> (\<And>t. busy (snd (users s t)) \<Longrightarrow> fst (users s t) \<in> ran (bound m)) \<Longrightarrow>
    fleet_step K s (s\<lparr>drv := m\<rparr>)"
| enter: "snd (users s t) = Outside \<Longrightarrow> dev \<in> ran (bound (drv s)) \<Longrightarrow>
    fleet_step K s (s\<lparr>users := (users s)(t := (dev, enter_pc K request vaddr))\<rparr>)"
| caller: "users s t = (dev, pc) \<Longrightarrow> thread_step K dev pc (fw s) = Some (Inr (pc', ws, w)) \<Longrightarrow>
    fleet_step K s (s\<lparr>drv := (drv s)\<lparr>mw := w\<rparr>, users := (users s)(t := (dev, pc')),
      flog := (flog s)(dev := flog s dev @ map (Pair t) ws)\<rparr>)"
| interrupt: "dev \<in> ran (bound (drv s)) \<Longrightarrow> irq_step K dev (fw s) = Some (Inr w) \<Longrightarrow>
    fleet_step K s (s\<lparr>drv := (drv s)\<lparr>mw := w\<rparr>\<rparr>)"
| leave: "users s t = (dev, Returned r) \<Longrightarrow> fleet_step K s (s\<lparr>users := (users s)(t := (dev, Outside))\<rparr>)"

inductive_cases fleet_stepE: "fleet_step K s s'"

definition fleet_start :: "'k fstate \<Rightarrow> bool" where
  "fleet_start s \<longleftrightarrow> mod_start (drv s) \<and> (\<forall>t. snd (users s t) = Outside) \<and> (\<forall>dev. flog s dev = [])"

section \<open>One device among all\<close>

definition view :: "ptr \<Rightarrow> 'k fstate \<Rightarrow> 'k dstate" where
  "view dev s = \<lparr>dw = fw s, pcs = (\<lambda>t. if fst (users s t) = dev then snd (users s t) else Outside), wlog = flog s dev\<rparr>"

lemma view_simps [simp]:
  "dw (view dev s) = fw s" "wlog (view dev s) = flog s dev"
  "pcs (view dev s) t = (if fst (users s t) = dev then snd (users s t) else Outside)"
  by (simp_all add: view_def)

text \<open>A step that works on one device changes nothing but the transfer of that device and the kernel.\<close>

definition dma_only :: "ptr \<Rightarrow> 'k kworld \<Rightarrow> 'k kworld \<Rightarrow> bool" where
  "dma_only dev w w' \<longleftrightarrow> held w' = held w \<and> drvdata w' = drvdata w \<and> (\<forall>p. p \<noteq> dev \<longrightarrow> kdevs w' p = kdevs w p) \<and>
     (\<exists>x. kdevs w' dev = map_option (\<lambda>d. d\<lparr>dev_dma := x\<rparr>) (kdevs w dev))"

named_theorems dma_only_rules \<open>operations that change only the transfer of one device\<close>

lemma dma_only_refl: "dma_only dev w w"
  unfolding dma_only_def
  by (cases "kdevs w dev") (auto intro!: exI[of _ "dev_dma (the (kdevs w dev))"])

lemma dma_only_trans: "dma_only dev u v \<Longrightarrow> dma_only dev v w \<Longrightarrow> dma_only dev u w"
  by (auto simp: dma_only_def option.map_comp comp_def)

lemma dma_only_kern [simp]: "dma_only dev w (v\<lparr>kern := k\<rparr>) = dma_only dev w v"
  "dma_only dev (w\<lparr>kern := k\<rparr>) v = dma_only dev w v"
  by (simp_all add: dma_only_def)

lemma upd_dma_only [dma_only_rules]: "upd_kdev dev (dma_fields f) w = Inr w' \<Longrightarrow> dma_only dev w w'"
  by (auto simp: upd_kdev_def dma_only_def res_simps)

lemma iowrite_dma_only [dma_only_rules]: "do_iowrite32 K v a w = Inr w' \<Longrightarrow> dma_only dev w w'"
  by (auto simp: do_iowrite32_def res_simps dma_only_refl)

lemma pin_dma_only [dma_only_rules]: "pin_user_page K dev va w = Inr (r, w') \<Longrightarrow> dma_only dev w w'"
  by (auto simp: pin_user_page_def Let_def res_simps case_prod_unfold dma_only_refl split: option.splits
      dest!: upd_dma_only)

lemma lock_dma_only [dma_only_rules]: "mutex_lock dev w = Inr w' \<Longrightarrow> dma_only dev w w'"
proof -
  assume lock: "mutex_lock dev w = Inr w'"
  then obtain d where "deref (kdevs w) dev = Inr d" by (auto simp: mutex_lock_def res_simps)
  with lock have "upd_kdev dev (dma_fields (\<lambda>x. x\<lparr>mtx := Mutex_locked\<rparr>)) w = Inr w'"
    by (cases "mtx (dev_dma d)") (simp_all add: mutex_lock_def)
  then show ?thesis by (rule upd_dma_only)
qed

lemma unlock_dma_only [dma_only_rules]: "mutex_unlock dev w = Inr w' \<Longrightarrow> dma_only dev w w'"
  by (auto simp: mutex_unlock_def dest: upd_dma_only)

lemma handler_dma_only [dma_only_rules]: "pciemu_irq_handler K dev w = Inr w' \<Longrightarrow> dma_only dev w w'"
  by (auto simp: pciemu_irq_handler_def Let_def res_simps dest!: upd_dma_only iowrite_dma_only[where dev = dev]
      intro: dma_only_trans)

lemma map_dma_only [dma_only_rules]: "map_step K dev drctn page w = Inr (pc, w') \<Longrightarrow> dma_only dev w w'"
  by (auto simp: map_step_def Let_def res_simps case_prod_unfold dest!: upd_dma_only)

lemma thread_dma_only:
  assumes "thread_step K dev pc w = Some (Inr (pc', ws, w'))"
  shows "dma_only dev w w'"
  using assms
  by (cases pc) (auto simp: thread_step_def res_simps case_prod_unfold Let_def dma_only_refl
      split: if_splits sum.splits dest: dma_only_rules)

lemma irq_dma_only: "irq_step K dev w = Some (Inr w') \<Longrightarrow> dma_only dev w w'"
  by (auto simp: irq_step_def split: sum.splits dest: handler_dma_only)

lemma mutex_other: "dma_only dev w w' \<Longrightarrow> e \<noteq> dev \<Longrightarrow> mutex_of e w' = mutex_of e w"
  by (simp add: dma_only_def mutex_of_def)

section \<open>The invariant\<close>

lemma share_dma_only: "dma_only dev w w' \<Longrightarrow> dev_share w' pd e = dev_share w pd e"
  by (cases "e = dev"; cases "kdevs w e") (auto simp: dev_share_def dma_only_def all_held_def)

lemma mod_inv_dma_only:
  assumes inv: "mod_inv m" and d: "dma_only dev (mw m) w"
  shows "mod_inv (m\<lparr>mw := w\<rparr>)"
proof -
  have "account (m\<lparr>mw := w\<rparr>) = account m" by (simp add: account_def share_dma_only[OF d])
  moreover have "dom (kdevs w) = dom (kdevs (mw m))"
  proof -
    have "kdevs w p = None \<longleftrightarrow> kdevs (mw m) p = None" for p
      using d by (cases "p = dev") (auto simp: dma_only_def)
    then show ?thesis by (auto simp: dom_def)
  qed
  moreover have "\<exists>c'. kdevs w e = Some c' \<and> mapped c' \<and>
      mmio_ack_irq (dev_irq c') = mmio (regbar c') + PCIEMU_HW_IRQ_DMA_ACK_ADDR"
    if "kdevs (mw m) e = Some c" "mapped c" "mmio_ack_irq (dev_irq c) = mmio (regbar c) + PCIEMU_HW_IRQ_DMA_ACK_ADDR"
    for e c
    using d that by (cases "e = dev") (auto simp: dma_only_def mapped_def)
  moreover have "held w = held (mw m)" "drvdata w = drvdata (mw m)" using d by (auto simp: dma_only_def)
  ultimately show ?thesis using inv by (fastforce simp: mod_inv_def)
qed

text \<open>What a step of the module means for the devices that are bound after it.\<close>

lemma mod_step_devices:
  assumes step: "mod_step K m m'" and inv: "mod_inv m" and dev: "dev \<in> ran (bound m')"
  shows "dev \<in> ran (bound m) \<and> kdevs (mw m') dev = kdevs (mw m) dev \<or>
    dev \<notin> ran (bound m) \<and> mutex_of dev (mw m') = Some Mutex_unlocked"
  using step
proof cases
  case (load err w)
  with init_result[of K "mw m" err w] dev show ?thesis by simp
next
  case (probe_no_memory pd err w)
  with dev show ?thesis by (simp add: pciemu_probe_def err_pciemu_alloc_def)
next
  case (probe pd e c err w)
  have new: "e \<notin> ran (bound m)" using probe(5) inv by (auto simp: fresh_def mod_inv_def)
  from probe_result[OF probe(4,5)] probe(6)
  have r: "if err = 0 then probed e pd (mw m) w else unprobed e pd (mw m) w" by simp
  show ?thesis
  proof (cases "err = 0")
    case True
    with r obtain d where "kdevs w = (kdevs (mw m))(e \<mapsto> d)" "mtx (dev_dma d) = Mutex_unlocked" by (auto simp: probed_def)
    with True probe(1,3) new dev show ?thesis by (cases "dev = e") (auto simp: mutex_of_def)
  next
    case False
    with r probe(1,5) dev show ?thesis by (auto simp: unprobed_def fresh_def fun_upd_idem)
  qed
next
  case (remove pd e w)
  from inv_unbind[OF inv remove(2)] remove(3) have k: "kdevs w = (kdevs (mw m))(e := None)" by auto
  from remove(1,2) dev obtain q where q: "bound m q = Some dev" "q \<noteq> pd" by (auto simp: ran_def split: if_splits)
  with inv remove(2) have "dev \<noteq> e" by (auto simp: mod_inv_def inj_on_def domI)
  with k q(1) remove(1) show ?thesis by (auto simp: ranI)
next
  case (unload w)
  with exit_result[OF inv unload(2,3)] dev show ?thesis by simp
next
  case (other k)
  with dev show ?thesis by simp
qed

definition fleet_inv :: "'k fstate \<Rightarrow> bool" where
  "fleet_inv s \<longleftrightarrow> mod_inv (drv s) \<and> (\<forall>t. busy (snd (users s t)) \<longrightarrow> fst (users s t) \<in> ran (bound (drv s))) \<and>
     (\<forall>dev \<in> ran (bound (drv s)). lock_inv dev (view dev s)) \<and> (\<forall>dev. log_inv (view dev s))"

lemma inv_same_view:
  assumes "pcs s' = pcs s" and "wlog s' = wlog s"
  shows "mutex_of dev (dw s') = mutex_of dev (dw s) \<Longrightarrow> lock_inv dev s' = lock_inv dev s" and "log_inv s' = log_inv s"
  using assms by (simp_all add: lock_inv_def log_inv_def)

text \<open>A step of one device, seen by all of them.\<close>

lemma fleet_lift:
  assumes inv: "fleet_inv s" and b: "dev \<in> ran (bound (drv s))" and step: "drv_step K dev (view dev s) (view dev s')"
    and m: "drv s' = (drv s)\<lparr>mw := w\<rparr>" and d: "dma_only dev (fw s) w"
    and other: "\<And>e. e \<noteq> dev \<Longrightarrow> pcs (view e s') = pcs (view e s) \<and> flog s' e = flog s e"
    and users: "\<And>t. users s' t = users s t \<or> fst (users s' t) = dev"
  shows "fleet_inv s'"
proof -
  from inv have lock: "lock_inv dev (view dev s)" and log: "log_inv (view dev s)" and mod: "mod_inv (drv s)"
    using b by (auto simp: fleet_inv_def)
  note own = lock_inv_step[OF lock step] log_inv_step[OF log lock step]
  have "lock_inv e (view e s') = lock_inv e (view e s)" "log_inv (view e s') = log_inv (view e s)" if "e \<noteq> dev" for e
    using other[OF that] mutex_other[OF d that] m inv_same_view[of "view e s'" "view e s"] by simp_all
  moreover have bd: "bound (drv s') = bound (drv s)" using m by simp
  ultimately have "\<forall>e \<in> ran (bound (drv s')). lock_inv e (view e s')" "\<forall>e. log_inv (view e s')"
    using own inv unfolding fleet_inv_def by metis+
  moreover have "mod_inv (drv s')" unfolding m by (rule mod_inv_dma_only[OF mod d])
  moreover have "fst (users s' t) \<in> ran (bound (drv s'))" if "busy (snd (users s' t))" for t
    using inv users[of t] b that bd by (auto simp: fleet_inv_def)
  ultimately show ?thesis by (simp add: fleet_inv_def)
qed

lemma fleet_inv_module:
  assumes inv: "fleet_inv s" and step: "mod_step K (drv s) m"
    and keep: "\<And>t. busy (snd (users s t)) \<Longrightarrow> fst (users s t) \<in> ran (bound m)"
  shows "fleet_inv (s\<lparr>drv := m\<rparr>)"
proof -
  let ?s = "s\<lparr>drv := m\<rparr>"
  from inv have mod: "mod_inv (drv s)" by (simp add: fleet_inv_def)
  have m: "mod_inv m" by (rule mod_inv_step[OF step mod])
  have same: "pcs (view dev ?s) = pcs (view dev s)" "wlog (view dev ?s) = wlog (view dev s)" for dev
    by (simp_all add: fun_eq_iff)
  have "lock_inv dev (view dev ?s)" if dev: "dev \<in> ran (bound m)" for dev
    using mod_step_devices[OF step mod dev]
  proof
    assume old: "dev \<in> ran (bound (drv s)) \<and> kdevs (mw m) dev = kdevs (fw s) dev"
    then have "mutex_of dev (dw (view dev ?s)) = mutex_of dev (dw (view dev s))" by (simp add: mutex_of_def)
    from inv_same_view(1)[OF same this] old inv show ?thesis by (simp add: fleet_inv_def)
  next
    assume new: "dev \<notin> ran (bound (drv s)) \<and> mutex_of dev (mw m) = Some Mutex_unlocked"
    then have "\<not> critical (pcs (view dev ?s) t)" for t
      using inv critical_busy[of "snd (users s t)"] by (auto simp: fleet_inv_def)
    moreover have "dev \<noteq> NULL" using m dev by (auto simp: mod_inv_def ran_def)
    ultimately show ?thesis using new by (simp add: lock_inv_def)
  qed
  moreover have "log_inv (view dev ?s)" for dev
    using inv inv_same_view(2)[OF same] by (simp add: fleet_inv_def)
  ultimately show ?thesis using m keep by (simp add: fleet_inv_def)
qed

lemma fleet_inv_leave:
  assumes inv: "fleet_inv s" and t: "users s t = (dev, Returned r)"
  shows "fleet_inv (s\<lparr>users := (users s)(t := (dev, Outside))\<rparr>)"
proof -
  let ?s = "s\<lparr>users := (users s)(t := (dev, Outside))\<rparr>"
  have own: "view dev ?s = (view dev s)\<lparr>pcs := (pcs (view dev s))(t := Outside)\<rparr>"
    by (simp add: view_def fun_eq_iff)
  have other: "view e ?s = view e s" if "e \<noteq> dev" for e
    using that t by (simp add: view_def fun_eq_iff)
  have "lock_inv dev (view dev ?s)" if "dev \<in> ran (bound (drv s))"
    unfolding own using inv that t by (intro lock_inv_idle_change) (auto simp: fleet_inv_def)
  moreover have "log_inv (view dev ?s)"
    by (rule log_inv_idle_change[of "view dev s" t Outside]) (use inv t own in \<open>simp_all add: fleet_inv_def\<close>)
  ultimately show ?thesis
    using inv other by (auto simp: fleet_inv_def) (metis other)+
qed

lemma fleet_inv_step:
  assumes step: "fleet_step K s s'" and inv: "fleet_inv s"
  shows "fleet_inv s'"
  using step
proof cases
  case (module m)
  then show ?thesis using fleet_inv_module[OF inv] by simp
next
  case (enter t dev request vaddr)
  have "view dev s' = (view dev s)\<lparr>pcs := (pcs (view dev s))(t := enter_pc K request vaddr)\<rparr>"
    unfolding enter(1) by (simp add: view_def fun_eq_iff)
  then have "drv_step K dev (view dev s) (view dev s')"
    using enter(2) by (auto intro: drv_step.enter)
  then show ?thesis
    by (rule fleet_lift[OF inv enter(3), where w = "fw s"]) (use enter in \<open>auto simp: dma_only_refl fun_eq_iff\<close>)
next
  case (caller t dev pc pc' ws w)
  have b: "dev \<in> ran (bound (drv s))"
    using inv caller(2) step_busy[OF caller(3)] unfolding fleet_inv_def by (metis fst_conv snd_conv)
  have "view dev s' = (view dev s)\<lparr>dw := w, pcs := (pcs (view dev s))(t := pc'),
      wlog := wlog (view dev s) @ map (Pair t) ws\<rparr>"
    unfolding caller(1) by (simp add: view_def fun_eq_iff)
  moreover have "thread_step K dev (pcs (view dev s) t) (dw (view dev s)) = Some (Inr (pc', ws, w))"
    using caller(2,3) by simp
  ultimately have "drv_step K dev (view dev s) (view dev s')" using drv_step.thread by metis
  then show ?thesis
    by (rule fleet_lift[OF inv b, where w = w])
      (use caller thread_dma_only[OF caller(3)] in \<open>auto simp: fun_eq_iff\<close>)
next
  case (interrupt dev w)
  have "view dev s' = (view dev s)\<lparr>dw := w\<rparr>" unfolding interrupt(1) by (simp add: view_def fun_eq_iff)
  then have "drv_step K dev (view dev s) (view dev s')" using interrupt(3) by (auto intro: drv_step.interrupt)
  then show ?thesis
    by (rule fleet_lift[OF inv interrupt(2), where w = w])
      (use interrupt irq_dma_only[OF interrupt(3)] in \<open>auto simp: fun_eq_iff\<close>)
next
  case (leave t dev r)
  then show ?thesis using fleet_inv_leave[OF inv] by simp
qed

lemma fleet_start_inv: "fleet_start s \<Longrightarrow> fleet_inv s"
  using mod_start_inv[of "drv s"]
  by (auto simp: fleet_start_def fleet_inv_def mod_start_def log_inv_def blocks_def intro!: exI[of _ "[]"])

interpretation fleet: invariant_system fleet_start "fleet_step K" fleet_inv for K
  by unfold_locales (auto intro: fleet_start_inv fleet_inv_step)

section \<open>A driver with two devices\<close>

lemma idle_module_run:
  assumes "(mod_step K)\<^sup>*\<^sup>* (drv s) m" and "\<And>t. \<not> busy (snd (users s t))"
  shows "(fleet_step K)\<^sup>*\<^sup>* s (s\<lparr>drv := m\<rparr>)"
  using assms(1)
proof (induction rule: rtranclp_induct)
  case base
  then show ?case by simp
next
  case (step m m')
  from fleet_step.module[of K "s\<lparr>drv := m\<rparr>" m'] step.hyps(2) assms(2)
  have "fleet_step K (s\<lparr>drv := m\<rparr>) (s\<lparr>drv := m'\<rparr>)" by simp
  with step.IH show ?case by (rule rtranclp.rtrancl_into_rtrancl)
qed

definition empty_fleet :: "unit fstate" where
  "empty_fleet = \<lparr>drv = empty_module, users = (\<lambda>_. (0, Outside)), flog = (\<lambda>_. [])\<rparr>"

lemma empty_fleet_start: "fleet_start empty_fleet"
  by (simp add: fleet_start_def empty_fleet_def empty_module_start)

lemma plain_two_devices:
  obtains m where "(mod_step (plain_kernel 0xD 0x9000))\<^sup>*\<^sup>* empty_module m" and "bound m = [16 \<mapsto> 32, 17 \<mapsto> 64]"
proof -
  let ?K = "plain_kernel 0xD 0x9000 :: unit kernel"
  obtain m where m: "(mod_step ?K)\<^sup>*\<^sup>* empty_module m" "bound m = [16 \<mapsto> 32]"
    using plain_module_run[of "\<lambda>v a. Inr"] unfolding plain_kernel_bus by metis
  from module_life.reachable_inv[OF empty_module_start m(1)] have inv: "mod_inv m" .
  then have "64 \<notin> dom (kdevs (mw m))" and l: "loaded m" using m(2) by (auto simp: mod_inv_def)
  then have "kdevs (mw m) 64 = None" by (simp add: domIff)
  then have f: "fresh 64 blank_dev (mw m)" by (simp add: fresh_def plain_kernel_facts)
  obtain w where w: "pciemu_probe ?K (Some (64, blank_dev)) 17 (mw m) = Inr (0, w)"
    using plain_probe_succeeds[of 64 "\<lambda>v a. Inr" 17 "mw m"] by (auto simp: plain_kernel_bus)
  have "probeable ?K 17" by (simp add: probeable_def plain_kernel_facts hw_defs)
  from mod_step.probe[OF l _ this f w] m(2) have "mod_step ?K m (m\<lparr>mw := w, bound := [16 \<mapsto> 32, 17 \<mapsto> 64]\<rparr>)" by simp
  with m(1) have "(mod_step ?K)\<^sup>*\<^sup>* empty_module (m\<lparr>mw := w, bound := [16 \<mapsto> 32, 17 \<mapsto> 64]\<rparr>)"
    by (rule rtranclp.rtrancl_into_rtrancl)
  then show thesis by (rule that) simp
qed

lemma plain_fleet_run:
  obtains s where "(fleet_step (plain_kernel 0xD 0x9000))\<^sup>*\<^sup>* empty_fleet s" and "bound (drv s) = [16 \<mapsto> 32, 17 \<mapsto> 64]"
    and "users s 0 = (32, At_pin DMA_TO_DEVICE 0x5008)" and "users s 1 = (64, At_pin DMA_FROM_DEVICE 0x7010)"
    and "\<forall>t. \<not> critical (snd (users s t))" and "flog s 64 = []"
proof -
  let ?K = "plain_kernel 0xD 0x9000 :: unit kernel"
  obtain m where m: "(mod_step ?K)\<^sup>*\<^sup>* empty_module m" "bound m = [16 \<mapsto> 32, 17 \<mapsto> 64]" by (rule plain_two_devices)
  have b: "32 \<in> ran (bound m)" "64 \<in> ran (bound m)" by (rule ranI[of _ 16] ranI[of _ 17], simp add: m(2))+
  let ?s0 = "empty_fleet\<lparr>drv := m\<rparr>"
  let ?s1 = "?s0\<lparr>users := (users ?s0)(0 := (32, At_pin DMA_TO_DEVICE 0x5008))\<rparr>"
  let ?s2 = "?s1\<lparr>users := (users ?s1)(1 := (64, At_pin DMA_FROM_DEVICE 0x7010))\<rparr>"
  have "(fleet_step ?K)\<^sup>*\<^sup>* empty_fleet ?s0"
    using m(1) by (intro idle_module_run) (simp_all add: empty_fleet_def)
  also have "fleet_step ?K ?s0 ?s1"
    using fleet_step.enter[of ?s0 0 32 ?K 1 "0x5008"] b
    by (simp add: empty_fleet_def enter_pc_def plain_kernel_facts)
  also have "fleet_step ?K ?s1 ?s2"
    using fleet_step.enter[of ?s1 1 64 ?K 2 "0x7010"] b
    by (simp add: empty_fleet_def enter_pc_def plain_kernel_facts)
  finally show thesis by (rule that) (simp_all add: m(2) empty_fleet_def)
qed

text \<open>A caller of a device at a position, after the register writes \<open>ws\<close>.\<close>

definition moved :: "'k fstate \<Rightarrow> nat \<Rightarrow> ptr \<Rightarrow> thread_pc \<Rightarrow> 'k kworld \<Rightarrow> (u64 \<times> u32) list \<Rightarrow> 'k fstate" where
  "moved s t dev pc w ws = s\<lparr>drv := (drv s)\<lparr>mw := w\<rparr>, users := (users s)(t := (dev, pc)),
     flog := (flog s)(dev := flog s dev @ map (Pair t) ws)\<rparr>"

lemma moved_step:
  assumes "thread_step K dev pc w = Some (Inr (pc', ws', w'))"
  shows "fleet_step K (moved s t dev pc w ws) (moved s t dev pc' w' (ws @ ws'))"
proof -
  have "users (moved s t dev pc w ws) t = (dev, pc)" "fw (moved s t dev pc w ws) = w" by (simp_all add: moved_def)
  from fleet_step.caller[OF this(1)] this(2) assms
  have "fleet_step K (moved s t dev pc w ws) ((moved s t dev pc w ws)\<lparr>drv := (drv (moved s t dev pc w ws))\<lparr>mw := w'\<rparr>,
      users := (users (moved s t dev pc w ws))(t := (dev, pc')),
      flog := (flog (moved s t dev pc w ws))(dev := flog (moved s t dev pc w ws) dev @ map (Pair t) ws')\<rparr>)"
    by simp
  then show ?thesis by (simp add: moved_def)
qed

text \<open>The second caller goes on to its first register write.\<close>

lemma plain_first_write:
  assumes d: "dev \<noteq> NULL" "kdevs w dev = Some d" "mtx (dev_dma d) = Mutex_unlocked"
  defines "K \<equiv> plain_kernel 0xD 0x9000 :: unit kernel" and "a \<equiv> DMA_FROM_DEVICE"
  obtains w1 w2 w3 w4 w5 where
    "thread_step K dev (At_pin a 0x7010) w = Some (Inr (At_call a 0x7010, [], w1))"
    "thread_step K dev (At_call a 0x7010) w1 = Some (Inr (At_lock a 1 0x10 4, [], w1))"
    "thread_step K dev (At_lock a 1 0x10 4) w1 = Some (Inr (At_init a 1 0x10 4, [], w2))"
    "thread_step K dev (At_init a 1 0x10 4) w2 = Some (Inr (At_map a 1, [], w3))"
    "thread_step K dev (At_map a 1) w3 = Some (Inr (At_program a 0x1010 4 0, [], w4))"
    "thread_step K dev (At_program a 0x1010 4 0) w4 =
       Some (Inr (At_program a 0x1010 4 1, [transfer_program a 0x1010 4 ! 0], w5))"
proof -
  let ?d1 = "dma_fields (\<lambda>x. x\<lparr>dma_page := 1\<rparr>) d"
  let ?d2 = "dma_fields (\<lambda>x. x\<lparr>mtx := Mutex_locked\<rparr>) ?d1"
  let ?d3 = "dma_fields (pciemu_dma_struct_init 0x10 4 a) ?d2"
  let ?d4 = "dma_fields (\<lambda>x. x\<lparr>dma_handle := 0x1010\<rparr>) ?d3"
  let ?w = "\<lambda>c. w\<lparr>kern := (), kdevs := (kdevs w)(dev \<mapsto> c)\<rparr>"
  have K: "get_user_pages_fast K va n f k = (1, Some 1, k)" "ioctl_ofs K 0x7010 = 0x10" "ioctl_len K 0x7010 = 4"
    "dma_map_page K pd pg ofs l dir k = (0x1000 + ofs, k)" "dma_mapping_error K pd h k = False"
    "iowrite32 K v ad k = Inr k" for va n f k pd pg ofs l dir h v ad
    by (simp_all add: K_def plain_kernel_def ioctl_len_def ioctl_ofs_def PAGE_MASK_def PAGE_SIZE_def)
  have p: "transfer_program a 0x1010 4 ! 0 = (fst (transfer_program a 0x1010 4 ! 0), snd (transfer_program a 0x1010 4 ! 0))"
    by simp
  show thesis
    by (rule that[of "?w ?d1" "?w ?d2" "?w ?d3" "?w ?d4" "?w ?d4"])
      (use d in \<open>simp_all add: thread_step_def K pin_user_page_def mutex_lock_def map_step_def pciemu_dma_struct_init_def
         do_iowrite32_def case_prod_unfold\<close>)
qed

lemma plain_fleet_write:
  obtains s where "(fleet_step (plain_kernel 0xD 0x9000))\<^sup>*\<^sup>* empty_fleet s"
    and "flog s 64 = [(1, transfer_program DMA_FROM_DEVICE 0x1010 4 ! 0)]"
    and "bound (drv s) = [16 \<mapsto> 32, 17 \<mapsto> 64]" and "users s 1 = (64, At_program DMA_FROM_DEVICE 0x1010 4 1)"
proof -
  let ?K = "plain_kernel 0xD 0x9000 :: unit kernel"
  obtain s where s: "(fleet_step ?K)\<^sup>*\<^sup>* empty_fleet s" "bound (drv s) = [16 \<mapsto> 32, 17 \<mapsto> 64]"
    "users s 0 = (32, At_pin DMA_TO_DEVICE 0x5008)" "users s 1 = (64, At_pin DMA_FROM_DEVICE 0x7010)"
    "\<forall>t. \<not> critical (snd (users s t))" "flog s 64 = []"
    by (rule plain_fleet_run)
  from fleet.reachable_inv[OF empty_fleet_start s(1)] have "lock_inv 64 (view 64 s)"
    using s(2) ranI[of "bound (drv s)" 17 64] by (simp add: fleet_inv_def)
  then obtain d where d: "kdevs (fw s) 64 = Some d" "mtx (dev_dma d) = Mutex_unlocked"
    using s(5) by (auto simp: lock_inv_def mutex_of_def split: if_splits)
  have start: "moved s 1 64 (At_pin DMA_FROM_DEVICE 0x7010) (fw s) [] = s"
    using s(4) by (cases s) (simp add: moved_def fun_upd_idem)
  obtain w1 w2 w3 w4 w5 where w:
    "thread_step ?K 64 (At_pin DMA_FROM_DEVICE 0x7010) (fw s) = Some (Inr (At_call DMA_FROM_DEVICE 0x7010, [], w1))"
    "thread_step ?K 64 (At_call DMA_FROM_DEVICE 0x7010) w1 = Some (Inr (At_lock DMA_FROM_DEVICE 1 0x10 4, [], w1))"
    "thread_step ?K 64 (At_lock DMA_FROM_DEVICE 1 0x10 4) w1 = Some (Inr (At_init DMA_FROM_DEVICE 1 0x10 4, [], w2))"
    "thread_step ?K 64 (At_init DMA_FROM_DEVICE 1 0x10 4) w2 = Some (Inr (At_map DMA_FROM_DEVICE 1, [], w3))"
    "thread_step ?K 64 (At_map DMA_FROM_DEVICE 1) w3 = Some (Inr (At_program DMA_FROM_DEVICE 0x1010 4 0, [], w4))"
    "thread_step ?K 64 (At_program DMA_FROM_DEVICE 0x1010 4 0) w4 =
       Some (Inr (At_program DMA_FROM_DEVICE 0x1010 4 1, [transfer_program DMA_FROM_DEVICE 0x1010 4 ! 0], w5))"
    by (rule plain_first_write[OF _ d]) simp_all
  note run = w[THEN moved_step, of s 1]
  have "(fleet_step ?K)\<^sup>*\<^sup>* s (moved s 1 64 (At_program DMA_FROM_DEVICE 0x1010 4 1) w5
      [transfer_program DMA_FROM_DEVICE 0x1010 4 ! 0])"
    using run[of "[]"] unfolding start by (auto intro: converse_rtranclp_into_rtranclp)
  with s(1) have "(fleet_step ?K)\<^sup>*\<^sup>* empty_fleet (moved s 1 64 (At_program DMA_FROM_DEVICE 0x1010 4 1) w5
      [transfer_program DMA_FROM_DEVICE 0x1010 4 ! 0])"
    by (rule rtranclp_trans)
  then show thesis by (rule that) (simp_all add: moved_def s(2,6))
qed

section \<open>Properties of the driver as a whole\<close>





end
