(* ===== verification/Drv_Removal.thy ===== *)
theory Drv_Removal
  imports Drv_Fleet
begin

text \<open>
  Removing a device that is in use. \<open>pciemu_remove\<close> does not look at the callers of the device, nor at the
  order in which it takes things away: it frees the object under a caller that is inside the ioctl, and it
  unmaps the registers while the interrupt handler that writes to them is still registered.
\<close>

section \<open>The two halves of the removal\<close>

text \<open>Up to the clean-up of the device object, and from there on.\<close>

definition remove_unmap :: "ptr \<Rightarrow> 'k kworld \<Rightarrow> 'k kworld res" where
  "remove_unmap pd w =
     (let dev = drvdata w pd in
      bindE (deref (kdevs w) dev) (\<lambda>d.
      bindE (release (R_node (major d) (minor d)) w) (\<lambda>w.
      bindE (release (R_cdev dev) w) (\<lambda>w.
      bindE (release (R_chrdev (major d) (minor d)) w) (\<lambda>w.
        pciemu_dev_clean dev w)))))"

definition remove_rest :: "ptr \<Rightarrow> 'k kworld \<Rightarrow> 'k kworld res" where
  "remove_rest pd w =
     (let dev = drvdata w pd in
      bindE (deref (kdevs w) dev) (\<lambda>d.
      bindE (release (R_master pd) w) (\<lambda>w.
      bindE (release (R_irq (irq_num (dev_irq d))) w) (\<lambda>w.
      bindE (release (R_vectors pd) w) (\<lambda>w.
      bindE (release (R_regions pd) w) (\<lambda>w.
      bindE (release (R_enabled pd) w) (\<lambda>w.
        kfree dev w)))))))"

text \<open>Between the two halves: the mappings and the device node are gone, everything else is still held.\<close>

definition half_removed :: "ptr \<Rightarrow> ptr \<Rightarrow> pciemu_dev \<Rightarrow> resource multiset \<Rightarrow> 'k kworld \<Rightarrow> 'k kworld" where
  "half_removed dev pd d M w =
     w\<lparr>held := add_mset (R_master pd) (add_mset (R_irq (irq_num (dev_irq d))) (add_mset (R_vectors pd)
         (add_mset (R_regions pd) (add_mset (R_enabled pd) (add_mset (R_memory dev) M))))),
       kdevs := (kdevs w)(dev \<mapsto> cleaned d)\<rparr>"

lemma remove_halves:
  assumes "dev \<noteq> NULL" and "kdevs w dev = Some d" and "mapped d" and "drvdata w pd = dev"
    and "held w = all_held dev pd d M"
  shows "remove_unmap pd w = Inr (half_removed dev pd d M w)"
    and "remove_rest pd (half_removed dev pd d M w) = pciemu_remove pd w"
  using assms
  by (simp_all add: remove_unmap_def remove_rest_def remove_bound half_removed_def all_held_def dev_clean_mapped
      cleaned_def kfree_def)

text \<open>What a bound device holds, with the rest.\<close>

lemma bound_device:
  assumes inv: "mod_inv s" and b: "bound s pd = Some dev"
  obtains d M where "dev \<noteq> NULL" "kdevs (mw s) dev = Some d" "mapped d" "drvdata (mw s) pd = dev"
    "held (mw s) = all_held dev pd d M" "mmio_ack_irq (dev_irq d) = mmio (regbar d) + PCIEMU_HW_IRQ_DMA_ACK_ADDR"
proof -
  from inv b obtain d where d: "dev \<noteq> NULL" "kdevs (mw s) dev = Some d" "mapped d" "drvdata (mw s) pd = dev"
    "mmio_ack_irq (dev_irq d) = mmio (regbar d) + PCIEMU_HW_IRQ_DMA_ACK_ADDR"
    unfolding mod_inv_def by blast
  obtain M where "held (mw s) = all_held dev pd d M" using bound_share[OF inv b d(2)] by blast
  with d show thesis by (intro that)
qed

section \<open>Properties of the removal of a device in use\<close>

lemma freed_faults:
  assumes "dev \<noteq> NULL" and "kdevs w dev = None"
  shows "deref (kdevs w) dev = Inl BadPointer" and "upd_kdev dev f w = Inl BadPointer"
  using assms by (simp_all add: deref_def upd_kdev_def)

lemma freed_caller:
  assumes "dev \<noteq> NULL" and "kdevs w dev = None" and "critical pc"
  shows "\<exists>pc'. (pc' = pc \<or> thread_step K dev pc w = Some (Inr (pc', [], w))) \<and>
    thread_step K dev pc' w = Some (Inl BadPointer)"
proof (cases "\<exists>a b c i. pc = At_program a b c i \<and> 5 \<le> i")
  case True
  then show ?thesis
    using assms by (intro exI[of _ At_wait]) (auto simp: thread_step_def freed_faults)
next
  case False
  then have "thread_step K dev pc w = Some (Inl BadPointer)"
    using assms
    by (cases pc) (auto simp: thread_step_def freed_faults map_step_def mutex_unlock_def case_prod_unfold)
  then show ?thesis by blast
qed





end
