(* ===== verification/Dma_Loopback.thy ===== *)
theory Dma_Loopback
  imports Bars
begin

text \<open>
  A transfer whose bus address lies in the register BAR of the device itself. QEMU then calls the write handler of
  the BAR from inside \<open>pci_dma_write\<close>, while the engine executes: the accesses of the transfer come back
  as register writes, among them, possibly, writes to the doorbell. What stops the recursion is the
  \<open>qatomic_cmpxchg\<close> of the doorbell (\<open>dma.c\<close>).
\<close>

section \<open>Nested execution\<close>

text \<open>
  \<open>route bus bytes\<close> is the sequence of accesses (offset, value) to the register BAR of this device that a DMA write of
  the bytes at the bus address amounts to, none when the address is elsewhere. The address map and the
  splitting into accesses are QEMU's, so \<open>route\<close> is a parameter, like \<open>q\<close>; \<open>handler\<close> is what QEMU
  calls for each access.
\<close>

type_synonym dma_route = "u64 \<Rightarrow> u8 list \<Rightarrow> (u64 \<times> u64) list"

definition nested_write_call :: "'m qemu \<Rightarrow> dma_route \<Rightarrow> (u64 \<times> u64 \<Rightarrow> ('m, 'z) aworld_scheme \<Rightarrow> ('m, 'z) aworld_scheme res)
    \<Rightarrow> ptr \<Rightarrow> u64 \<Rightarrow> u64 \<Rightarrow> u64 \<Rightarrow> ('m, 'z) aworld_scheme \<Rightarrow> (int \<times> ('m, 'z) aworld_scheme) res" where
  "nested_write_call q route handler adev bus off n w =
     bindE (dma_write_call q adev bus off n w) (\<lambda>(err, u).
     bindE (deref (adevs w) adev) (\<lambda>a.
     bindE (foldE handler (route bus (slice (unat off) (unat n) (buff (dma a)))) u) (\<lambda>u. Inr (err, u))))"

text \<open>\<open>aurora_dma_execute\<close> with that call; only the branch that writes to the bus differs.\<close>

definition nested_execute :: "'m qemu \<Rightarrow> dma_route \<Rightarrow> (u64 \<times> u64 \<Rightarrow> ('m, 'z) aworld_scheme \<Rightarrow> ('m, 'z) aworld_scheme res)
    \<Rightarrow> ptr \<Rightarrow> ('m, 'z) aworld_scheme \<Rightarrow> ('m, 'z) aworld_scheme res" where
  "nested_execute q route handler adev w =
     bindE (deref (adevs w) adev) (\<lambda>a.
       let c = config (dma a);
           raise = (\<lambda>w. bindE (get_pciemu_dev adev w)
                      (\<lambda>dev. pciemu_irq_raise q dev AURORA_HW_IRQ_DMA_ENDED_VECTOR w))
       in if cmd c = AURORA_HW_DMA_DIRECTION_FROM_DEVICE \<and> aurora_dma_inside_device_boundaries (src (txdesc c)) then
            bindE (aurora_dma_addr_mask adev (dst (txdesc c)) w) (\<lambda>(d, w).
            bindE (nested_write_call q route handler adev d (src (txdesc c) - AURORA_HW_DMA_AREA_START)
                     (len (txdesc c)) w) (\<lambda>(err, w).
              raise (if err \<noteq> 0 then qemu_log_mask (Pci_dma_write_err err) w else w)))
          else aurora_dma_execute q adev w)"

text \<open>
  A write to the register BAR with transfers nested up to a depth; a call beyond it gives the fault
  \<open>NestedTooDeep\<close>, so that a result that is not this fault is that of the unbounded recursion. Only the doorbell
  starts a transfer; every other offset is handled as before.
\<close>

primrec nested_write :: "nat \<Rightarrow> 'm qemu \<Rightarrow> dma_route \<Rightarrow> ptr \<Rightarrow> nat \<Rightarrow> u64 \<times> u64 \<Rightarrow> ('m, 'z) aworld_scheme
    \<Rightarrow> ('m, 'z) aworld_scheme res" where
  "nested_write 0 q route dev sz x w = Inl NestedTooDeep"
| "nested_write (Suc n) q route dev sz x w =
     (if fst x = AURORA_HW_REG_DMA_DOORBELL_RING then
        bindE (get_aurora_dev dev w) (\<lambda>adev.
        bindE (status_cmpxchg DMA_STATUS_IDLE DMA_STATUS_EXECUTING adev w) (\<lambda>(st, w).
          if st = DMA_STATUS_EXECUTING then Inr w
          else bindE (nested_execute q route (nested_write n q route dev sz) adev w)
                 (upd_adev adev (dma_upd (\<lambda>e. e\<lparr>status := DMA_STATUS_IDLE\<rparr>)))))
      else pciemu_regbar_write q dev (fst x) (snd x) sz w)"

section \<open>Agreement with the plain device\<close>

lemma doorbell_valid: "aurora_dma_valid_access AURORA_HW_REG_DMA_DOORBELL_RING"
  by (simp add: aurora_dma_valid_access_def hw_defs)

lemma regbar_write_doorbell:
  "pciemu_regbar_write q dev AURORA_HW_REG_DMA_DOORBELL_RING v sz w =
     bindE (get_aurora_dev dev w) (\<lambda>adev. aurora_dma_doorbell_ring q adev w)"
  by (simp add: pciemu_regbar_write_def glue_write_reg_by_addr_def write_dma_reg[OF doorbell_valid]
      dma_reg_write_doorbell bindE_assoc cong: bindE_cong)

text \<open>When no address of a transfer leads back to the device, the nested model is the plain one.\<close>

lemma nested_call_elsewhere:
  assumes "\<And>bus bs. route bus bs = []"
  shows "nested_write_call q route handler adev bus off n w = dma_write_call q adev bus off n w"
proof (cases "dma_write_call q adev bus off n w")
  case (Inr r)
  then obtain a where "deref (adevs w) adev = Inr a" by (auto simp: dma_write_call_def res_simps)
  with Inr assms show ?thesis by (simp add: nested_write_call_def case_prod_unfold)
qed (simp add: nested_write_call_def)

lemma nested_execute_elsewhere:
  assumes "\<And>bus bs. route bus bs = []"
  shows "nested_execute q route handler adev w = aurora_dma_execute q adev w"
proof -
  have "AURORA_HW_DMA_DIRECTION_FROM_DEVICE \<noteq> AURORA_HW_DMA_DIRECTION_TO_DEVICE" by (simp add: hw_defs)
  then show ?thesis
    by (cases "deref (adevs w) adev")
      (simp_all add: nested_execute_def aurora_dma_execute_def nested_call_elsewhere[OF assms] Let_def)
qed

lemma nested_write_elsewhere:
  assumes "\<And>bus bs. route bus bs = []"
  shows "nested_write (Suc n) q route dev sz (addr, v) w = pciemu_regbar_write q dev addr v sz w"
proof (cases "addr = AURORA_HW_REG_DMA_DOORBELL_RING")
  case True
  then show ?thesis
    by (simp add: regbar_write_doorbell aurora_dma_doorbell_ring_def nested_execute_elsewhere[OF assms]
        cong: if_cong)
qed simp

section \<open>The nested accesses\<close>

text \<open>While the engine executes, a write that comes back does not start anything, whatever the depth left.\<close>

lemma nested_write_busy:
  assumes l: "linked dev adev w" and a: "adevs w adev = Some a" and busy: "status (dma a) = DMA_STATUS_EXECUTING"
  shows "nested_write (Suc n) q route dev sz x w = pciemu_regbar_write q dev (fst x) (snd x) sz w"
proof -
  from l have nn: "adev \<noteq> NULL" by (simp add: linked_def)
  have "aurora_dma_doorbell_ring q adev w = Inr w" by (simp add: doorbell_effect[OF l a] busy)
  moreover have "status_cmpxchg DMA_STATUS_IDLE DMA_STATUS_EXECUTING adev w = Inr (DMA_STATUS_EXECUTING, w)"
    using nn a busy by (simp add: status_cmpxchg_def)
  ultimately show ?thesis
    by (simp add: regbar_write_doorbell get_aurora_dev_linked[OF l])
qed

text \<open>The scratch registers after a sequence of accesses.\<close>

definition reg_store :: "u64 list \<Rightarrow> u64 \<times> u64 \<Rightarrow> u64 list" where
  "reg_store rs x = (case reg_index (fst x) of Some i \<Rightarrow> rs[i := snd x] | None \<Rightarrow> rs)"

definition loop_state :: "ptr \<Rightarrow> ptr \<Rightarrow> ('m, 'z) aworld_scheme \<Rightarrow> DMAEngine \<Rightarrow> u64 list \<Rightarrow> ('m, 'z) aworld_scheme \<Rightarrow> bool" where
  "loop_state dev adev w e rs u \<longleftrightarrow> linked dev adev u \<and> touches dev adev w u \<and>
     (\<exists>a. adevs u adev = Some a \<and> dma a = e \<and> regs a = rs)"

lemma busy_write:
  assumes s: "loop_state dev adev w e rs u" and busy: "status e = DMA_STATUS_EXECUTING"
  shows "\<exists>u'. pciemu_regbar_write q dev (fst x) (snd x) sz u = Inr u' \<and> loop_state dev adev w e (reg_store rs x) u'"
proof -
  from s obtain a where l: "linked dev adev u" and a: "adevs u adev = Some a" "dma a = e" "regs a = rs"
    and t: "touches dev adev w u" by (auto simp: loop_state_def)
  note wr = regbar_write_linked[OF l]
  show ?thesis
  proof (cases "reg_index (fst x)")
    case (Some i)
    let ?u = "u\<lparr>adevs := (adevs u)(adev \<mapsto> set_reg i (snd x) a)\<rparr>"
    have "linked dev adev ?u" using l a by (intro linked_upd_adev) (auto simp: linked_def)
    moreover have "touches dev adev w ?u" by (rule touches_trans[OF t]) simp
    ultimately show ?thesis
      using a Some by (simp add: wr write_scratch[OF l a(1)] loop_state_def reg_store_def)
  next
    case None
    have keep: "loop_state dev adev w e (reg_store rs x) u'"
      if "linked dev adev u'" "touches dev adev u u'" "adevs u' = adevs u" for u'
      using that a None touches_trans[OF t that(2)] by (simp add: loop_state_def reg_store_def)
    show ?thesis
    proof (cases "aurora_dma_valid_access (fst x)")
      case True
      then have "pciemu_regbar_write q dev (fst x) (snd x) sz u = Inr u"
        using busy a by (simp add: wr write_dma_reg busy_engine_ignores_writes[OF l a(1)])
      with keep[of u] l show ?thesis by simp
    next
      case False
      with None raise_linked[OF l, of q 0] lower_linked[OF l, of q 0] keep[of u] l show ?thesis
        by (auto simp: wr aurora_write_reg_by_addr_def reg_index_None get_pciemu_dev_linked[OF l] dma_range_iff
            intro: keep)
    qed
  qed
qed

text \<open>All accesses of a transfer return, with any depth left but zero, and give the same result.\<close>

lemma nested_fold:
  assumes "loop_state dev adev w e rs u" and busy: "status e = DMA_STATUS_EXECUTING"
  shows "\<exists>u'. foldE (nested_write (Suc n) q route dev sz) xs u = Inr u' \<and>
    foldE (\<lambda>x. pciemu_regbar_write q dev (fst x) (snd x) sz) xs u = Inr u' \<and>
    loop_state dev adev w e (foldl reg_store rs xs) u'"
  using assms(1)
proof (induction xs arbitrary: rs u)
  case (Cons x xs)
  obtain u1 where u1: "pciemu_regbar_write q dev (fst x) (snd x) sz u = Inr u1" "loop_state dev adev w e (reg_store rs x) u1"
    using busy_write[OF Cons.prems busy] by blast
  from Cons.prems obtain a where "linked dev adev u" "adevs u adev = Some a" "dma a = e" by (auto simp: loop_state_def)
  with nested_write_busy[of dev adev u a n q route sz x] busy u1(1)
  have "nested_write (Suc n) q route dev sz x u = Inr u1" by simp
  with u1 Cons.IH[OF u1(2)] show ?case by (simp del: nested_write.simps)
qed simp

section \<open>The transfer\<close>

text \<open>The call that moves the data: it returns with the accesses that came back carried out.\<close>

lemma nested_call_from:
  assumes l: "linked dev adev w" and a: "adevs w adev = Some a" and busy: "status (dma a) = DMA_STATUS_EXECUTING"
    and fits: "dma_fits (unat ofs) (unat n)"
  shows "\<exists>err u. (\<forall>d. nested_write_call q route (nested_write (Suc d) q route dev sz) adev bus ofs n w = Inr (err, u)) \<and>
    loop_state dev adev w (dma a)
      (foldl reg_store (regs a) (route bus (slice (unat ofs) (unat n) (buff (dma a))))) u"
proof -
  let ?bs = "slice (unat ofs) (unat n) (buff (dma a))"
  from l a have nn: "adev \<noteq> NULL" and wf: "wf_dma (dma a)" by (auto simp: linked_def)
  obtain err m where pm: "pci_dma_write q dev bus ?bs (machine w) = (err, m)"
    by (cases "pci_dma_write q dev bus ?bs (machine w)")
  define u where "u = apply_dma adev (dma a) m [] w"
  have wr: "dma_write_call q adev bus ofs n w = Inr (err, u)"
    using fits pm by (simp add: write_call_linked[OF l a] u_def)
  have "linked dev adev u" unfolding u_def by (rule linked_apply_dma[OF l wf])
  moreover have "touches dev adev w u" by (simp add: u_def)
  moreover have "adevs u adev = Some a" using a by (simp add: u_def apply_dma_frame)
  ultimately have s: "loop_state dev adev w (dma a) (regs a) u" by (simp add: loop_state_def)
  obtain u' where u': "foldE (\<lambda>x. pciemu_regbar_write q dev (fst x) (snd x) sz) (route bus ?bs) u = Inr u'"
    "loop_state dev adev w (dma a) (foldl reg_store (regs a) (route bus ?bs)) u'"
    using nested_fold[OF s busy, of 0 q route sz "route bus ?bs"] by blast
  have "foldE (nested_write (Suc d) q route dev sz) (route bus ?bs) u = Inr u'" for d
    using nested_fold[OF s busy, of d q route sz "route bus ?bs"] u'(1) by auto
  then have "nested_write_call q route (nested_write (Suc d) q route dev sz) adev bus ofs n w = Inr (err, u')" for d
    using wr nn a by (simp add: nested_write_call_def del: nested_write.simps)
  with u'(2) show ?thesis by blast
qed

text \<open>A transfer out of the buffer, from the moment the engine is marked as executing.\<close>

lemma nested_execute_from:
  assumes l: "linked dev adev w" and a: "adevs w adev = Some a" and busy: "status (dma a) = DMA_STATUS_EXECUTING"
    and c: "dma_classify (config (dma a)) = Dma_from_device off"
  shows "\<exists>u. (\<forall>n. nested_execute q route (nested_write (Suc n) q route dev sz) adev w = Inr u) \<and>
    loop_state dev adev w (dma a) (foldl reg_store (regs a) (route (dst (txdesc (config (dma a))) AND mask (config (dma a)))
      (slice off (unat (len (txdesc (config (dma a))))) (buff (dma a))))) u"
proof -
  let ?c = "config (dma a)" let ?n = "len (txdesc ?c)" let ?bus = "dst (txdesc ?c) AND mask ?c"
  let ?ofs = "src (txdesc ?c) - AURORA_HW_DMA_AREA_START"
  let ?rs = "foldl reg_store (regs a) (route ?bus (slice off (unat ?n) (buff (dma a))))"
  from c have cmd: "cmd ?c = AURORA_HW_DMA_DIRECTION_FROM_DEVICE" "aurora_dma_inside_device_boundaries (src (txdesc ?c))"
    "unat ?ofs = off" "dma_fits off (unat ?n)"
    by (auto simp: dma_classify_def area_offset_def Let_def split: if_splits)
  from l have nn: "adev \<noteq> NULL" by (simp add: linked_def)
  define w1 where "w1 = w\<lparr>qlog := qlog w @ mask_log ?bus (dst (txdesc ?c))\<rparr>"
  have l1: "linked dev adev w1" and a1: "adevs w1 adev = Some a" using l a by (simp_all add: w1_def)
  have t1: "touches dev adev w w1" by (simp add: touches_def w1_def)
  obtain err w2 where w2: "\<And>d. nested_write_call q route (nested_write (Suc d) q route dev sz) adev ?bus ?ofs ?n w1 = Inr (err, w2)"
    "loop_state dev adev w1 (dma a) ?rs w2"
    using nested_call_from[OF l1 a1 busy, of ?ofs ?n q route sz ?bus] cmd(3,4) by auto
  let ?w3 = "if err \<noteq> 0 then qemu_log_mask (Pci_dma_write_err err) w2 else w2"
  have l3: "linked dev adev ?w3" and t3: "touches dev adev w1 ?w3"
    using w2(2) by (auto simp: loop_state_def intro: touches_trans)
  obtain u where u: "pciemu_irq_raise q dev AURORA_HW_IRQ_DMA_ENDED_VECTOR ?w3 = Inr u" "linked dev adev u"
    "touches dev adev ?w3 u" "adevs u = adevs ?w3"
    using raise_linked[OF l3, of q AURORA_HW_IRQ_DMA_ENDED_VECTOR] by blast
  have "touches dev adev w u" by (rule touches_trans[OF touches_trans[OF t1 t3] u(3)])
  with u w2(2) have "loop_state dev adev w (dma a) ?rs u" by (auto simp: loop_state_def)
  moreover have "nested_execute q route (nested_write (Suc n) q route dev sz) adev w = Inr u" for n
    using nn a cmd(1,2) w2(1)[of n] u(1) l3
    by (simp add: nested_execute_def addr_mask_linked[OF l a] get_pciemu_dev_linked flip: w1_def del: nested_write.simps)
  ultimately show ?thesis by blast
qed

text \<open>A transfer of any other kind does not write to the bus.\<close>

lemma nested_execute_other:
  assumes l: "linked dev adev w" and a: "adevs w adev = Some a"
    and c: "\<And>off. dma_classify (config (dma a)) \<noteq> Dma_from_device off"
  shows "nested_execute q route handler adev w = aurora_dma_execute q adev w"
proof (cases "cmd (config (dma a)) = AURORA_HW_DMA_DIRECTION_FROM_DEVICE \<and>
    aurora_dma_inside_device_boundaries (src (txdesc (config (dma a))))")
  case True
  let ?c = "config (dma a)" let ?bus = "dst (txdesc ?c) AND mask ?c"
  let ?w = "w\<lparr>qlog := qlog w @ mask_log ?bus (dst (txdesc ?c))\<rparr>"
  have ne: "AURORA_HW_DMA_DIRECTION_FROM_DEVICE \<noteq> AURORA_HW_DMA_DIRECTION_TO_DEVICE" by (simp add: hw_defs)
  with True c[of "area_offset (src (txdesc ?c))"]
  have o: "\<not> dma_fits (area_offset (src (txdesc ?c))) (unat (len (txdesc ?c)))"
    by (auto simp: dma_classify_def Let_def)
  from l have nn: "adev \<noteq> NULL" by (simp add: linked_def)
  have "linked dev adev ?w" "adevs ?w adev = Some a" using l a by simp_all
  from write_call_linked[OF this] o
  have "dma_write_call q adev ?bus (src (txdesc ?c) - AURORA_HW_DMA_AREA_START) (len (txdesc ?c)) ?w = Inl OutOfBounds"
    by (simp add: area_offset_def)
  with True ne nn a show ?thesis
    by (simp add: nested_execute_def aurora_dma_execute_def addr_mask_linked[OF l a] nested_write_call_def Let_def)
next
  case False
  with l a show ?thesis by (auto simp: nested_execute_def linked_def Let_def)
qed

text \<open>The doorbell of an idle engine, at a depth that leaves one call.\<close>

lemma nested_doorbell:
  assumes l: "linked dev adev w" and a: "adevs w adev = Some a" and idle: "status (dma a) = DMA_STATUS_IDLE"
  defines "a0 \<equiv> dma_upd (\<lambda>e. e\<lparr>status := DMA_STATUS_EXECUTING\<rparr>) a"
  shows "nested_write (Suc n) q route dev sz (AURORA_HW_REG_DMA_DOORBELL_RING, v) w =
      bindE (nested_execute q route (nested_write n q route dev sz) adev (w\<lparr>adevs := (adevs w)(adev \<mapsto> a0)\<rparr>))
        (upd_adev adev (dma_upd (\<lambda>e. e\<lparr>status := DMA_STATUS_IDLE\<rparr>)))"
    and "linked dev adev (w\<lparr>adevs := (adevs w)(adev \<mapsto> a0)\<rparr>)"
proof -
  from l have nn: "adev \<noteq> NULL" by (simp add: linked_def)
  show "linked dev adev (w\<lparr>adevs := (adevs w)(adev \<mapsto> a0)\<rparr>)"
    using l a by (intro linked_upd_adev) (auto simp: linked_def a0_def)
  have "status_cmpxchg DMA_STATUS_IDLE DMA_STATUS_EXECUTING adev w =
      Inr (DMA_STATUS_IDLE, w\<lparr>adevs := (adevs w)(adev \<mapsto> a0)\<rparr>)"
    using nn a idle by (simp add: status_cmpxchg_def upd_adev_def a0_def)
  then show "nested_write (Suc n) q route dev sz (AURORA_HW_REG_DMA_DOORBELL_RING, v) w =
      bindE (nested_execute q route (nested_write n q route dev sz) adev (w\<lparr>adevs := (adevs w)(adev \<mapsto> a0)\<rparr>))
        (upd_adev adev (dma_upd (\<lambda>e. e\<lparr>status := DMA_STATUS_IDLE\<rparr>)))"
    by (simp add: get_aurora_dev_linked[OF l])
qed

lemma nested_write_plain:
  assumes l: "linked dev adev w" and a: "adevs w adev = Some a" and idle: "status (dma a) = DMA_STATUS_IDLE"
    and c: "\<And>off. addr = AURORA_HW_REG_DMA_DOORBELL_RING \<Longrightarrow> dma_classify (config (dma a)) \<noteq> Dma_from_device off"
  shows "nested_write (Suc n) q route dev sz (addr, v) w = pciemu_regbar_write q dev addr v sz w"
proof (cases "addr = AURORA_HW_REG_DMA_DOORBELL_RING")
  case True
  let ?a = "dma_upd (\<lambda>e. e\<lparr>status := DMA_STATUS_EXECUTING\<rparr>) a" let ?w = "w\<lparr>adevs := (adevs w)(adev \<mapsto> ?a)\<rparr>"
  note bell = nested_doorbell[OF l a idle]
  have "nested_execute q route h adev ?w = nested_execute q (\<lambda>_ _. []) h' adev ?w" for h h'
    using c[OF True] nested_execute_other[OF bell(2), of ?a q] by simp
  then have "nested_write (Suc n) q route dev sz (addr, v) w = nested_write (Suc n) q (\<lambda>_ _. []) dev sz (addr, v) w"
    unfolding True bell(1) by (rule arg_cong)
  then show ?thesis by (simp only: nested_write_elsewhere)
qed simp

text \<open>A transfer out of the buffer: the result does not depend on the depth, from two on.\<close>

lemma nested_from:
  assumes l: "linked dev adev w" and a: "adevs w adev = Some a" and idle: "status (dma a) = DMA_STATUS_IDLE"
    and c: "dma_classify (config (dma a)) = Dma_from_device off"
  shows "\<exists>w'. (\<forall>n. nested_write (Suc (Suc n)) q route dev sz (AURORA_HW_REG_DMA_DOORBELL_RING, v) w = Inr w') \<and>
    loop_state dev adev w (dma a) (foldl reg_store (regs a) (route (dst (txdesc (config (dma a))) AND 0xFFFFFFFF)
      (slice off (unat (len (txdesc (config (dma a))))) (buff (dma a))))) w'"
proof -
  let ?a = "dma_upd (\<lambda>e. e\<lparr>status := DMA_STATUS_EXECUTING\<rparr>) a" let ?w = "w\<lparr>adevs := (adevs w)(adev \<mapsto> ?a)\<rparr>"
  let ?rs = "foldl reg_store (regs a) (route (dst (txdesc (config (dma a))) AND 0xFFFFFFFF)
    (slice off (unat (len (txdesc (config (dma a))))) (buff (dma a))))"
  from l have nn: "adev \<noteq> NULL" by (simp add: linked_def)
  from l a have wf: "wf_dma (dma a)" by (auto simp: linked_def)
  note bell = nested_doorbell[OF l a idle]
  have m: "mask (config (dma a)) = 0xFFFFFFFF" using wf by (simp add: wf_dma_def mask_32)
  obtain u where u: "\<And>n. nested_execute q route (nested_write (Suc n) q route dev sz) adev ?w = Inr u"
    "loop_state dev adev ?w (dma ?a) ?rs u"
    using nested_execute_from[OF bell(2), of ?a off q route sz] c m by auto
  then obtain b where b: "adevs u adev = Some b" "dma b = dma ?a" "regs b = ?rs" and lu: "linked dev adev u"
    and tu: "touches dev adev ?w u" by (auto simp: loop_state_def)
  let ?b = "dma_upd (\<lambda>e. e\<lparr>status := DMA_STATUS_IDLE\<rparr>) b"
  let ?u = "u\<lparr>adevs := (adevs u)(adev \<mapsto> ?b)\<rparr>"
  have "dma ?b = dma a" using b(2) idle by simp
  moreover have "linked dev adev ?u" using lu b(1) wf by (intro linked_upd_adev) (auto simp: linked_def)
  moreover have "touches dev adev w ?u"
    by (rule touches_trans[OF touches_trans[OF _ tu]]) simp_all
  ultimately have "loop_state dev adev w (dma a) ?rs ?u" using b(3) by (simp add: loop_state_def)
  moreover have "nested_write (Suc (Suc n)) q route dev sz (AURORA_HW_REG_DMA_DOORBELL_RING, v) w = Inr ?u" for n
    unfolding bell(1) using u(1)[of n] nn b(1) by (simp add: upd_adev_def del: nested_write.simps)
  ultimately show ?thesis by blast
qed

section \<open>Properties of transfers to the own registers\<close>

text \<open>
  C12. A transfer may be aimed at the registers of the device itself, and however QEMU splits it into
  accesses that come back to the write handler, doorbell included, the recursion is two calls deep: for every write to
  the register BAR of a device with an idle engine all greater depths give the same result. It is a fault only
  if the transfer was programmed to run past the DMA buffer; otherwise the handler returns, the
  device is well formed, no other device is touched and the engine is idle. A transfer out of the
  buffer leaves buffer and configuration as they were, although it may have addressed them, and its effect on the
  scratch registers is that of its accesses in order.
\<close>

theorem loopback_two_deep:
  assumes l: "linked dev adev w" and a: "adevs w adev = Some a" and idle: "status (dma a) = DMA_STATUS_IDLE"
  shows "\<exists>r. (\<forall>n. nested_write (Suc (Suc n)) q route dev sz (addr, v) w = r) \<and>
    (case r of
       Inl f \<Rightarrow> f = OutOfBounds \<and> addr = AURORA_HW_REG_DMA_DOORBELL_RING \<and> dma_classify (config (dma a)) = Dma_overflow
     | Inr w' \<Rightarrow> linked dev adev w' \<and> touches dev adev w w' \<and>
         (\<exists>a'. adevs w' adev = Some a' \<and> status (dma a') = DMA_STATUS_IDLE \<and>
           (\<forall>off. addr = AURORA_HW_REG_DMA_DOORBELL_RING \<and> dma_classify (config (dma a)) = Dma_from_device off \<longrightarrow>
              dma a' = dma a \<and> regs a' = foldl reg_store (regs a)
                (route (dst (txdesc (config (dma a))) AND 0xFFFFFFFF)
                  (slice off (unat (len (txdesc (config (dma a))))) (buff (dma a)))))))"
proof (cases "\<exists>off. addr = AURORA_HW_REG_DMA_DOORBELL_RING \<and> dma_classify (config (dma a)) = Dma_from_device off")
  case True
  then obtain off where bell: "addr = AURORA_HW_REG_DMA_DOORBELL_RING"
    and c: "dma_classify (config (dma a)) = Dma_from_device off" by blast
  let ?rs = "foldl reg_store (regs a) (route (dst (txdesc (config (dma a))) AND 0xFFFFFFFF)
    (slice off (unat (len (txdesc (config (dma a))))) (buff (dma a))))"
  obtain w' where w': "\<And>n. nested_write (Suc (Suc n)) q route dev sz (addr, v) w = Inr w'"
    "loop_state dev adev w (dma a) ?rs w'"
    using nested_from[OF l a idle c] unfolding bell by blast
  show ?thesis
    by (rule exI[of _ "Inr w'"]) (use w' c idle in \<open>auto simp: loop_state_def simp del: nested_write.simps\<close>)
next
  case False
  then have plain: "nested_write (Suc n) q route dev sz (addr, v) w = pciemu_regbar_write q dev addr v sz w" for n
    by (intro nested_write_plain[OF l a idle]) blast
  show ?thesis
  proof (cases "pciemu_regbar_write q dev addr v sz w")
    case (Inl f)
    then have o: "addr = AURORA_HW_REG_DMA_DOORBELL_RING" "dma_classify (config (dma a)) = Dma_overflow"
      using regbar_write_fails_iff[OF l a idle] by blast+
    with Inl idle have "f = OutOfBounds"
      by (simp add: regbar_write_doorbell get_aurora_dev_linked[OF l] doorbell_effect[OF l a] dma_spec_def Let_def)
    with o Inl plain show ?thesis by (simp del: nested_write.simps)
  next
    case (Inr w')
    with regbar_write_effect[OF l a Inr] idle False plain show ?thesis by (auto simp del: nested_write.simps)
  qed
qed

text \<open>A transfer that comes back as a write to the doorbell and one to a scratch register.\<close>

definition sample_route :: dma_route where
  "sample_route bus bs = (if bus = 0x2000 then [(AURORA_HW_REG_DMA_DOORBELL_RING, 1), (AURORA_HW_REG_1, 9)] else [])"

theorem loopback_two_deep_witness:
  "\<exists>w' a'. nested_write 2 sample_qemu sample_route 16 4 (AURORA_HW_REG_DMA_DOORBELL_RING, 1) (sample_aworld sample_out) = Inr w' \<and>
     adevs w' 32 = Some a' \<and> regs a' = [1, 9, 3, 4] \<and> status (dma a') = DMA_STATUS_IDLE"
proof -
  have idle: "status (dma sample_out) = DMA_STATUS_IDLE" by (simp add: sample_out_def sample_engine_def)
  have regs: "foldl reg_store (regs sample_out) (sample_route (dst (txdesc (config (dma sample_out))) AND 0xFFFFFFFF) bs) =
      [1, 9, 3, 4]" for bs
    by (simp add: sample_out_facts sample_route_def reg_store_def reg_index_def hw_defs) (simp add: sample_out_def)
  obtain r where r: "\<And>n. nested_write (Suc (Suc n)) sample_qemu sample_route 16 4
      (AURORA_HW_REG_DMA_DOORBELL_RING, 1) (sample_aworld sample_out) = r"
    "case r of
       Inl f \<Rightarrow> f = OutOfBounds \<and> AURORA_HW_REG_DMA_DOORBELL_RING = AURORA_HW_REG_DMA_DOORBELL_RING \<and>
         dma_classify (config (dma sample_out)) = Dma_overflow
     | Inr w' \<Rightarrow> linked 16 32 w' \<and> touches 16 32 (sample_aworld sample_out) w' \<and>
         (\<exists>a'. adevs w' 32 = Some a' \<and> status (dma a') = DMA_STATUS_IDLE \<and>
           (\<forall>off. AURORA_HW_REG_DMA_DOORBELL_RING = AURORA_HW_REG_DMA_DOORBELL_RING \<and>
              dma_classify (config (dma sample_out)) = Dma_from_device off \<longrightarrow>
              dma a' = dma sample_out \<and> regs a' = foldl reg_store (regs sample_out)
                (sample_route (dst (txdesc (config (dma sample_out))) AND 0xFFFFFFFF)
                  (slice off (unat (len (txdesc (config (dma sample_out))))) (buff (dma sample_out))))))"
    using loopback_two_deep[OF sample_out_facts(1) sample_aworld_simps(2) idle, of sample_qemu sample_route 4
        AURORA_HW_REG_DMA_DOORBELL_RING 1] by blast
  from r(2) obtain w' a' where "r = Inr w'" "adevs w' 32 = Some a'" "status (dma a') = DMA_STATUS_IDLE"
    "regs a' = [1, 9, 3, 4]"
    by (cases r) (auto simp: sample_out_facts(3) regs)
  with r(1)[of 0] show ?thesis by (auto simp: numeral_2_eq_2 simp del: nested_write.simps)
qed

end
