(* ===== verification/Server_Main.thy ===== *)
theory Server_Main
  imports Tcp_Server Interfaces "HOL-Library.Sublist"
begin

text \<open>
  The memory server as a whole, \<open>main\<close> of \<open>utils/tcp_server/tcp_server.c\<close>: the parent process that accepts
  connections and forks, and the children that serve them, in any interleaving; and what a child makes of
  a request that does not arrive in one piece.
\<close>

section \<open>Requests in pieces\<close>

lemma slice_padded:
  assumes "length B = L" and "k \<le> L" and "ofs + n \<le> L"
  shows "slice ofs n (take k B @ replicate (L - k) z) = take (k - ofs) (slice ofs n B) @ replicate (n - (k - ofs)) z"
proof (rule nth_equalityI)
  show "length (slice ofs n (take k B @ replicate (L - k) z)) =
      length (take (k - ofs) (slice ofs n B) @ replicate (n - (k - ofs)) z)"
    using assms by simp
  fix i assume "i < length (slice ofs n (take k B @ replicate (L - k) z))"
  then have i: "i < n" using assms by simp
  then have "slice ofs n (take k B @ replicate (L - k) z) ! i = (take k B @ replicate (L - k) z) ! (ofs + i)"
    using assms by (simp add: nth_slice)
  also have "\<dots> = (take (k - ofs) (slice ofs n B) @ replicate (n - (k - ofs)) z) ! i"
    using assms i by (auto simp: nth_append nth_slice)
  finally show "slice ofs n (take k B @ replicate (L - k) z) ! i =
      (take (k - ofs) (slice ofs n B) @ replicate (n - (k - ofs)) z) ! i" .
qed

lemma le_word_pad: "le_word (bs @ replicate n 0) = le_word bs"
proof -
  have "le_word (replicate n 0) = 0" by (induction n) simp_all
  then show ?thesis by (induction bs) simp_all
qed

lemma take_le_bytes: "m \<le> n \<Longrightarrow> take m (le_bytes n x) = le_bytes m x"
proof (induction n arbitrary: m x)
  case (Suc n)
  then show ?case by (cases m) simp_all
qed simp

text \<open>The value of a field of which only the first \<open>m\<close> bytes have arrived, behind zeros.\<close>

lemma le_word_cut: "le_word (take m (le_bytes 8 x) @ replicate (8 - m) 0) = take_bit (8 * m) x"
proof (cases "m \<le> 8")
  case True
  then show ?thesis by (simp only: le_word_pad take_le_bytes le_word_le_bytes_take)
next
  case False
  then have "le_word (take m (le_bytes 8 x) @ replicate (8 - m) 0) = x" by (simp add: u64_codec.dec_enc del: le_bytes.simps)
  with False show ?thesis by (simp add: take_bit_word_eq_self)
qed

definition cut_request :: "nat \<Rightarrow> mem_rw_req \<Rightarrow> mem_rw_req" where
  "cut_request k r = \<lparr>req_cmd = take_bit (8 * k) (req_cmd r), req_addr = take_bit (8 * (k - 8)) (req_addr r),
     req_value = take_bit (8 * (k - 16)) (req_value r), req_resp = take_bit (8 * (k - 24)) (req_resp r)\<rparr>"

lemma zero_bytes: "req_bytes zero_req = replicate 32 0"
proof -
  have "le_bytes n 0 = replicate n 0" for n by (induction n) simp_all
  then show ?thesis by (simp add: req_bytes_def zero_req_def flip: replicate_add del: le_bytes.simps)
qed

lemma receive_part:
  assumes "k \<le> 32"
  shows "bytes_req (blit 0 (take k (req_bytes r)) (req_bytes zero_req)) = cut_request k r"
proof -
  have "blit 0 (take k (req_bytes r)) (req_bytes zero_req) = take k (req_bytes r) @ replicate (32 - k) 0"
    using assms by (simp add: blit_def zero_bytes req_codec.length_enc)
  moreover have "slice 0 8 (req_bytes r) = le_bytes 8 (req_cmd r)" "slice 8 8 (req_bytes r) = le_bytes 8 (req_addr r)"
    "slice 16 8 (req_bytes r) = le_bytes 8 (req_value r)" "slice 24 8 (req_bytes r) = le_bytes 8 (req_resp r)"
    by (simp_all add: req_bytes_def slice_def del: le_bytes.simps)
  ultimately show ?thesis
    using assms
    by (simp add: bytes_req_def slice_padded[OF req_codec.length_enc] le_word_cut cut_request_def del: le_bytes.simps)
qed

section \<open>Processes\<close>

text \<open>
  A child process: its socket, its open sockets (it closes the listening one and keeps every other one the parent had
  open), the \<open>req\<close> it has inherited (never initialised), its \<open>req\<close> now, and, as history, what \<open>recv\<close> has
  delivered and what has been sent.
\<close>

record child =
  c_sock :: int
  c_fds :: "int list"
  c_init :: mem_rw_req
  c_req :: mem_rw_req
  c_received :: "u8 list list"
  c_sent :: "u8 list"

record server =
  srv_phase :: server_phase
  open_fds :: "int list"
  children :: "child list"

definition new_child :: "int \<Rightarrow> int \<Rightarrow> int list \<Rightarrow> mem_rw_req \<Rightarrow> child" where
  "new_child sockfd newSocket fds req =
     \<lparr>c_sock = newSocket, c_fds = remove1 sockfd fds, c_init = req, c_req = req, c_received = [], c_sent = []\<rparr>"

text \<open>
  One round of the parent's loop: a failing \<open>accept\<close> ends the process; otherwise the socket stays open in the parent,
  which does not close it, and a child serves the connection unless \<open>fork\<close> fails, which is not noticed.
\<close>

definition server_accept :: "int \<Rightarrow> int \<Rightarrow> int \<Rightarrow> mem_rw_req \<Rightarrow> server \<Rightarrow> server" where
  "server_accept sockfd newSocket childpid req s =
     (if newSocket < 0 then s\<lparr>srv_phase := Exited 1, open_fds := []\<rparr>
      else let s = s\<lparr>open_fds := open_fds s @ [newSocket]\<rparr>
           in if childpid < 0 then s else s\<lparr>children := children s @ [new_child sockfd newSocket (open_fds s) req]\<rparr>)"

definition child_recv :: "u8 list \<Rightarrow> child \<Rightarrow> child" where
  "child_recv chunk c =
     (let (req, out) = server_round chunk (c_req c)
      in c\<lparr>c_req := req, c_received := c_received c @ [chunk], c_sent := c_sent c @ out\<rparr>)"

inductive srv_step :: "server \<Rightarrow> server \<Rightarrow> bool" where
  parent: "srv_phase s = Listening lsn \<Longrightarrow> srv_step s (server_accept lsn newSocket childpid req s)"
| child: "i < length (children s) \<Longrightarrow> srv_step s (s\<lparr>children := (children s)[i := child_recv chunk (children s ! i)]\<rparr>)"

definition server_start :: "int \<Rightarrow> int \<Rightarrow> int \<Rightarrow> server" where
  "server_start sockfd bind_ret listen_ret =
     (let p = server_setup sockfd bind_ret listen_ret
      in \<lparr>srv_phase = p, open_fds = (case p of Listening lsn \<Rightarrow> [lsn] | Exited _ \<Rightarrow> []), children = []\<rparr>)"

section \<open>Invariant\<close>

lemma server_child_append:
  "server_child (cs @ [chunk]) req = server_child cs req @ snd (server_round chunk (if cs = [] then req else zero_req))"
proof (induction cs arbitrary: req)
  case Nil
  then show ?case by (simp add: case_prod_unfold)
next
  case (Cons c cs)
  have "fst (server_round c req) = zero_req" by (simp add: server_round_def Let_def)
  with Cons.IH[of zero_req] show ?case by (simp add: case_prod_unfold)
qed

definition child_inv :: "child \<Rightarrow> bool" where
  "child_inv c \<longleftrightarrow> c_sent c = server_child (c_received c) (c_init c) \<and>
     c_req c = (if c_received c = [] then c_init c else zero_req)"

definition fds_kept :: "child list \<Rightarrow> bool" where
  "fds_kept cs \<longleftrightarrow> (\<forall>j < length cs. \<forall>i < j. c_sock (cs ! i) \<in> set (c_fds (cs ! j)))"

definition srv_inv :: "int \<Rightarrow> server \<Rightarrow> bool" where
  "srv_inv sockfd s \<longleftrightarrow> list_all child_inv (children s) \<and> fds_kept (children s) \<and>
     (\<forall>lsn. srv_phase s = Listening lsn \<longrightarrow> lsn = sockfd \<and>
        (\<exists>socks. open_fds s = sockfd # socks \<and> subseq (map c_sock (children s)) socks))"

lemma child_recv_inv:
  assumes "child_inv c"
  shows "child_inv (child_recv chunk c)" and "c_sock (child_recv chunk c) = c_sock c" "c_fds (child_recv chunk c) = c_fds c"
proof -
  obtain req out where r: "server_round chunk (c_req c) = (req, out)" by (cases "server_round chunk (c_req c)")
  have "req = zero_req" using r by (simp add: server_round_def Let_def)
  with assms r show "child_inv (child_recv chunk c)"
    by (simp add: child_inv_def child_recv_def server_child_append)
  show "c_sock (child_recv chunk c) = c_sock c" "c_fds (child_recv chunk c) = c_fds c" by (simp_all add: child_recv_def r)
qed

lemma fds_kept_append:
  assumes "fds_kept cs" and "c_sock ` set cs \<subseteq> set (c_fds c)"
  shows "fds_kept (cs @ [c])"
  using assms by (auto simp: fds_kept_def nth_append less_Suc_eq)

lemma srv_inv_accept:
  assumes inv: "srv_inv sockfd s" and p: "srv_phase s = Listening lsn"
  shows "srv_inv sockfd (server_accept lsn newSocket childpid req s)"
proof -
  from inv p obtain socks where fds: "open_fds s = sockfd # socks" "subseq (map c_sock (children s)) socks" "lsn = sockfd"
    by (auto simp: srv_inv_def)
  then have sub: "subseq (map c_sock (children s)) (socks @ [newSocket])"
    "subseq (map c_sock (children s) @ [newSocket]) (socks @ [newSocket])"
    by (auto intro: subseq_rev_drop_many)
  let ?c = "new_child sockfd newSocket (open_fds s @ [newSocket]) req"
  have "c_sock c \<in> set socks" if "c \<in> set (children s)" for c
    using list_emb_set[OF fds(2), of "c_sock c"] that by auto
  then have "fds_kept (children s @ [?c])"
    using inv fds(1) by (intro fds_kept_append) (auto simp: srv_inv_def new_child_def)
  moreover have "child_inv ?c" "c_sock ?c = newSocket" by (simp_all add: child_inv_def new_child_def)
  ultimately show ?thesis
    using inv fds sub by (auto simp: srv_inv_def server_accept_def Let_def)
qed

lemma srv_inv_step: "srv_step s s' \<Longrightarrow> srv_inv sockfd s \<Longrightarrow> srv_inv sockfd s'"
proof (induction rule: srv_step.induct)
  case (parent s lsn newSocket childpid req)
  then show ?case by (intro srv_inv_accept)
next
  case (child i s chunk)
  then have "child_inv (children s ! i)" by (simp add: srv_inv_def list_all_length)
  note c = child_recv_inv[OF this, of chunk]
  let ?cs = "(children s)[i := child_recv chunk (children s ! i)]"
  have "map c_sock ?cs = map c_sock (children s)"
    using child.hyps c(2) by (simp add: map_update list_update_same_conv)
  moreover have "list_all child_inv ?cs"
    using child c(1) by (simp add: srv_inv_def list_all_length nth_list_update)
  moreover have "fds_kept ?cs"
    using child c(2,3) by (simp add: srv_inv_def fds_kept_def nth_list_update)
  ultimately show ?case using child.prems by (auto simp: srv_inv_def)
qed

interpretation server_main: invariant_system "\<lambda>s. \<exists>bind_ret listen_ret. s = server_start sockfd bind_ret listen_ret"
  srv_step "srv_inv sockfd" for sockfd
proof
  show "srv_inv sockfd s" if "\<exists>bind_ret listen_ret. s = server_start sockfd bind_ret listen_ret" for s
    using that by (auto simp: server_start_def server_setup_def srv_inv_def fds_kept_def Let_def split: if_splits)
  show "srv_inv sockfd t" if "srv_inv sockfd s" "srv_step s t" for s t using srv_inv_step that by blast
qed

section \<open>Properties of the server\<close>

text \<open>
  C31. Connections are served independently of each other, and are never closed. In every state the
  server and its children can reach from its start-up, in any interleaving of accepts, failing or not, and of
  receives on all connections: a connection on which whole requests have arrived has been sent the answers to those
  with a known command, one per request and in the order of the requests, each echoing command and
  address, marked OK, with the address as value, whatever came on other connections. As long as the parent
  listens it holds open its listening socket and, in order, the socket of every child it has ever
  made; and every child holds open the sockets of all children made before it.
\<close>

theorem server_connections:
  assumes "srv_step\<^sup>*\<^sup>* (server_start sockfd bind_ret listen_ret) s"
  shows "(\<forall>c \<in> set (children s). \<forall>rs. c_received c = map req_bytes rs \<longrightarrow>
      c_sent c = concat (map (\<lambda>r. req_bytes (r\<lparr>req_value := req_addr r, req_resp := MEM_RW_RESP_OK\<rparr>))
        (filter (\<lambda>r. req_cmd r = MEM_RW_CMD_R \<or> req_cmd r = MEM_RW_CMD_W) rs))) \<and>
    (\<forall>lsn. srv_phase s = Listening lsn \<longrightarrow> lsn = sockfd \<and>
      (\<exists>socks. open_fds s = sockfd # socks \<and> subseq (map c_sock (children s)) socks)) \<and>
    (\<forall>i j. i < j \<and> j < length (children s) \<longrightarrow> c_sock (children s ! i) \<in> set (c_fds (children s ! j)))"
proof -
  have inv: "srv_inv sockfd s" by (rule server_main.reachable_inv[OF _ assms]) blast
  then have "c_sent c = server_child (c_received c) (c_init c)" if "c \<in> set (children s)" for c
    using that by (auto simp: srv_inv_def list_all_iff child_inv_def)
  then have "\<forall>c \<in> set (children s). \<forall>rs. c_received c = map req_bytes rs \<longrightarrow>
      c_sent c = concat (map (\<lambda>r. req_bytes (r\<lparr>req_value := req_addr r, req_resp := MEM_RW_RESP_OK\<rparr>))
        (filter (\<lambda>r. req_cmd r = MEM_RW_CMD_R \<or> req_cmd r = MEM_RW_CMD_W) rs))"
    by (simp add: server_answers_in_order)
  with inv show ?thesis unfolding srv_inv_def fds_kept_def by blast
qed

text \<open>Two connections; a request on the first.\<close>

definition sample_request :: mem_rw_req where
  "sample_request = \<lparr>req_cmd = MEM_RW_CMD_R, req_addr = 0x123456, req_value = 0, req_resp = 0\<rparr>"

theorem server_connections_witness:
  "\<exists>s c. srv_step\<^sup>*\<^sup>* (server_start 3 0 0) s \<and> c \<in> set (children s) \<and>
     c_sent c = req_bytes (sample_request\<lparr>req_value := 0x123456, req_resp := MEM_RW_RESP_OK\<rparr>) \<and>
     open_fds s = [3, 4, 5]"
proof -
  let ?s1 = "server_accept 3 4 100 zero_req (server_start 3 0 0)"
  let ?s2 = "server_accept 3 5 101 zero_req ?s1"
  let ?s3 = "?s2\<lparr>children := (children ?s2)[0 := child_recv (req_bytes sample_request) (children ?s2 ! 0)]\<rparr>"
  have ph: "srv_phase (server_start 3 0 0) = Listening 3" "srv_phase ?s1 = Listening 3"
    by (simp_all add: server_start_def server_setup_def server_accept_def)
  have "srv_step (server_start 3 0 0) ?s1" by (rule srv_step.parent[OF ph(1)])
  moreover have "srv_step ?s1 ?s2" by (rule srv_step.parent[OF ph(2)])
  moreover have "srv_step ?s2 ?s3"
    by (rule srv_step.child) (simp add: server_start_def server_accept_def)
  ultimately have r: "srv_step\<^sup>*\<^sup>* (server_start 3 0 0) ?s3" by (meson converse_rtranclp_into_rtranclp r_into_rtranclp)
  let ?c = "child_recv (req_bytes sample_request) (new_child 3 4 [3, 4] zero_req)"
  have ch: "children ?s3 = [?c, new_child 3 5 [3, 4, 5] zero_req]" and fds: "open_fds ?s3 = [3, 4, 5]"
    by (simp_all add: server_start_def server_setup_def server_accept_def Let_def)
  have "c_received ?c = map req_bytes [sample_request]"
    by (simp add: child_recv_def new_child_def case_prod_unfold Let_def)
  moreover have "?c \<in> set (children ?s3)" by (simp only: ch list.set_intros)
  ultimately have "c_sent ?c = concat (map (\<lambda>r. req_bytes (r\<lparr>req_value := req_addr r, req_resp := MEM_RW_RESP_OK\<rparr>))
      (filter (\<lambda>r. req_cmd r = MEM_RW_CMD_R \<or> req_cmd r = MEM_RW_CMD_W) [sample_request]))"
    using server_connections[OF r] by blast
  then have "c_sent ?c = req_bytes (sample_request\<lparr>req_value := 0x123456, req_resp := MEM_RW_RESP_OK\<rparr>)"
    by (simp add: sample_request_def)
  with r ch fds show ?thesis by (intro exI[of _ ?s3] exI[of _ ?c]) simp
qed

lemma serve_part:
  assumes "k \<le> 32"
  shows "server_round (take k (req_bytes r)) zero_req =
    (zero_req, case server_reply (cut_request k r) of None \<Rightarrow> [] | Some r' \<Rightarrow> req_bytes r')"
proof -
  have "take 32 (take k (req_bytes r)) = take k (req_bytes r)" using assms by simp
  then show ?thesis by (simp add: server_round_def receive_part[OF assms] Let_def del: take_take)
qed

lemma small_command:
  assumes "req_cmd r = MEM_RW_CMD_R \<or> req_cmd r = MEM_RW_CMD_W" and "1 \<le> k"
  shows "take_bit (8 * k) (req_cmd r) = req_cmd r"
proof -
  have "req_cmd r = take_bit 2 (req_cmd r)" using assms(1) by (auto simp: hw_defs)
  then have "take_bit (8 * k) (req_cmd r) = take_bit (8 * k) (take_bit 2 (req_cmd r))" by simp
  also have "\<dots> = take_bit 2 (req_cmd r)" using assms(2) by (simp add: min_def)
  finally show ?thesis using \<open>req_cmd r = take_bit 2 (req_cmd r)\<close> by simp
qed



end
