(* ===== verification/Spec2Isabelle.thy ===== *)
theory Spec2Isabelle
  imports Boot Drv_Schedules Drv_Removal Dma_Loopback Server_Main
begin

text \<open>
  Verification of \<open>pciemu\<close>, an emulated PCIe device for QEMU with its memory server, its Linux driver
  and the driver's example program.

  \<^bold>\<open>The program.\<close> The device lives inside QEMU. A front end (\<open>src/pciemu/front_end\<close>) offers three base
  address registers and interrupts to the guest; a glue layer (\<open>src/pciemu/glue\<close>) hands register and
  memory accesses to the back end \<open>aurora\<close> (\<open>src/pciemu/aurora_backend\<close>), which has four scratch
  registers, a DMA engine with a buffer of 4096 bytes, and device memory that is kept by a separate
  process (\<open>utils/tcp_server\<close>) reached over a socket. In the guest a kernel module (\<open>driver/kernel\<close>) maps
  the BARs, makes a character device with an ioctl for either direction of DMA, and waits for the
  completion interrupt; the program \<open>driver/userspace/pciemu_example.c\<close> writes and reads the registers
  through \<open>mmap\<close> and sends an integer to the device and back.

  \<^bold>\<open>Conventions.\<close> (\<open>Prelude\<close>) A C function that changes state is a function from the state to
  \<open>fault + state\<close>; \<open>Inl\<close> is undefined behaviour (null or wild pointer, access outside an array, a missing
  return value, an uninitialised lock) or a wait that never ends, an error code is a value inside \<open>Inr\<close>.
  Machine integers are words of their width. Loops of the code are \<open>foldE\<close> or \<open>foldl\<close> over their
  index range, or structural recursion, so every definition is total without fuel, with one exception: the
  re-entrant register write of \<open>Dma_Loopback\<close> has a bound on its nesting, and it is proved that two is
  enough. The serving and accept
  loops of the server, which do not end, are functions of the finite sequence of system call
  results seen so far, and steps of a relation. Code outside the repository is a record of functions on an opaque state: QEMU
  (\<open>'m qemu\<close>), sockets, environment and mutexes (\<open>'m host\<close>), the Linux kernel (\<open>'k kernel\<close>), the process's
  operating system (\<open>'k process\<close>). What the code relies on are named predicates: \<open>guest_ram\<close>,
  \<open>stream_socket\<close>, \<open>platform\<close>, \<open>has_vectors\<close>, \<open>user_page\<close>, \<open>bar_mapped\<close>, \<open>user_int\<close>; each is shown to hold
  for an executable instance (\<open>sample_qemu\<close>, \<open>sample_kernel\<close>, \<open>sample_process\<close> and others) in the
  witnesses.

  \<^bold>\<open>The device.\<close>
  \<^item> \<open>Aurora_HW\<close>: the macros of \<open>aurora_hw.h\<close> and \<open>pciemu_hw.h\<close>; registers, interrupt tables and DMA area do
    not overlap and lie inside their BARs.
  \<^item> \<open>Qemu_Env\<close>: QEMU as a parameter, the heap of front-end objects, the log.
  \<^item> \<open>Irq\<close> (\<open>irq.c\<close>, \<open>irq.h\<close>): MSI-X, MSI and INTx on the union the code uses; raise, lower and reset refine
    operations on the set of pending vectors. The locale \<open>irq_operation\<close> is their common contract.
  \<^item> \<open>Dma\<close> (\<open>dma.c\<close>, \<open>dma.h\<close>): configuration registers and doorbell; exactly which programmed transfers
    run outside the buffer, what the others do to buffer, guest memory, log and interrupts.
  \<^item> \<open>Bytes\<close>, \<open>Protocol\<close> (\<open>protocol.h\<close>): the request structure and its bytes; encode and decode are inverse
    (locale \<open>byte_codec\<close>).
  \<^item> \<open>Tcp_Client\<close> (\<open>tcp_client.c\<close>): connection set-up with its fixed buffers, locking, read and write
    requests; both requests return whatever the socket does unless the environment makes the set-up
    fault.
  \<^item> \<open>Tcp_Server\<close> (\<open>tcp_server.c\<close>): start-up, accept loop, serving loop; answers come in order, and after
    the client has closed the loop spins.
  \<^item> \<open>Server_Main\<close> (\<open>main\<close> of \<open>tcp_server.c\<close>): the parent and its forked children with their descriptors, as a
    step relation (an interpretation of \<open>invariant_system\<close>); connections are independent and never closed, and
    a request that arrives in two pieces is not put together.
  \<^item> \<open>Aurora\<close> (\<open>aurora.c\<close>), \<open>Glue\<close> (\<open>glue.c\<close>): decoding of offsets, life cycle of the back-end object.
  \<^item> \<open>Interfaces\<close>: the locales \<open>register_block\<close> (plain registers among registers with side effects),
    \<open>invariant_system\<close> (a step relation with an invariant) and \<open>simulation\<close> (operations that answer as a
    specification does).
  \<^item> \<open>Bars\<close> (\<open>regbar.c\<close>, \<open>internal_bar.c\<close>, \<open>membar.c\<close>): both register BARs are interpretations of
    \<open>register_block\<close>; faults, decoding, isolation of devices from each other, and device memory together
    with the server.
  \<^item> \<open>Dma_Loopback\<close> (\<open>dma.c\<close>): transfers to the registers of the device itself, which call the write handler from
    inside the transfer; the nested model agrees with the plain one when no address leads back, and is
    never more than two calls deep.
  \<^item> \<open>Device\<close> (\<open>pciemu.c\<close>): realisation, removal, reset, class and type registration; no back end is leaked,
    and what happens when there is no memory.
  \<^item> \<open>Device_Machine\<close>: the step relation of a machine with several devices (plug, unplug, reset, accesses);
    consistency of the heap as an interpretation of \<open>invariant_system\<close>.
  \<^item> \<open>Transfers\<close>: whole DMA transfers as the driver programs them, and the round trip of a block.

  \<^bold>\<open>The driver.\<close>
  \<^item> \<open>Kernel_Env\<close> (\<open>pciemu_module.h\<close>): the kernel as a parameter, the driver's structures, and the multiset
    of kernel resources held; a release of what is not held is a fault, so that every theorem about a
    result \<open>Inr\<close> also excludes double releases.
  \<^item> \<open>Drv_Irq\<close> (\<open>pciemu_irq.c\<close>): handler, waiting, allocation of vectors with every error path.
  \<^item> \<open>Drv_Dma\<close> (\<open>pciemu_dma.c\<close>): the two transfers.
  \<^item> \<open>Drv_Module\<close> (\<open>pciemu_module.c\<close>): file operations, probe with one definition per error label, remove,
    load and unload; errors the ioctl hides.
  \<^item> \<open>Drv_Probe\<close>: the probe is all or nothing and removal gives back exactly what it took; two error paths
    of the code that go wrong.
  \<^item> \<open>Drv_Lifecycle\<close>: the module is loaded, any number of devices come and go, it is unloaded; what it holds is
    always exactly what the bound devices need (an interpretation of \<open>invariant_system\<close>).
  \<^item> \<open>Drv_Threads\<close>: any number of callers of the ioctl and interrupts at any moment, as a step relation whose
    steps are the parts of the functions above; the lock excludes, and register programs stay whole (an
    interpretation of \<open>invariant_system\<close>).
  \<^item> \<open>Drv_Fleet\<close>: both together, any number of devices that come and go, each with any number of callers; the state
    of one device is a projection, through which its invariants are lifted (an interpretation of
    \<open>invariant_system\<close>). No step faults, the callers of one device do not wait for those of another, and
    the account of resources is exact.
  \<^item> \<open>Drv_Removal\<close>: what happens when a device is removed under its callers, and the moment in which the
    registers are unmapped and the interrupt is still registered.
  \<^item> \<open>Drv_Schedules\<close>: progress of the callers; the sequential ioctl is one of the interleavings; and an
    interleaving of two callers that swaps their pages.
  \<^item> \<open>System\<close>: driver and device joined by \<open>platform\<close> (a write behind the mapped address is an access to
    the register BAR; the interrupt the device sends is the one the driver waits for). The ioctl round trip
    ends and delivers the value.

  \<^bold>\<open>The example program.\<close>
  \<^item> \<open>Example_Args\<close>: parsing of arguments, ranges and truncation, the name of the device file against the
    driver's name for it.
  \<^item> \<open>Example\<close>: opening, mapping, registers, DMA check and \<open>main\<close>, which succeeds on a working system.
  \<^item> \<open>User_Device\<close>: the abstract device a process sees (four registers and one stored integer), and that
    the whole stack, from the device file down to the DMA engine, implements it for every sequence of
    operations (an interpretation of \<open>simulation\<close>).
  \<^item> \<open>Boot\<close>: realising the device and probing it establish the state in which that holds.

  \<^bold>\<open>Not modelled.\<close> The text of messages; what QEMU does with the registered type and what the
  kernel core does (clearing the driver data after a failed probe, calling \<open>probe\<close>); DMA between
  the device and its memory BAR, which would go through the socket, and DMA reads of its own registers, which have no side
  effect; the effect of a device removed under its callers beyond the first access to the freed object; caching and ordering of bus
  writes; \<open>getopt\<close>, \<open>rand\<close> and the shell command the program runs in its verbose mode; the build files and
  release scripts.
\<close>

end
